(* ===== verification/Prelude.thy ===== *)
theory Prelude
  imports Complex_Main "HOL-Library.Word" "HOL-Library.Char_ord" "HOL-Library.List_Lexorder"
begin

text \<open>
  Shared vocabulary of the development: machine-integer types, the string operations of the
  Rust standard library that the sources use (on byte strings), number printing and parsing,
  and the generic lemmas the components share.

  Strings are byte lists (\<open>string = char list\<close>, a \<open>char\<close> being one byte of the UTF-8 encoding).
  \<open>trim\<close>, \<open>split_whitespace\<close> and \<open>lines\<close> look at the ASCII white space only: every text the
  sources parse (IMDS answers, \<open>/proc\<close> files, weight files, AWS XML) is ASCII at these places.
\<close>

section \<open>Machine integers and errors\<close>

type_synonym u8 = "8 word"
type_synonym u16 = "16 word"
type_synonym u32 = "32 word"
type_synonym u64 = "64 word"

named_theorems str_simps \<open>equations of the string operations\<close>

text \<open>Rust's \<open>checked_sub\<close> and \<open>saturating_sub\<close> on unsigned words.\<close>

definition checked_sub :: "'a::len word \<Rightarrow> 'a word \<Rightarrow> 'a word option" where
  "checked_sub a b = (if b \<le> a then Some (a - b) else None)"

definition saturating_sub :: "'a::len word \<Rightarrow> 'a word \<Rightarrow> 'a word" where
  "saturating_sub a b = (if b \<le> a then a - b else 0)"

lemma unat_saturating_sub: "unat (saturating_sub a b) = unat a - unat b"
  by (auto simp: saturating_sub_def unat_sub word_le_nat_alt)

lemma unat_add_no_wrap:
  "unat (a :: 'a::len word) + unat b < 2 ^ LENGTH('a) \<Longrightarrow> unat (a + b) = unat a + unat b"
  by (simp add: unat_word_ariths)

lemma unat_mult_no_wrap:
  "unat (a :: 'a::len word) * unat b < 2 ^ LENGTH('a) \<Longrightarrow> unat (a * b) = unat a * unat b"
  by (simp add: unat_word_ariths)

section \<open>Lists of bytes\<close>

text \<open>\<open>s.split(p)\<close>: the pieces between the elements that satisfy \<open>p\<close>; never empty.\<close>

fun splits :: "('a \<Rightarrow> bool) \<Rightarrow> 'a list \<Rightarrow> 'a list list" where
  "splits p [] = [[]]"
| "splits p (x # xs) =
     (if p x then [] # splits p xs
      else (case splits p xs of [] \<Rightarrow> [[x]] | y # ys \<Rightarrow> (x # y) # ys))"

lemma splits_not_Nil [simp]: "splits p xs \<noteq> []"
  by (induction xs) (auto split: list.splits)

lemma splits_none: "(\<And>x. x \<in> set xs \<Longrightarrow> \<not> p x) \<Longrightarrow> splits p xs = [xs]"
  by (induction xs) auto

lemma splits_append:
  "(\<And>x. x \<in> set xs \<Longrightarrow> \<not> p x) \<Longrightarrow> p y \<Longrightarrow> splits p (xs @ y # ys) = xs # splits p ys"
  by (induction xs) (auto split: list.splits)

text \<open>\<open>score as u64\<close> for a Redis score: the cast from a float saturates.\<close>

definition score_u64 :: "nat \<Rightarrow> u64" where
  "score_u64 n = word_of_nat (min n (2 ^ 64 - 1))"

lemma unat_score_u64: "unat (score_u64 n) = min n (2 ^ 64 - 1)"
  by (simp add: score_u64_def unat_of_nat min_def)

text \<open>\<open>s.strip_prefix(p)\<close> and \<open>s.strip_suffix(p)\<close>.\<close>

fun strip_prefix :: "'a list \<Rightarrow> 'a list \<Rightarrow> 'a list option" where
  "strip_prefix [] ys = Some ys"
| "strip_prefix (x # xs) [] = None"
| "strip_prefix (x # xs) (y # ys) = (if x = y then strip_prefix xs ys else None)"

definition strip_suffix :: "'a list \<Rightarrow> 'a list \<Rightarrow> 'a list option" where
  "strip_suffix p s = map_option rev (strip_prefix (rev p) (rev s))"

lemma strip_prefix_append [simp]: "strip_prefix xs (xs @ ys) = Some ys"
  by (induction xs) auto

lemma strip_prefix_Some_iff: "strip_prefix xs ys = Some zs \<longleftrightarrow> ys = xs @ zs"
  by (induction xs ys rule: strip_prefix.induct) auto

lemma strip_suffix_append [simp]: "strip_suffix xs (ys @ xs) = Some ys"
  by (simp add: strip_suffix_def)

lemma strip_suffix_Some_iff: "strip_suffix xs ys = Some zs \<longleftrightarrow> ys = zs @ xs"
proof -
  have "strip_suffix xs ys = Some zs \<longleftrightarrow> rev ys = rev xs @ rev zs"
    by (auto simp: strip_suffix_def strip_prefix_Some_iff intro: exI [of _ "rev zs"])
  also have "\<dots> \<longleftrightarrow> ys = zs @ xs"
    by (metis rev_append rev_rev_ident)
  finally show ?thesis .
qed

definition starts_with :: "'a list \<Rightarrow> 'a list \<Rightarrow> bool" where
  "starts_with s p \<longleftrightarrow> strip_prefix p s \<noteq> None"

lemma starts_with_iff: "starts_with s p \<longleftrightarrow> (\<exists>r. s = p @ r)"
  by (auto simp: starts_with_def strip_prefix_Some_iff)

text \<open>\<open>s.find(p)\<close>: the offset of the first occurrence of \<open>p\<close>.\<close>

fun find_sub :: "'a list \<Rightarrow> 'a list \<Rightarrow> nat option" where
  "find_sub p [] = (if p = [] then Some 0 else None)"
| "find_sub p (x # xs) =
     (if starts_with (x # xs) p then Some 0 else map_option Suc (find_sub p xs))"

lemma find_sub_SomeD:
  "find_sub p s = Some i \<Longrightarrow> i + length p \<le> length s \<and> take (length p) (drop i s) = p"
proof (induction s arbitrary: i)
  case (Cons x xs)
  show ?case
  proof (cases "starts_with (x # xs) p")
    case True
    then obtain r where "x # xs = p @ r" by (auto simp: starts_with_iff)
    then have "length p \<le> length (x # xs)" "take (length p) (x # xs) = p" by simp_all
    with True Cons.prems show ?thesis by simp
  next
    case False
    with Cons show ?thesis by auto
  qed
qed (auto split: if_splits)

lemma find_sub_bound: "find_sub p s = Some i \<Longrightarrow> i + length p \<le> length s"
  by (simp add: find_sub_SomeD)

lemma find_sub_split: "find_sub p s = Some i \<Longrightarrow> s = take i s @ p @ drop (i + length p) s"
  by (metis add.commute append_take_drop_id drop_drop find_sub_SomeD)

lemma find_sub_here: "find_sub p (p @ r) = Some 0"
  by (cases "p @ r") (simp_all add: starts_with_def, metis strip_prefix_append option.distinct(1))

lemma find_sub_None: "find_sub p s = None \<longleftrightarrow> (\<forall>u v. s \<noteq> u @ p @ v)"
proof (induction s)
  case Nil
  then show ?case by auto
next
  case (Cons x xs)
  have "(\<forall>u v. x # xs \<noteq> u @ p @ v) \<longleftrightarrow> \<not> starts_with (x # xs) p \<and> (\<forall>u v. xs \<noteq> u @ p @ v)"
    by (metis append_Cons append_Nil neq_Nil_conv list.inject starts_with_iff)
  with Cons show ?case by auto
qed

text \<open>\<open>s.contains(p)\<close> and \<open>s.split_once(c)\<close>.\<close>

definition contains :: "'a list \<Rightarrow> 'a list \<Rightarrow> bool" where
  "contains s p \<longleftrightarrow> find_sub p s \<noteq> None"

fun split_once :: "'a \<Rightarrow> 'a list \<Rightarrow> ('a list \<times> 'a list) option" where
  "split_once c [] = None"
| "split_once c (x # xs) =
     (if x = c then Some ([], xs) else map_option (\<lambda>(a, b). (x # a, b)) (split_once c xs))"

lemma split_once_append: "c \<notin> set xs \<Longrightarrow> split_once c (xs @ c # ys) = Some (xs, ys)"
  by (induction xs) auto

lemma split_once_SomeD: "split_once c s = Some (a, b) \<Longrightarrow> s = a @ c # b \<and> c \<notin> set a"
  by (induction s arbitrary: a) (auto split: if_splits)

section \<open>White space, lines\<close>

definition is_ws :: "char \<Rightarrow> bool" where
  "is_ws c \<longleftrightarrow> of_char c = (32 :: nat) \<or> (9 \<le> (of_char c :: nat) \<and> of_char c \<le> (13 :: nat))"

definition trim_start :: "string \<Rightarrow> string" where
  "trim_start = dropWhile is_ws"

definition trim_end :: "string \<Rightarrow> string" where
  "trim_end s = rev (dropWhile is_ws (rev s))"

definition trim :: "string \<Rightarrow> string" where
  "trim s = trim_end (trim_start s)"

definition split_whitespace :: "string \<Rightarrow> string list" where
  "split_whitespace s = filter (\<lambda>w. w \<noteq> []) (splits is_ws s)"

definition newline :: char where "newline = CHR 0x0A"

definition single_quoted :: "string \<Rightarrow> string" where
  "single_quoted s = CHR 0x27 # s @ [CHR 0x27]"

definition strip_cr :: "string \<Rightarrow> string" where
  "strip_cr l = (case strip_suffix [CHR 0x0D] l of None \<Rightarrow> l | Some l' \<Rightarrow> l')"

text \<open>
  \<open>s.lines()\<close>: the newline-terminated lines, with one carriage return before the newline
  removed, and the rest after the last newline when it is not empty.
\<close>

definition lines :: "string \<Rightarrow> string list" where
  "lines s = (let ps = splits (\<lambda>c. c = newline) s in
     map strip_cr (butlast ps) @ (if last ps = [] then [] else [last ps]))"

lemma dropWhile_id: "(xs \<noteq> [] \<Longrightarrow> \<not> p (hd xs)) \<Longrightarrow> dropWhile p xs = xs"
  by (cases xs) auto

lemma trim_id:
  "s \<noteq> [] \<Longrightarrow> \<not> is_ws (hd s) \<Longrightarrow> \<not> is_ws (last s) \<Longrightarrow> trim s = s"
  by (simp add: trim_def trim_start_def trim_end_def dropWhile_id hd_rev)

lemma trim_Nil [simp]: "trim [] = []"
  by (simp add: trim_def trim_start_def trim_end_def)

lemma trim_idem [simp]: "trim (trim s) = trim s"
proof (cases "trim s = []")
  case True
  then show ?thesis by simp
next
  case False
  let ?a = "dropWhile is_ws s"
  have ne: "dropWhile is_ws (rev ?a) \<noteq> []"
    using False by (simp add: trim_def trim_start_def trim_end_def)
  then have "\<not> is_ws (hd (dropWhile is_ws (rev ?a)))"
    by (rule hd_dropWhile)
  then have last: "\<not> is_ws (last (trim s))"
    using ne by (simp add: trim_def trim_start_def trim_end_def last_rev)
  obtain u where u: "?a = trim s @ u"
    unfolding trim_def trim_start_def trim_end_def
    by (metis rev_append rev_rev_ident takeWhile_dropWhile_id)
  have "?a \<noteq> []" using u False by simp
  then have "\<not> is_ws (hd ?a)" by (rule hd_dropWhile)
  then have "\<not> is_ws (hd (trim s))" using u False by simp
  with False last show ?thesis by (simp add: trim_id)
qed

section \<open>Decimal and hexadecimal numbers\<close>

definition digit_char :: "nat \<Rightarrow> char" where
  "digit_char d = char_of (48 + d)"

fun show_nat :: "nat \<Rightarrow> string" where
  "show_nat n = (if n < 10 then [digit_char n] else show_nat (n div 10) @ [digit_char (n mod 10)])"

declare show_nat.simps [simp del]

definition show_word :: "'a::len word \<Rightarrow> string" where
  "show_word w = show_nat (unat w)"

definition show_int :: "int \<Rightarrow> string" where
  "show_int i = (if i < 0 then CHR ''-'' # show_nat (nat (- i)) else show_nat (nat i))"

text \<open>The value of a digit in base 10 or 16, as \<open>char::to_digit\<close>.\<close>

definition digit_val :: "nat \<Rightarrow> char \<Rightarrow> nat option" where
  "digit_val radix c = (let n = of_char c :: nat;
     v = (if 48 \<le> n \<and> n \<le> 57 then n - 48
          else if 97 \<le> n \<and> n \<le> 122 then n - 87
          else if 65 \<le> n \<and> n \<le> 90 then n - 55 else 36)
     in if v < radix then Some v else None)"

fun digits_val :: "nat \<Rightarrow> nat \<Rightarrow> string \<Rightarrow> nat option" where
  "digits_val radix acc [] = Some acc"
| "digits_val radix acc (c # cs) =
     (case digit_val radix c of None \<Rightarrow> None | Some d \<Rightarrow> digits_val radix (acc * radix + d) cs)"

text \<open>
  \<open>uN::from_str_radix\<close>: an optional \<open>+\<close>, at least one digit, and the value must be below
  \<open>bound\<close> (overflow is an error). \<open>parse::<uN>()\<close> is the case of radix 10.
\<close>

definition parse_radix :: "nat \<Rightarrow> nat \<Rightarrow> string \<Rightarrow> nat option" where
  "parse_radix radix bound s =
     (let ds = (case s of c # cs \<Rightarrow> if c = CHR ''+'' then cs else s | [] \<Rightarrow> [])
      in if ds = [] then None
         else case digits_val radix 0 ds of
                None \<Rightarrow> None
              | Some v \<Rightarrow> if v < bound then Some v else None)"

definition parse_u8 :: "string \<Rightarrow> u8 option" where
  "parse_u8 s = map_option of_nat (parse_radix 10 (2 ^ 8) s)"

definition parse_u16 :: "string \<Rightarrow> u16 option" where
  "parse_u16 s = map_option of_nat (parse_radix 10 (2 ^ 16) s)"

definition parse_u32 :: "string \<Rightarrow> u32 option" where
  "parse_u32 s = map_option of_nat (parse_radix 10 (2 ^ 32) s)"

definition parse_u64 :: "string \<Rightarrow> u64 option" where
  "parse_u64 s = map_option of_nat (parse_radix 10 (2 ^ 64) s)"

text \<open>\<open>parse::<i64>()\<close>: an optional sign, and the range of \<open>i64\<close>.\<close>

definition parse_i64 :: "string \<Rightarrow> int option" where
  "parse_i64 s = (case s of
       c # cs \<Rightarrow> if c = CHR ''-''
                 then (case cs of [] \<Rightarrow> None
                       | d # ds \<Rightarrow> if d = CHR ''+'' then None
                                  else map_option (\<lambda>v. - int v) (parse_radix 10 (2 ^ 63 + 1) cs))
                 else map_option int (parse_radix 10 (2 ^ 63) s)
     | [] \<Rightarrow> None)"

lemma of_char_digit_char: "d < 10 \<Longrightarrow> of_char (digit_char d) = 48 + d"
  by (simp add: digit_char_def)

lemma digit_val_digit_char: "d < 10 \<Longrightarrow> digit_val 10 (digit_char d) = Some d"
  by (simp add: digit_val_def of_char_digit_char Let_def)

lemma digits_val_append:
  "digits_val r a (xs @ ys) = (case digits_val r a xs of None \<Rightarrow> None | Some b \<Rightarrow> digits_val r b ys)"
  by (induction xs arbitrary: a) (auto split: option.splits)

lemma digits_val_show_nat: "digits_val 10 0 (show_nat n) = Some n"
proof (induction n rule: show_nat.induct)
  case (1 n)
  show ?case
  proof (cases "n < 10")
    case True
    then show ?thesis by (simp add: show_nat.simps [of n] digit_val_digit_char)
  next
    case False
    with 1 have "digits_val 10 0 (show_nat (n div 10)) = Some (n div 10)" by simp
    with False show ?thesis
      by (simp add: show_nat.simps [of n] digits_val_append digit_val_digit_char)
  qed
qed

lemma show_nat_not_Nil [simp]: "show_nat n \<noteq> []"
  by (subst show_nat.simps) simp

lemma set_show_nat: "c \<in> set (show_nat n) \<Longrightarrow> 48 \<le> (of_char c :: nat) \<and> of_char c \<le> (57 :: nat)"
proof (induction n rule: show_nat.induct)
  case (1 n)
  show ?case
  proof (cases "n < 10")
    case True
    with 1 show ?thesis by (auto simp: show_nat.simps [of n] of_char_digit_char)
  next
    case False
    with "1.prems" have "c \<in> set (show_nat (n div 10)) \<or> c = digit_char (n mod 10)"
      by (subst (asm) show_nat.simps) auto
    moreover have "n mod 10 < 10" by simp
    ultimately show ?thesis
      using "1.IH" [OF False] of_char_digit_char [of "n mod 10"] by fastforce
  qed
qed

lemma show_nat_no_char:
  "(of_char c :: nat) < 48 \<or> 57 < (of_char c :: nat) \<Longrightarrow> c \<notin> set (show_nat n)"
  using set_show_nat by fastforce

lemma show_nat_no_ws: "c \<in> set (show_nat n) \<Longrightarrow> \<not> is_ws c"
  using set_show_nat [of c n] by (auto simp: is_ws_def)

lemma trim_show_nat [simp]: "trim (show_nat n) = show_nat n"
  by (rule trim_id) (simp_all add: show_nat_no_ws [of _ n])

lemma parse_radix_show_nat: "n < b \<Longrightarrow> parse_radix 10 b (show_nat n) = Some n"
proof -
  assume "n < b"
  obtain c cs where s: "show_nat n = c # cs" by (cases "show_nat n") auto
  have "c \<noteq> CHR ''+''" using show_nat_no_char [of "CHR ''+''" n] s by auto
  then show ?thesis
    using \<open>n < b\<close> digits_val_show_nat [of n] by (simp add: parse_radix_def s)
qed

lemma unat_lt_pow: "unat (w :: 'a::len word) < 2 ^ LENGTH('a)"
  by (rule unsigned_less)

lemma parse_u32_show: "parse_u32 (show_word w) = Some w"
  using parse_radix_show_nat [OF unat_lt_pow [of w]]
  by (simp add: parse_u32_def show_word_def)

lemma parse_u64_show: "parse_u64 (show_word w) = Some w"
  using parse_radix_show_nat [OF unat_lt_pow [of w]]
  by (simp add: parse_u64_def show_word_def)

lemma show_nat_inj: "show_nat m = show_nat n \<Longrightarrow> m = n"
  by (metis digits_val_show_nat option.inject)

lemma show_word_inj: "show_word v = show_word w \<longleftrightarrow> v = w"
  by (metis show_nat_inj show_word_def word_unat_eq_iff)

section \<open>Lookup in lists\<close>

lemma find_SomeD: "List.find P xs = Some x \<Longrightarrow> x \<in> set xs \<and> P x"
  by (induction xs) (auto split: if_splits)

lemma find_NoneD: "List.find P xs = None \<Longrightarrow> x \<in> set xs \<Longrightarrow> \<not> P x"
  by (induction xs) (auto split: if_splits)

lemma set_map_filter: "set (List.map_filter f xs) = {y. \<exists>x \<in> set xs. f x = Some y}"
  by (induction xs) (auto simp: map_filter_simps split: option.splits)

lemma sorted_sort_key [simp]: "sorted (map f (sort_key f xs))"
  by simp

lemma hd_sort_key_le: "x \<in> set xs \<Longrightarrow> f (hd (sort_key f xs)) \<le> f x"
proof -
  assume x: "x \<in> set xs"
  then have "x \<in> set (sort_key f xs)" by simp
  then obtain y ys where s: "sort_key f xs = y # ys" by (cases "sort_key f xs") auto
  have "sorted (map f (y # ys))" using s by (metis sorted_sort_key)
  with s \<open>x \<in> set (sort_key f xs)\<close> show ?thesis by auto
qed

lemma last_sort_key_ge: "x \<in> set xs \<Longrightarrow> f x \<le> f (last (sort_key f xs))"
proof -
  assume x: "x \<in> set xs"
  then have "x \<in> set (sort_key f xs)" by simp
  then obtain ys y where s: "sort_key f xs = ys @ [y]"
    by (cases "sort_key f xs" rule: rev_cases) auto
  have "sorted (map f (ys @ [y]))" using s by (metis sorted_sort_key)
  with s \<open>x \<in> set (sort_key f xs)\<close> show ?thesis by (auto simp: sorted_append)
qed

end
