(* ===== verification/Effects.thy ===== *)
theory Effects
  imports Prelude
begin

text \<open>
  How the asynchronous, effectful functions of the sources are modelled.  A function that talks
  to Redis, AWS, the file system or the clock is an interaction program (\<open>prog\<close>): it either
  returns, or issues one command and continues with the reply.  The services themselves are not
  modelled: a program is run either against every possible reply (\<open>emits\<close>, \<open>runs\<close>), or against a
  given service function (\<open>exec\<close>), which is a parameter.  Errors are values of \<open>err\<close>; the \<open>?\<close>
  operator is \<open>attempt\<close>, \<open>.context(..)\<close> is \<open>ctx\<close>.  Log output is not modelled.
\<close>

section \<open>Interaction programs\<close>

datatype ('c, 'r, 'a) prog = Ret 'a | Op 'c "'r \<Rightarrow> ('c, 'r, 'a) prog"

primrec bind :: "('c, 'r, 'a) prog \<Rightarrow> ('a \<Rightarrow> ('c, 'r, 'b) prog) \<Rightarrow> ('c, 'r, 'b) prog" where
  "bind (Ret a) f = f a"
| "bind (Op c k) f = Op c (\<lambda>r. bind (k r) f)"

lemma bind_Ret [simp]: "bind p Ret = p"
  by (induction p) auto

lemma bind_cong [fundef_cong]:
  "p = q \<Longrightarrow> (\<And>x. f x = g x) \<Longrightarrow> bind p f = bind q g"
  by presburger

lemma bind_assoc: "bind (bind p f) g = bind p (\<lambda>a. bind (f a) g)"
  by (induction p) auto

text \<open>\<open>emits P p\<close>: whatever the replies are, every command that \<open>p\<close> issues satisfies \<open>P\<close>.\<close>

primrec emits :: "('c \<Rightarrow> bool) \<Rightarrow> ('c, 'r, 'a) prog \<Rightarrow> bool" where
  "emits P (Ret a) = True"
| "emits P (Op c k) = (P c \<and> (\<forall>r. emits P (k r)))"

text \<open>\<open>returns Q p\<close>: whatever the replies are, the value that \<open>p\<close> returns satisfies \<open>Q\<close>.\<close>

primrec returns :: "('a \<Rightarrow> bool) \<Rightarrow> ('c, 'r, 'a) prog \<Rightarrow> bool" where
  "returns Q (Ret a) = Q a"
| "returns Q (Op c k) = (\<forall>r. returns Q (k r))"

text \<open>\<open>runs p t a\<close>: with the commands and replies of \<open>t\<close>, in this order, \<open>p\<close> returns \<open>a\<close>.\<close>

inductive runs :: "('c, 'r, 'a) prog \<Rightarrow> ('c \<times> 'r) list \<Rightarrow> 'a \<Rightarrow> bool" where
  runs_Ret: "runs (Ret a) [] a"
| runs_Op: "runs (k r) t a \<Longrightarrow> runs (Op c k) ((c, r) # t) a"

inductive_simps runs_Ret_iff [simp]: "runs (Ret a) t b"
inductive_simps runs_Op_iff: "runs (Op c k) t b"

lemma runs_OpE:
  "runs (Op c k) t b \<Longrightarrow> (\<And>r t'. t = (c, r) # t' \<Longrightarrow> runs (k r) t' b \<Longrightarrow> thesis) \<Longrightarrow> thesis"
  by (auto simp: runs_Op_iff)

lemma runs_bind_iff:
  "runs (bind p f) t b \<longleftrightarrow> (\<exists>t1 t2 a. t = t1 @ t2 \<and> runs p t1 a \<and> runs (f a) t2 b)"
proof (induction p arbitrary: t)
  case (Op c k)
  show ?case
    by (auto simp: runs_Op_iff Op.IH Cons_eq_append_conv; metis append_Cons)
qed simp

lemma runs_bindE:
  assumes "runs (bind p f) t b"
  obtains t1 t2 a where "t = t1 @ t2" "runs p t1 a" "runs (f a) t2 b"
  using assms by (auto simp: runs_bind_iff)

text \<open>\<open>exec srv p w\<close>: the run of \<open>p\<close> against the service function \<open>srv\<close> from the state \<open>w\<close>.\<close>

primrec exec :: "('w \<Rightarrow> 'c \<Rightarrow> 'r \<times> 'w) \<Rightarrow> ('c, 'r, 'a) prog \<Rightarrow> 'w \<Rightarrow> 'a \<times> 'w" where
  "exec srv (Ret a) w = (a, w)"
| "exec srv (Op c k) w = (let x = srv w c in exec srv (k (fst x)) (snd x))"

text \<open>\<open>trace srv p w\<close>: the commands and replies of that run.\<close>

primrec trace :: "('w \<Rightarrow> 'c \<Rightarrow> 'r \<times> 'w) \<Rightarrow> ('c, 'r, 'a) prog \<Rightarrow> 'w \<Rightarrow> ('c \<times> 'r) list" where
  "trace srv (Ret a) w = []"
| "trace srv (Op c k) w = (let x = srv w c in (c, fst x) # trace srv (k (fst x)) (snd x))"

lemma exec_bind:
  "exec srv (bind p f) w = (let x = exec srv p w in exec srv (f (fst x)) (snd x))"
  by (induction p arbitrary: w) (auto simp: Let_def)

lemma trace_bind:
  "trace srv (bind p f) w =
     trace srv p w @ trace srv (f (fst (exec srv p w))) (snd (exec srv p w))"
  by (induction p arbitrary: w) (auto simp: Let_def)

lemma runs_trace: "runs p (trace srv p w) (fst (exec srv p w))"
  by (induction p arbitrary: w) (auto simp: Let_def intro: runs.intros)

lemma emits_runs: "runs p t a \<Longrightarrow> emits P p \<Longrightarrow> (c, r) \<in> set t \<Longrightarrow> P c"
  by (induction rule: runs.induct) auto

lemma returns_runs: "runs p t a \<Longrightarrow> returns Q p \<Longrightarrow> Q a"
  by (induction rule: runs.induct) auto

lemma returns_exec: "returns Q p \<Longrightarrow> Q (fst (exec srv p w))"
  using runs_trace returns_runs by fast

lemma emits_bind: "emits P p \<Longrightarrow> returns Q p \<Longrightarrow> (\<And>a. Q a \<Longrightarrow> emits P (f a)) \<Longrightarrow> emits P (bind p f)"
  by (induction p) auto

lemma emits_bindI: "emits P p \<Longrightarrow> (\<And>a. emits P (f a)) \<Longrightarrow> emits P (bind p f)"
  by (induction p) auto

lemma returns_bind: "returns Q p \<Longrightarrow> (\<And>a. Q a \<Longrightarrow> returns R (f a)) \<Longrightarrow> returns R (bind p f)"
  by (induction p) auto

lemma returns_bindI: "(\<And>a. returns R (f a)) \<Longrightarrow> returns R (bind p f)"
  by (induction p) auto

lemma returns_True [simp]: "returns (\<lambda>_. True) p"
  by (induction p) auto

lemma emits_mono: "emits P p \<Longrightarrow> (\<And>c. P c \<Longrightarrow> P' c) \<Longrightarrow> emits P' p"
  by (induction p) auto

lemma returns_mono: "returns P p \<Longrightarrow> (\<And>a. P a \<Longrightarrow> P' a) \<Longrightarrow> returns P' p"
  by (induction p) auto

text \<open>
  Several programs at once: \<open>turn srv i\<close> lets the \<open>i\<close>-th program issue its next command, and a
  schedule is a list of turns.  A program that has returned does nothing on its turn.
\<close>

definition turn ::
    "('w \<Rightarrow> 'c \<Rightarrow> 'r \<times> 'w) \<Rightarrow> nat \<Rightarrow> ('c, 'r, 'a) prog list \<times> 'w \<Rightarrow> ('c, 'r, 'a) prog list \<times> 'w" where
  "turn srv i s = (case s of (ps, w) \<Rightarrow>
     if i < length ps
     then (case ps ! i of
             Ret a \<Rightarrow> (ps, w)
           | Op c k \<Rightarrow> (let x = srv w c in (ps[i := k (fst x)], snd x)))
     else (ps, w))"

fun interleave ::
    "('w \<Rightarrow> 'c \<Rightarrow> 'r \<times> 'w) \<Rightarrow> nat list \<Rightarrow> ('c, 'r, 'a) prog list \<times> 'w \<Rightarrow> ('c, 'r, 'a) prog list \<times> 'w" where
  "interleave srv [] s = s"
| "interleave srv (i # is) s = interleave srv is (turn srv i s)"

section \<open>Errors\<close>

text \<open>
  The faults a service call can answer with.  \<open>TypeMismatch\<close> is the answer whose type is not the
  one the caller asked for, which the client libraries report as an error too.
\<close>

datatype fault = IoError | ConnectionDropped | TypeMismatch | OtherFault string

text \<open>
  An \<open>anyhow::Error\<close>: a library error or a message, below any number of contexts.  \<open>Panicked\<close> is a
  panic, which ends the process at once (the release profile aborts: nothing is unwound and no
  destructor runs), and \<open>Exit1\<close> is the
  end of the process by \<open>std::process::exit(1)\<close>, which no caller can handle.
\<close>

datatype err =
    RedisFault fault
  | LibFault fault
  | Bail string
  | Context string err
  | Exit1
  | Panicked string

type_synonym 'a result = "err + 'a"

section \<open>Commands and replies\<close>

text \<open>
  The Redis commands the sources use.  A score is the number that is sent, a count of milliseconds
  as a \<open>nat\<close>; Redis keeps it as a double, which is exact up to \<open>2^53\<close>.
  A published message is the JSON value whose text the JSON library sends.
\<close>

datatype json = JNull | JNum nat | JStr string | JObj "(string \<times> json) list"

datatype redis_cmd =
    ZSCORE string string
  | ZADD string nat string
  | ZADD_NX string nat string
  | ZREM string string
  | ZRANGEBYSCORE string nat   \<comment> \<open>from \<open>-inf\<close> up to the given score\<close>
  | ZPOPMIN string
  | ZRANGE string              \<comment> \<open>all members, with scores\<close>
  | ZCARD string
  | GET string
  | SET string string
  | DEL string
  | PUBLISH string json
  | HGETALL string

text \<open>The invocations of the four Lua scripts of \<open>aeroslot/src/lua.rs\<close>, with their arguments.\<close>

datatype script =
    InitScript u32 u32
  | ClaimScript u64 string u64
  | RenewScript string string u64 u64
  | ReleaseScript string string u64

text \<open>
  All commands: Redis, Lua scripts run by Redis, the signed AWS Query API call \<open>aws_query(host, service, region, params)\<close>,
  directory and file access, \<open>ip addr show\<close>, the instance metadata service, the two clocks
  (\<open>now_ms()\<close> and \<open>Instant::now()\<close>), sleeping and waiting.
\<close>

datatype cmd =
    Redis redis_cmd
  | EvalScript script
  | RedisConnect
  | Subscribe string
  | RegisterSigterm
  | AwsQuery string string string "(string \<times> string) list"
  | ReadDir string
  | ReadFile string
  | WriteFile string string
  | MakeDir string
  | SetMode string nat
  | IpAddrShow
  | ImdsToken
  | ImdsPath string string
  | FetchCreds
  | HttpPost string "(string \<times> string) list" string   \<comment> \<open>url, headers, body\<close>
  | HttpGet string
  | NowMs
  | NowInstant
  | Sleep nat                  \<comment> \<open>milliseconds\<close>
  | SleepOrTerm nat            \<comment> \<open>wait for the next tick (seconds) or SIGTERM\<close>
  | Notify
  | Print string               \<comment> \<open>a line on standard output that callers read\<close>

datatype reply =
    Failed fault
  | Done
  | Flag bool
  | Count int
  | Text string
  | Http nat string            \<comment> \<open>status code and body\<close>
  | Bulk "string option"
  | Score "nat option"
  | Members "string list"
  | Scored "(string \<times> nat) list"
  | Hash "(string \<times> string) list"
  | Entries "(fault + string) list"  \<comment> \<open>directory entries, each of which can fail to be read\<close>
  | Millis u64
  | Nanos nat

type_synonym 'a io = "(cmd, reply, 'a) prog"
type_synonym 'a rio = "(err + 'a) io"

section \<open>The result monad over programs\<close>

text \<open>\<open>p?\<close>: an error ends the function with that error.\<close>

definition attempt ::
    "('c, 'r, 'a result) prog \<Rightarrow> ('a \<Rightarrow> ('c, 'r, 'b result) prog) \<Rightarrow> ('c, 'r, 'b result) prog" where
  "attempt p f = bind p (\<lambda>x. case x of Inl e \<Rightarrow> Ret (Inl e) | Inr a \<Rightarrow> f a)"

definition with_ctx :: "string \<Rightarrow> 'a result \<Rightarrow> 'a result" where
  "with_ctx m x = (case x of Inl e \<Rightarrow> Inl (Context m e) | Inr a \<Rightarrow> Inr a)"

definition ctx :: "string \<Rightarrow> ('c, 'r, 'a result) prog \<Rightarrow> ('c, 'r, 'a result) prog" where
  "ctx m p = bind p (\<lambda>x. Ret (with_ctx m x))"

lemma attempt_cong [fundef_cong]:
  "p = q \<Longrightarrow> (\<And>x. f x = g x) \<Longrightarrow> attempt p f = attempt q g"
  by presburger

text \<open>One command whose reply is decoded to a result.\<close>

definition call :: "'c \<Rightarrow> ('r \<Rightarrow> 'a result) \<Rightarrow> ('c, 'r, 'a result) prog" where
  "call c d = Op c (\<lambda>r. Ret (d r))"

lemma emits_call [simp]: "emits P (call c d) = P c"
  by (simp add: call_def)

lemma returns_call [simp]: "returns Q (call c d) = (\<forall>r. Q (d r))"
  by (simp add: call_def)

lemma exec_call [simp]: "exec srv (call c d) w = (d (fst (srv w c)), snd (srv w c))"
  by (simp add: call_def Let_def)

lemma runs_call: "runs (call c d) t a \<longleftrightarrow> (\<exists>r. t = [(c, r)] \<and> a = d r)"
  by (auto simp: call_def runs_Op_iff)

lemma emits_ctx [simp]: "emits P (ctx m p) = emits P p"
  unfolding ctx_def by (induction p) auto

lemma returns_ctx: "returns Q (ctx m p) = returns (\<lambda>x. Q (with_ctx m x)) p"
  unfolding ctx_def by (induction p) auto

lemma exec_ctx [simp]: "exec srv (ctx m p) w = apfst (with_ctx m) (exec srv p w)"
  by (simp add: ctx_def exec_bind Let_def apfst_def map_prod_def split_beta)

lemma runs_ctx: "runs (ctx m p) t a \<longleftrightarrow> (\<exists>x. runs p t x \<and> a = with_ctx m x)"
  by (auto simp: ctx_def runs_bind_iff)

lemma with_ctx_simps [simp]:
  "with_ctx m (Inl e) = Inl (Context m e)" "with_ctx m (Inr a) = Inr a"
  "(with_ctx m x = Inr a) = (x = Inr a)" "(Inr a = with_ctx m x) = (x = Inr a)"
  by (auto simp: with_ctx_def split: sum.splits)

lemma emits_attempt:
  "emits P p \<Longrightarrow> returns Q p \<Longrightarrow> (\<And>a. Q (Inr a) \<Longrightarrow> emits P (f a)) \<Longrightarrow> emits P (attempt p f)"
  unfolding attempt_def by (rule emits_bind [where Q = Q]) (auto split: sum.splits)

lemma emits_attemptI: "emits P p \<Longrightarrow> (\<And>a. emits P (f a)) \<Longrightarrow> emits P (attempt p f)"
  unfolding attempt_def by (rule emits_bindI) (auto split: sum.splits)

lemma returns_attempt:
  "returns (\<lambda>x. case x of Inl e \<Rightarrow> R (Inl e) | Inr a \<Rightarrow> returns R (f a)) p \<Longrightarrow> returns R (attempt p f)"
  unfolding attempt_def by (rule returns_bind) (auto split: sum.splits)

lemma exec_attempt:
  "exec srv (attempt p f) w =
     (case exec srv p w of (Inl e, w') \<Rightarrow> (Inl e, w') | (Inr a, w') \<Rightarrow> exec srv (f a) w')"
  by (simp add: attempt_def exec_bind Let_def split_beta split: sum.splits)

lemma trace_attempt:
  "trace srv (attempt p f) w =
     trace srv p w @ (case exec srv p w of (Inl e, w') \<Rightarrow> [] | (Inr a, w') \<Rightarrow> trace srv (f a) w')"
  by (simp add: attempt_def trace_bind split_beta split: sum.splits)

lemma trace_call [simp]: "trace srv (call c d) w = [(c, fst (srv w c))]"
  by (simp add: call_def Let_def)

lemma trace_ctx [simp]: "trace srv (ctx m p) w = trace srv p w"
  by (simp add: ctx_def trace_bind)

lemma exec_attempt_Inr:
  "exec srv (attempt p f) w = (Inr b, w') \<longleftrightarrow>
     (\<exists>a w1. exec srv p w = (Inr a, w1) \<and> exec srv (f a) w1 = (Inr b, w'))"
  by (cases "exec srv p w") (auto simp: exec_attempt split: sum.splits)

lemma exec_ctx_Inr: "exec srv (ctx m p) w = (Inr a, w') \<longleftrightarrow> exec srv p w = (Inr a, w')"
  by (cases "exec srv p w") simp

lemma runs_attempt_iff:
  "runs (attempt p f) t b \<longleftrightarrow>
     (\<exists>e. runs p t (Inl e) \<and> b = Inl e) \<or>
     (\<exists>t1 t2 a. t = t1 @ t2 \<and> runs p t1 (Inr a) \<and> runs (f a) t2 b)"
  by (auto simp: attempt_def runs_bind_iff split_sum_ex)

lemma runs_attemptE:
  assumes "runs (attempt p f) t b"
  obtains (err) e where "runs p t (Inl e)" "b = Inl e"
  | (ok) t1 t2 a where "t = t1 @ t2" "runs p t1 (Inr a)" "runs (f a) t2 b"
  using assms by (auto simp: runs_attempt_iff)

text \<open>The question mark operator over a program that may run out of fuel, and the embedding.\<close>

definition fuelled ::
    "('c, 'r, 'a result option) prog \<Rightarrow> ('a \<Rightarrow> ('c, 'r, 'b result option) prog) \<Rightarrow>
     ('c, 'r, 'b result option) prog" where
  "fuelled p f = bind p (\<lambda>x. case x of
     None \<Rightarrow> Ret None | Some (Inl e) \<Rightarrow> Ret (Some (Inl e)) | Some (Inr a) \<Rightarrow> f a)"

definition ended :: "('c, 'r, 'a result) prog \<Rightarrow> ('c, 'r, 'a result option) prog" where
  "ended p = bind p (\<lambda>x. Ret (Some x))"

lemma runs_ended: "runs (ended p) t x \<longleftrightarrow> (\<exists>y. runs p t y \<and> x = Some y)"
  by (auto simp: ended_def runs_bind_iff)

lemma runs_fuelled_iff:
  "runs (fuelled p f) t x \<longleftrightarrow>
     (runs p t None \<and> x = None) \<or> (\<exists>e. runs p t (Some (Inl e)) \<and> x = Some (Inl e)) \<or>
     (\<exists>t1 t2 a. t = t1 @ t2 \<and> runs p t1 (Some (Inr a)) \<and> runs (f a) t2 x)"
  by (auto simp: fuelled_def runs_bind_iff split_option_ex split_sum_ex)

lemma emits_ended [simp]: "emits P (ended p) = emits P p"
  unfolding ended_def by (induction p) auto

lemma emits_fuelledI: "emits P p \<Longrightarrow> (\<And>a. emits P (f a)) \<Longrightarrow> emits P (fuelled p f)"
  unfolding fuelled_def by (rule emits_bindI) (auto split: option.splits sum.splits)

lemma runs_fuelledE:
  assumes "runs (fuelled p f) t x"
  obtains (starved) "runs p t None" "x = None"
  | (err) e where "runs p t (Some (Inl e))" "x = Some (Inl e)"
  | (ok) t1 t2 a where "t = t1 @ t2" "runs p t1 (Some (Inr a))" "runs (f a) t2 x"
  using assms unfolding runs_fuelled_iff by blast

section \<open>Loops over lists\<close>

text \<open>\<open>for x in xs { body }\<close> with a state and no early exit.\<close>

fun for_each :: "('a \<Rightarrow> 's \<Rightarrow> ('c, 'r, 's) prog) \<Rightarrow> 'a list \<Rightarrow> 's \<Rightarrow> ('c, 'r, 's) prog" where
  "for_each body [] s = Ret s"
| "for_each body (x # xs) s = bind (body x s) (\<lambda>s'. for_each body xs s')"

text \<open>The same with a body that can leave the function with an error.\<close>

fun for_try ::
    "('a \<Rightarrow> 's \<Rightarrow> ('c, 'r, 's result) prog) \<Rightarrow> 'a list \<Rightarrow> 's \<Rightarrow> ('c, 'r, 's result) prog" where
  "for_try body [] s = Ret (Inr s)"
| "for_try body (x # xs) s = attempt (body x s) (\<lambda>s'. for_try body xs s')"

text \<open>\<open>while let Some(entry) = dir.next_entry().await?\<close> over the entries of a directory.\<close>

definition next_entry :: "fault + string \<Rightarrow> string rio" where
  "next_entry e = Ret (case e of Inl f \<Rightarrow> Inl (LibFault f) | Inr n \<Rightarrow> Inr n)"

definition for_dir :: "(string \<Rightarrow> 's \<Rightarrow> 's rio) \<Rightarrow> (fault + string) list \<Rightarrow> 's \<Rightarrow> 's rio" where
  "for_dir body es s = for_try (\<lambda>e s. attempt (next_entry e) (\<lambda>n. body n s)) es s"

text \<open>\<open>xs.filter(test)\<close> with a test that has effects.\<close>

fun filter_io :: "('a \<Rightarrow> bool io) \<Rightarrow> 'a list \<Rightarrow> 'a list io" where
  "filter_io t [] = Ret []"
| "filter_io t (x # xs) = bind (t x) (\<lambda>b. bind (filter_io t xs) (\<lambda>ys. Ret (if b then x # ys else ys)))"

lemma emits_for_each:
  "(\<And>x s. x \<in> set xs \<Longrightarrow> emits P (body x s)) \<Longrightarrow> emits P (for_each body xs s)"
  by (induction xs arbitrary: s) (auto intro!: emits_bindI)

lemma emits_for_try:
  "(\<And>x s. x \<in> set xs \<Longrightarrow> emits P (body x s)) \<Longrightarrow> emits P (for_try body xs s)"
  by (induction xs arbitrary: s) (auto intro!: emits_attemptI)

lemma emits_for_dir: "(\<And>n s. emits P (body n s)) \<Longrightarrow> emits P (for_dir body es s)"
  unfolding for_dir_def by (rule emits_for_try) (auto intro!: emits_attemptI simp: next_entry_def)

text \<open>A command of a loop's run is a command of the run of one of its bodies.\<close>

lemma for_try_runs_in:
  assumes "runs (for_try body xs s) t x" "e \<in> set t"
  shows "\<exists>y \<in> set xs. \<exists>s' t' z. runs (body y s') t' z \<and> e \<in> set t' \<and> set t' \<subseteq> set t"
  using assms
proof (induction xs arbitrary: s t)
  case (Cons y ys)
  from Cons.prems(1) have "runs (attempt (body y s) (\<lambda>s'. for_try body ys s')) t x" by simp
  then show ?case
  proof (cases rule: runs_attemptE)
    case (err e')
    then show ?thesis using Cons.prems(2) by auto
  next
    case (ok t1 t2 s')
    show ?thesis
    proof (cases "e \<in> set t1")
      case True
      with ok show ?thesis by auto
    next
      case False
      then have "e \<in> set t2" using ok(1) Cons.prems(2) by simp
      from Cons.IH [OF ok(3) this] show ?thesis using ok(1) by fastforce
    qed
  qed
qed simp

lemma for_dir_runs_in:
  assumes "runs (for_dir body es s) t x" "e \<in> set t"
  shows "\<exists>n s' t' z. Inr n \<in> set es \<and> runs (body n s') t' z \<and> e \<in> set t' \<and> set t' \<subseteq> set t"
proof -
  obtain y s' t' z where y: "y \<in> set es" "runs (attempt (next_entry y) (\<lambda>n. body n s')) t' z"
      "e \<in> set t'" "set t' \<subseteq> set t"
    using for_try_runs_in [OF assms [unfolded for_dir_def]] by blast
  from y(2) show ?thesis
  proof (cases rule: runs_attemptE)
    case (err e')
    then show ?thesis using y(3) by (auto simp: next_entry_def)
  next
    case (ok t1 t2 n)
    then have "t1 = []" "y = Inr n" by (auto simp: next_entry_def split: sum.splits)
    with ok y show ?thesis by auto
  qed
qed

lemma emits_filter_io: "(\<And>x. x \<in> set xs \<Longrightarrow> emits P (t x)) \<Longrightarrow> emits P (filter_io t xs)"
  by (induction xs) (auto intro!: emits_bindI)

lemma returns_for_each:
  "I s \<Longrightarrow> (\<And>x s. x \<in> set xs \<Longrightarrow> I s \<Longrightarrow> returns I (body x s)) \<Longrightarrow> returns I (for_each body xs s)"
  by (induction xs arbitrary: s) (auto intro!: returns_bind)

lemma filter_io_runs_in:
  "runs (filter_io test xs) t ys \<Longrightarrow> y \<in> set ys \<Longrightarrow>
   y \<in> set xs \<and> (\<exists>t'. runs (test y) t' True \<and> set t' \<subseteq> set t)"
proof (induction xs arbitrary: t ys)
  case (Cons x xs)
  obtain t1 t2 b zs where t: "t = t1 @ t2" "runs (test x) t1 b" "runs (filter_io test xs) t2 zs"
    "ys = (if b then x # zs else zs)"
    using Cons.prems(1) by (auto elim!: runs_bindE)
  show ?case
  proof (cases "b \<and> y = x")
    case True
    then show ?thesis using t by auto
  next
    case False
    then have "y \<in> set zs" using Cons.prems(2) t(4) by (auto split: if_splits)
    from Cons.IH [OF t(3) this] show ?thesis using t(1) by auto
  qed
qed simp

lemma filter_io_decides:
  "runs (filter_io test xs) t ys \<Longrightarrow> x \<in> set xs \<Longrightarrow>
   \<exists>t' b. runs (test x) t' b \<and> set t' \<subseteq> set t \<and> (b \<longrightarrow> x \<in> set ys)"
proof (induction xs arbitrary: t ys)
  case (Cons y xs)
  obtain t1 t2 b zs where t: "t = t1 @ t2" "runs (test y) t1 b" "runs (filter_io test xs) t2 zs"
    "ys = (if b then y # zs else zs)"
    using Cons.prems(1) by (auto elim!: runs_bindE)
  show ?case
  proof (cases "y = x")
    case True
    then show ?thesis using t by auto
  next
    case False
    then have "x \<in> set xs" using Cons.prems(2) by simp
    from Cons.IH [OF t(3) this] t(1,4) show ?thesis by (cases b) auto
  qed
qed simp

lemma returns_filter_io: "returns (\<lambda>ys. set ys \<subseteq> set xs) (filter_io t xs)"
  by (induction xs) (auto intro!: returns_bindI elim!: returns_bind)

lemma returns_filter_io_if:
  "(\<And>x. x \<in> set xs \<Longrightarrow> returns (\<lambda>b. b \<longrightarrow> Q x) (t x)) \<Longrightarrow>
   returns (\<lambda>ys. set ys \<subseteq> {x \<in> set xs. Q x}) (filter_io t xs)"
proof (induction xs)
  case (Cons x xs)
  have "returns (\<lambda>b. b \<longrightarrow> Q x) (t x)" by (rule Cons.prems) simp
  moreover have "returns (\<lambda>ys. set ys \<subseteq> {x \<in> set xs. Q x}) (filter_io t xs)"
    by (rule Cons.IH) (simp add: Cons.prems)
  ultimately show ?case
    by (auto intro!: returns_bind [where Q = "\<lambda>b. b \<longrightarrow> Q x"]
        returns_bind [where Q = "\<lambda>ys. set ys \<subseteq> {x \<in> set xs. Q x}"])
qed simp

section \<open>Decoding replies\<close>

definition bad :: "reply \<Rightarrow> (fault \<Rightarrow> err) \<Rightarrow> 'a result" where
  "bad r mk = Inl (mk (case r of Failed f \<Rightarrow> f | _ \<Rightarrow> TypeMismatch))"

definition as_unit :: "(fault \<Rightarrow> err) \<Rightarrow> reply \<Rightarrow> unit result" where
  "as_unit mk r = (case r of Failed f \<Rightarrow> Inl (mk f) | _ \<Rightarrow> Inr ())"

definition as_text :: "(fault \<Rightarrow> err) \<Rightarrow> reply \<Rightarrow> string result" where
  "as_text mk r = (case r of Text s \<Rightarrow> Inr s | _ \<Rightarrow> bad r mk)"

definition as_bulk :: "reply \<Rightarrow> string option result" where
  "as_bulk r = (case r of Bulk b \<Rightarrow> Inr b | _ \<Rightarrow> bad r RedisFault)"

definition as_score :: "reply \<Rightarrow> nat option result" where
  "as_score r = (case r of Score s \<Rightarrow> Inr s | _ \<Rightarrow> bad r RedisFault)"

definition as_count :: "reply \<Rightarrow> int result" where
  "as_count r = (case r of Count n \<Rightarrow> Inr n | _ \<Rightarrow> bad r RedisFault)"

definition as_members :: "reply \<Rightarrow> string list result" where
  "as_members r = (case r of Members xs \<Rightarrow> Inr xs | _ \<Rightarrow> bad r RedisFault)"

definition as_scored :: "reply \<Rightarrow> (string \<times> nat) list result" where
  "as_scored r = (case r of Scored xs \<Rightarrow> Inr xs | _ \<Rightarrow> bad r RedisFault)"

definition as_hash :: "reply \<Rightarrow> (string \<times> string) list result" where
  "as_hash r = (case r of Hash xs \<Rightarrow> Inr xs | _ \<Rightarrow> bad r RedisFault)"

definition as_entries :: "reply \<Rightarrow> (fault + string) list result" where
  "as_entries r = (case r of Entries xs \<Rightarrow> Inr xs | _ \<Rightarrow> bad r LibFault)"

text \<open>The clocks always answer; any other reply is read as 0.\<close>

definition as_millis :: "reply \<Rightarrow> u64" where
  "as_millis r = (case r of Millis n \<Rightarrow> n | _ \<Rightarrow> 0)"

definition as_nanos :: "reply \<Rightarrow> nat" where
  "as_nanos r = (case r of Nanos n \<Rightarrow> n | _ \<Rightarrow> 0)"

definition now_ms :: "u64 io" where
  "now_ms = Op NowMs (\<lambda>r. Ret (as_millis r))"

definition instant_now :: "nat io" where
  "instant_now = Op NowInstant (\<lambda>r. Ret (as_nanos r))"

lemma emits_clocks [simp]: "emits P now_ms = P NowMs" "emits P instant_now = P NowInstant"
  by (auto simp: now_ms_def instant_now_def)

lemmas decode_defs = as_unit_def as_text_def as_bulk_def as_score_def as_count_def as_members_def
  as_scored_def as_hash_def as_entries_def bad_def

lemma decode_Inr:
  "(as_unit mk r = Inr u) = (\<forall>f. r \<noteq> Failed f)"
  "(as_text mk r = Inr s) = (r = Text s)"
  "(as_bulk r = Inr b) = (r = Bulk b)"
  "(as_score r = Inr sc) = (r = Score sc)"
  "(as_count r = Inr n) = (r = Count n)"
  "(as_members r = Inr ms) = (r = Members ms)"
  "(as_scored r = Inr xs) = (r = Scored xs)"
  "(as_hash r = Inr h) = (r = Hash h)"
  "(as_entries r = Inr es) = (r = Entries es)"
  by (cases r; auto simp: decode_defs)+

definition redis_unit :: "redis_cmd \<Rightarrow> unit rio" where
  "redis_unit c = call (Redis c) (as_unit RedisFault)"

lemma emits_redis_unit [simp]: "emits P (redis_unit c) = P (Redis c)"
  by (simp add: redis_unit_def)

text \<open>
  The commands that change something outside the process, and the predicate that a program only
  observes.
\<close>

fun mutates_redis :: "redis_cmd \<Rightarrow> bool" where
  "mutates_redis (ZADD k s m) = True"
| "mutates_redis (ZADD_NX k s m) = True"
| "mutates_redis (ZREM k m) = True"
| "mutates_redis (ZPOPMIN k) = True"
| "mutates_redis (SET k v) = True"
| "mutates_redis (DEL k) = True"
| "mutates_redis (PUBLISH c m) = True"
| "mutates_redis _ = False"

text \<open>
  An AWS call changes nothing exactly when its action only describes: all actions the sources
  issue whose name does not start with \<open>Describe\<close> change the account.
\<close>

definition aws_action :: "(string \<times> string) list \<Rightarrow> string" where
  "aws_action ps = (case map_of ps ''Action'' of None \<Rightarrow> [] | Some a \<Rightarrow> a)"

fun mutates :: "cmd \<Rightarrow> bool" where
  "mutates (Redis c) = mutates_redis c"
| "mutates (AwsQuery h s r ps) = (\<not> starts_with (aws_action ps) ''Describe'')"
| "mutates (EvalScript sc) = True"
| "mutates (WriteFile p c) = True"
| "mutates (MakeDir d) = True"
| "mutates (SetMode p m) = True"
| "mutates (HttpPost u hs b) = True"
| "mutates _ = False"

end
