(* ===== verification/Redis_Pool.thy ===== *)
theory Redis_Pool
  imports Effects
begin

text \<open>
  \<open>aerocore/src/redis_pool/mod.rs\<close>: the key schema of the slot pool and the choice of the Redis
  client; and the interface to the Redis service.  Redis is not part of the sources: a service
  function \<open>srv\<close> is a parameter, and the locale \<open>redis_service\<close> states what the sources rely on,
  the documented behaviour of the commands on the sorted sets and strings they name.  A command
  that answers with an error may or may not have been carried out.
\<close>

section \<open>Key schema\<close>

definition KEY_AVAILABLE :: string where "KEY_AVAILABLE = ''slots:available''"
definition KEY_LEASES :: string where "KEY_LEASES = ''slots:leases''"
definition KEY_BACKEND_WEIGHT_PREFIX :: string where "KEY_BACKEND_WEIGHT_PREFIX = ''backend:weight:''"
definition KEY_BACKEND_WEIGHTS_TS :: string where "KEY_BACKEND_WEIGHTS_TS = ''backend:weights:ts''"

definition key_owner :: "string \<Rightarrow> string" where
  "key_owner slot = ''slot:owner:'' @ slot"

lemma key_owner_inj [simp]: "key_owner a = key_owner b \<longleftrightarrow> a = b"
  by (simp add: key_owner_def)

lemma keys_distinct [simp]: "KEY_AVAILABLE \<noteq> KEY_LEASES" "KEY_LEASES \<noteq> KEY_AVAILABLE"
  by (simp_all add: KEY_AVAILABLE_def KEY_LEASES_def)

section \<open>The client\<close>

text \<open>
  The constructor of the client library that is called: with a URL, or with a URL and the root
  certificate.
\<close>

datatype redis_client = ClientOpen string | BuildWithTls string string

definition build_redis_client ::
    "string \<Rightarrow> bool \<Rightarrow> bool \<Rightarrow> string option \<Rightarrow> redis_client rio" where
  "build_redis_client redis_url tls tls_insecure tls_ca_cert =
     (let use_tls = tls \<or> tls_insecure \<or> tls_ca_cert \<noteq> None \<or> starts_with redis_url ''rediss://''
      in if \<not> use_tls then Ret (Inr (ClientOpen redis_url))
         else
           let url = (case strip_prefix ''redis://'' redis_url of
                        Some rest \<Rightarrow> ''rediss://'' @ rest | None \<Rightarrow> redis_url);
               url = (if tls_insecure \<and> \<not> contains url ''#insecure'' then url @ ''#insecure'' else url)
           in case tls_ca_cert of
                None \<Rightarrow> Ret (Inr (ClientOpen url))
              | Some ca_path \<Rightarrow>
                  attempt (ctx (''Cannot read CA cert: '' @ ca_path)
                    (call (ReadFile ca_path) (as_text LibFault)))
                  (\<lambda>ca_pem. Ret (Inr (BuildWithTls url ca_pem))))"

fun client_url :: "redis_client \<Rightarrow> string" where
  "client_url (ClientOpen u) = u"
| "client_url (BuildWithTls u p) = u"

section \<open>What the sources rely on of Redis\<close>

record rview =
  zsets :: "string \<Rightarrow> string \<Rightarrow> nat option"
  strs :: "string \<Rightarrow> string option"

text \<open>
  The entries of a sorted set in the order of Redis: by score, and among equal scores by the bytes
  of the member.
\<close>

datatype zentry = Zentry nat string

instantiation zentry :: linorder
begin

fun less_eq_zentry :: "zentry \<Rightarrow> zentry \<Rightarrow> bool" where
  "less_eq_zentry (Zentry s m) (Zentry s' m') \<longleftrightarrow> s < s' \<or> s = s' \<and> m \<le> m'"

fun less_zentry :: "zentry \<Rightarrow> zentry \<Rightarrow> bool" where
  "less_zentry (Zentry s m) (Zentry s' m') \<longleftrightarrow> s < s' \<or> s = s' \<and> m < m'"

instance
proof
  fix x y z :: zentry
  show "x < y \<longleftrightarrow> x \<le> y \<and> \<not> y \<le> x" by (cases x; cases y) auto
  show "x \<le> x" by (cases x) simp
  show "x \<le> y \<Longrightarrow> y \<le> z \<Longrightarrow> x \<le> z" by (cases x; cases y; cases z) auto
  show "x \<le> y \<Longrightarrow> y \<le> x \<Longrightarrow> x = y" by (cases x; cases y) auto
  show "x \<le> y \<or> y \<le> x" by (cases x; cases y) auto
qed

end

definition zrank :: "string \<times> nat \<Rightarrow> zentry" where
  "zrank x = Zentry (snd x) (fst x)"

text \<open>The first entry.\<close>

definition is_min :: "(string \<Rightarrow> nat option) \<Rightarrow> string \<Rightarrow> nat \<Rightarrow> bool" where
  "is_min z m s \<longleftrightarrow> z m = Some s \<and> (\<forall>m' s'. z m' = Some s' \<longrightarrow> Zentry s m \<le> Zentry s' m')"

definition zput :: "string \<Rightarrow> string \<Rightarrow> nat \<Rightarrow> rview \<Rightarrow> rview" where
  "zput k m s v = v\<lparr>zsets := (zsets v)(k := (zsets v k)(m \<mapsto> s))\<rparr>"

definition zdrop :: "string \<Rightarrow> string \<Rightarrow> rview \<Rightarrow> rview" where
  "zdrop k m v = v\<lparr>zsets := (zsets v)(k := (zsets v k)(m := None))\<rparr>"

text \<open>\<open>redis_ok c v r v'\<close>: carrying out \<open>c\<close> on \<open>v\<close> answers \<open>r\<close> and leaves \<open>v'\<close>.\<close>

inductive redis_ok :: "redis_cmd \<Rightarrow> rview \<Rightarrow> reply \<Rightarrow> rview \<Rightarrow> bool" where
  ok_zscore: "redis_ok (ZSCORE k m) v (Score (zsets v k m)) v"
| ok_zadd: "redis_ok (ZADD k s m) v (Count n) (zput k m s v)"
| ok_zadd_nx_new: "zsets v k m = None \<Longrightarrow> redis_ok (ZADD_NX k s m) v (Count 1) (zput k m s v)"
| ok_zadd_nx_old: "zsets v k m \<noteq> None \<Longrightarrow> redis_ok (ZADD_NX k s m) v (Count 0) v"
| ok_zrem: "redis_ok (ZREM k m) v (Count n) (zdrop k m v)"
| ok_zrangebyscore: "set ms = {m. \<exists>s. zsets v k m = Some s \<and> s \<le> hi} \<Longrightarrow> distinct ms \<Longrightarrow>
    redis_ok (ZRANGEBYSCORE k hi) v (Members ms) v"
| ok_zpopmin_empty: "\<forall>m. zsets v k m = None \<Longrightarrow> redis_ok (ZPOPMIN k) v (Scored []) v"
| ok_zpopmin: "is_min (zsets v k) m s \<Longrightarrow> redis_ok (ZPOPMIN k) v (Scored [(m, s)]) (zdrop k m v)"
| ok_zrange: "set xs = {(m, s). zsets v k m = Some s} \<Longrightarrow> distinct (map fst xs) \<Longrightarrow>
    sorted (map zrank xs) \<Longrightarrow> redis_ok (ZRANGE k) v (Scored xs) v"
| ok_zcard: "redis_ok (ZCARD k) v (Count (int (card (dom (zsets v k))))) v"
| ok_get: "redis_ok (GET k) v (Bulk (strs v k)) v"
| ok_set: "redis_ok (SET k x) v Done (v\<lparr>strs := (strs v)(k \<mapsto> x)\<rparr>)"
| ok_del: "redis_ok (DEL k) v (Count n) (v\<lparr>strs := (strs v)(k := None)\<rparr>)"
| ok_publish: "redis_ok (PUBLISH ch msg) v (Count n) v"
| ok_hgetall: "redis_ok (HGETALL k) v (Hash h) v"

inductive_simps redis_ok_simps:
  "redis_ok (ZSCORE k m) v r v'"
  "redis_ok (ZADD k s m) v r v'"
  "redis_ok (ZADD_NX k s m) v r v'"
  "redis_ok (ZREM k m) v r v'"
  "redis_ok (ZRANGEBYSCORE k hi) v r v'"
  "redis_ok (ZPOPMIN k) v r v'"
  "redis_ok (ZRANGE k) v r v'"
  "redis_ok (ZCARD k) v r v'"
  "redis_ok (GET k) v r v'"
  "redis_ok (SET k x) v r v'"
  "redis_ok (DEL k) v r v'"
  "redis_ok (PUBLISH ch msg) v r v'"
  "redis_ok (HGETALL k) v r v'"

lemma zview_simps [simp]:
  "zsets (zput k m s v) = (zsets v)(k := (zsets v k)(m \<mapsto> s))"
  "zsets (zdrop k m v) = (zsets v)(k := (zsets v k)(m := None))"
  "strs (zput k m s v) = strs v" "strs (zdrop k m v) = strs v"
  by (simp_all add: zput_def zdrop_def)

lemma is_min_unique: "is_min z m s \<Longrightarrow> is_min z m' s' \<Longrightarrow> m = m' \<and> s = s'"
  unfolding is_min_def by (metis antisym zentry.inject)

text \<open>
  A program of Redis commands carried out as one step, as Redis carries out a script: every command
  succeeds and no other client's command comes between.
\<close>

inductive atomically :: "(redis_cmd, reply, 'a) prog \<Rightarrow> rview \<Rightarrow> 'a \<Rightarrow> rview \<Rightarrow> bool" where
  at_Ret: "atomically (Ret a) v a v"
| at_Op: "redis_ok c v r v1 \<Longrightarrow> atomically (k r) v1 a v2 \<Longrightarrow> atomically (Op c k) v a v2"

inductive_simps atomically_simps [simp]:
  "atomically (Ret a) v b v'"
  "atomically (Op c k) v b v'"

lemma atomically_bind:
  "atomically (bind p f) v b v2 \<longleftrightarrow> (\<exists>a v1. atomically p v a v1 \<and> atomically (f a) v1 b v2)"
  by (induction p arbitrary: v) (auto; blast)+

locale redis_service =
  fixes srv :: "'w \<Rightarrow> cmd \<Rightarrow> reply \<times> 'w" and view :: "'w \<Rightarrow> rview"
  assumes carried_out: "srv w (Redis c) = (r, w') \<Longrightarrow> (\<forall>f. r \<noteq> Failed f) \<Longrightarrow>
      redis_ok c (view w) r (view w')"
    and failed: "srv w (Redis c) = (Failed f, w') \<Longrightarrow>
      view w' = view w \<or> (\<exists>r. redis_ok c (view w) r (view w'))"
    and not_redis: "srv w cm = (r, w') \<Longrightarrow> \<forall>rc. cm \<noteq> Redis rc \<Longrightarrow> \<forall>sc. cm \<noteq> EvalScript sc \<Longrightarrow>
      view w' = view w"
begin

lemma exec_redis:
  assumes "exec srv (call (Redis c) d) w = (Inr a, w')" "\<And>f. \<exists>e. d (Failed f) = Inl e"
  obtains r where "d r = Inr a" "redis_ok c (view w) r (view w')"
proof -
  obtain r where r: "srv w (Redis c) = (r, w')" "d r = Inr a"
    using assms(1) by (cases "srv w (Redis c)") auto
  have "\<forall>f. r \<noteq> Failed f" using assms(2) r(2) by (metis Inl_Inr_False)
  then show thesis using that carried_out r by blast
qed

lemma exec_redis_unit:
  "exec srv (redis_unit c) w = (Inr u, w') \<Longrightarrow> \<exists>r. redis_ok c (view w) r (view w')"
  unfolding redis_unit_def by (erule exec_redis) (auto simp: decode_defs)

lemma exec_bulk:
  "exec srv (call (Redis c) as_bulk) w = (Inr b, w') \<Longrightarrow> redis_ok c (view w) (Bulk b) (view w')"
  by (erule exec_redis) (auto simp: decode_Inr, auto simp: decode_defs)

lemma exec_score:
  "exec srv (call (Redis c) as_score) w = (Inr b, w') \<Longrightarrow> redis_ok c (view w) (Score b) (view w')"
  by (erule exec_redis) (auto simp: decode_Inr, auto simp: decode_defs)

lemma exec_count:
  "exec srv (call (Redis c) as_count) w = (Inr b, w') \<Longrightarrow> redis_ok c (view w) (Count b) (view w')"
  by (erule exec_redis) (auto simp: decode_Inr, auto simp: decode_defs)

lemma exec_members:
  "exec srv (call (Redis c) as_members) w = (Inr b, w') \<Longrightarrow> redis_ok c (view w) (Members b) (view w')"
  by (erule exec_redis) (auto simp: decode_Inr, auto simp: decode_defs)

lemma exec_scored:
  "exec srv (call (Redis c) as_scored) w = (Inr b, w') \<Longrightarrow> redis_ok c (view w) (Scored b) (view w')"
  by (erule exec_redis) (auto simp: decode_Inr, auto simp: decode_defs)

lemmas exec_dests = exec_redis_unit exec_bulk exec_score exec_count exec_members exec_scored

text \<open>Whatever the answer, the state afterwards is the old one or the command was carried out.\<close>

lemma any_answer:
  "srv w (Redis c) = (r, w') \<Longrightarrow> view w' = view w \<or> (\<exists>r'. redis_ok c (view w) r' (view w'))"
  by (cases "\<exists>f. r = Failed f") (auto dest: failed carried_out)

end

section \<open>An in-memory service\<close>

text \<open>
  The documented behaviour on association lists, with a list that says which commands fail and
  whether a failing command is carried out first.  It shows that the contract can be met, and the
  concrete runs below use it.
\<close>

datatype fate = Works | Lost | DoneThenLost

record mem =
  clock :: u64
  mz :: "string \<Rightarrow> (string \<times> nat) list"
  ms :: "string \<Rightarrow> string option"
  fates :: "fate list"

definition mem_view :: "mem \<Rightarrow> rview" where
  "mem_view w = \<lparr>zsets = (\<lambda>k. map_of (mz w k)), strs = ms w\<rparr>"

definition alist_put :: "string \<Rightarrow> nat \<Rightarrow> (string \<times> nat) list \<Rightarrow> (string \<times> nat) list" where
  "alist_put m s xs = (m, s) # filter (\<lambda>x. fst x \<noteq> m) xs"

definition alist_drop :: "string \<Rightarrow> (string \<times> nat) list \<Rightarrow> (string \<times> nat) list" where
  "alist_drop m xs = filter (\<lambda>x. fst x \<noteq> m) xs"

fun alist_dedup :: "(string \<times> nat) list \<Rightarrow> (string \<times> nat) list" where
  "alist_dedup [] = []"
| "alist_dedup ((m, s) # xs) = (m, s) # filter (\<lambda>x. fst x \<noteq> m) (alist_dedup xs)"

definition alist_sorted :: "(string \<times> nat) list \<Rightarrow> (string \<times> nat) list" where
  "alist_sorted xs = sort_key zrank (alist_dedup xs)"

fun mem_apply :: "redis_cmd \<Rightarrow> mem \<Rightarrow> reply \<times> mem" where
  "mem_apply (ZSCORE k m) w = (Score (map_of (mz w k) m), w)"
| "mem_apply (ZADD k s m) w = (Count 1, w\<lparr>mz := (mz w)(k := alist_put m s (mz w k))\<rparr>)"
| "mem_apply (ZADD_NX k s m) w =
     (case map_of (mz w k) m of
        None \<Rightarrow> (Count 1, w\<lparr>mz := (mz w)(k := alist_put m s (mz w k))\<rparr>)
      | Some _ \<Rightarrow> (Count 0, w))"
| "mem_apply (ZREM k m) w = (Count 1, w\<lparr>mz := (mz w)(k := alist_drop m (mz w k))\<rparr>)"
| "mem_apply (ZRANGEBYSCORE k hi) w =
     (Members (map fst (filter (\<lambda>x. snd x \<le> hi) (alist_sorted (mz w k)))), w)"
| "mem_apply (ZPOPMIN k) w =
     (case alist_sorted (mz w k) of
        [] \<Rightarrow> (Scored [], w)
      | (m, s) # _ \<Rightarrow> (Scored [(m, s)], w\<lparr>mz := (mz w)(k := alist_drop m (mz w k))\<rparr>))"
| "mem_apply (ZRANGE k) w = (Scored (alist_sorted (mz w k)), w)"
| "mem_apply (ZCARD k) w = (Count (int (length (alist_dedup (mz w k)))), w)"
| "mem_apply (GET k) w = (Bulk (ms w k), w)"
| "mem_apply (SET k x) w = (Done, w\<lparr>ms := (ms w)(k \<mapsto> x)\<rparr>)"
| "mem_apply (DEL k) w = (Count 1, w\<lparr>ms := (ms w)(k := None)\<rparr>)"
| "mem_apply (PUBLISH ch msg) w = (Count 1, w)"
| "mem_apply (HGETALL k) w = (Hash [], w)"

definition next_fate :: "mem \<Rightarrow> fate \<times> mem" where
  "next_fate w = (case fates w of [] \<Rightarrow> (Works, w) | f # fs \<Rightarrow> (f, w\<lparr>fates := fs\<rparr>))"

definition mem_srv :: "mem \<Rightarrow> cmd \<Rightarrow> reply \<times> mem" where
  "mem_srv w c =
     (case c of
        Redis rc \<Rightarrow>
          (let x = next_fate w in
           case fst x of
             Works \<Rightarrow> mem_apply rc (snd x)
           | Lost \<Rightarrow> (Failed IoError, snd x)
           | DoneThenLost \<Rightarrow> (Failed IoError, snd (mem_apply rc (snd x))))
      | NowMs \<Rightarrow> (Millis (clock w), w)
      | RedisConnect \<Rightarrow> (Done, w)
      | RegisterSigterm \<Rightarrow> (Done, w)
      | _ \<Rightarrow> (Failed TypeMismatch, w))"

definition mem_empty :: mem where
  "mem_empty = \<lparr>clock = 0, mz = (\<lambda>_. []), ms = (\<lambda>_. None), fates = []\<rparr>"

lemma map_of_filter_ne:
  "map_of (filter (\<lambda>x. fst x \<noteq> m) xs) = (map_of xs)(m := None)"
  by (induction xs) (auto simp: fun_eq_iff)

lemma map_of_alist_put: "map_of (alist_put m s xs) = (map_of xs)(m \<mapsto> s)"
  by (simp add: alist_put_def map_of_filter_ne fun_eq_iff)

lemma map_of_alist_drop: "map_of (alist_drop m xs) = (map_of xs)(m := None)"
  by (simp add: alist_drop_def map_of_filter_ne)

lemma map_of_alist_dedup [simp]: "map_of (alist_dedup xs) = map_of xs"
  by (induction xs rule: alist_dedup.induct) (auto simp: map_of_filter_ne fun_eq_iff)

lemma distinct_alist_dedup: "distinct (map fst (alist_dedup xs))"
  by (induction xs rule: alist_dedup.induct) (auto simp: distinct_map_filter)

lemma set_alist_dedup: "set (alist_dedup xs) = {(m, s). map_of xs m = Some s}"
proof -
  have "(m, s) \<in> set (alist_dedup xs) \<longleftrightarrow> map_of xs m = Some s" for m s
    using map_of_eq_Some_iff [OF distinct_alist_dedup [of xs], of m s] by simp
  then show ?thesis by auto
qed

lemma alist_sorted_simps [simp]:
  "set (alist_sorted xs) = {(m, s). map_of xs m = Some s}" "sorted (map zrank (alist_sorted xs))"
  "alist_sorted xs = [] \<longleftrightarrow> xs = []"
  using set_alist_dedup [of xs]
  by (simp_all add: alist_sorted_def) (cases xs rule: alist_dedup.cases; simp)+

lemma distinct_alist_sorted: "distinct (map fst (alist_sorted xs))"
  using distinct_alist_dedup [of xs] unfolding alist_sorted_def
  by (metis (no_types, lifting) distinct_map distinct_sort set_sort)

lemma alist_sorted_first:
  assumes "alist_sorted xs = (m, s) # ys"
  shows "is_min (map_of xs) m s"
proof -
  have "(m, s) \<in> set (alist_sorted xs)" using assms by simp
  moreover have "Zentry s m \<le> Zentry s' m'" if "map_of xs m' = Some s'" for m' s'
  proof -
    have "(m', s') \<in> set ((m, s) # ys)" using that unfolding assms [symmetric] by simp
    moreover have "sorted (map zrank ((m, s) # ys))" unfolding assms [symmetric] by simp
    ultimately show ?thesis by (auto simp: zrank_def)
  qed
  ultimately show ?thesis by (simp add: is_min_def)
qed

lemma mem_view_simps [simp]:
  "zsets (mem_view w) = (\<lambda>k. map_of (mz w k))" "strs (mem_view w) = ms w"
  by (simp_all add: mem_view_def)

lemma members_upto:
  "fst ` {x \<in> set (alist_sorted xs). snd x \<le> hi} = {m. \<exists>s. map_of xs m = Some s \<and> s \<le> hi}"
  by force

lemma length_alist_dedup: "length (alist_dedup xs) = card (dom (map_of xs))"
  using distinct_card [OF distinct_alist_dedup [of xs]]
  by (simp add: dom_map_of_conv_image_fst [of "alist_dedup xs", simplified])

lemma mem_apply_ok: "mem_apply c w = (r, w') \<Longrightarrow> redis_ok c (mem_view w) r (mem_view w')"
proof (induction c w rule: mem_apply.induct)
  case (5 k hi w)
  then show ?case
    using distinct_alist_sorted [of "mz w k"] members_upto [of "mz w k" hi]
    by (auto simp: redis_ok_simps distinct_map_filter)
qed (auto simp: redis_ok_simps mem_view_def zput_def zdrop_def map_of_alist_put map_of_alist_drop
    fun_eq_iff distinct_alist_sorted length_alist_dedup dest!: alist_sorted_first
    split: option.splits list.splits)

lemma next_fate_view [simp]: "mem_view (snd (next_fate w)) = mem_view w"
  by (simp add: next_fate_def mem_view_def split: list.splits)

interpretation mem: redis_service mem_srv mem_view
proof
  fix w c r w'
  assume "mem_srv w (Redis c) = (r, w')" "\<forall>f. r \<noteq> Failed f"
  then have "mem_apply c (snd (next_fate w)) = (r, w')"
    by (auto simp: mem_srv_def Let_def split: fate.splits)
  then show "redis_ok c (mem_view w) r (mem_view w')"
    using mem_apply_ok by fastforce
next
  fix w c f w'
  assume "mem_srv w (Redis c) = (Failed f, w')"
  then show "mem_view w' = mem_view w \<or> (\<exists>r. redis_ok c (mem_view w) r (mem_view w'))"
    using mem_apply_ok [of c "snd (next_fate w)"]
    by (auto simp: mem_srv_def Let_def split: fate.splits)
      (metis next_fate_view prod.collapse)+
next
  fix w c r w'
  assume "mem_srv w c = (r, w')" "\<forall>rc. c \<noteq> Redis rc"
  then show "mem_view w' = mem_view w"
    by (auto simp: mem_srv_def split: cmd.splits)
qed

end
