(* ===== verification/Slot_Spec.thy ===== *)
theory Slot_Spec
  imports Redis_Pool
begin

text \<open>
  What the slot pool promises, apart from how it is stored: a slot is free since some time, or
  leased until some time to an owner_at.  \<open>spec_op\<close> is the contract of one operation; the locale
  \<open>slot_pool\<close> is the interface that an implementation offers, and it carries the properties that
  every sequence of operations has.  Both implementations of \<open>aeroslot\<close> are interpreted in it.
\<close>

section \<open>The abstract pool\<close>

record pool =
  free_at :: "string \<Rightarrow> nat option"
  lease_at :: "string \<Rightarrow> nat option"
  owner_at :: "string \<Rightarrow> string option"

definition pool_of :: "rview \<Rightarrow> pool" where
  "pool_of v = \<lparr>free_at = zsets v KEY_AVAILABLE, lease_at = zsets v KEY_LEASES,
                owner_at = (\<lambda>s. strs v (key_owner s))\<rparr>"

lemma pool_of_simps [simp]:
  "free_at (pool_of v) = zsets v KEY_AVAILABLE" "lease_at (pool_of v) = zsets v KEY_LEASES"
  "owner_at (pool_of v) s = strs v (key_owner s)"
  by (simp_all add: pool_of_def)

lemma pool_eqI:
  "(\<And>s. free_at p s = free_at q s) \<Longrightarrow> (\<And>s. lease_at p s = lease_at q s) \<Longrightarrow> (\<And>s. owner_at p s = owner_at q s) \<Longrightarrow>
   p = (q :: pool)"
  by (cases p; cases q) auto

definition expired_slots :: "nat \<Rightarrow> pool \<Rightarrow> string set" where
  "expired_slots now p = {s. \<exists>e. lease_at p s = Some e \<and> e \<le> now}"

text \<open>The slots of \<open>E\<close> go back to the free set, free since \<open>now\<close>.\<close>

definition put_back :: "string set \<Rightarrow> nat \<Rightarrow> pool \<Rightarrow> pool" where
  "put_back E now p =
     \<lparr>free_at = (\<lambda>s. if s \<in> E then Some now else free_at p s),
      lease_at = (\<lambda>s. if s \<in> E then None else lease_at p s),
      owner_at = (\<lambda>s. if s \<in> E then None else owner_at p s)\<rparr>"

definition swept :: "nat \<Rightarrow> pool \<Rightarrow> pool" where
  "swept now p = put_back (expired_slots now p) now p"

definition leased_out :: "string \<Rightarrow> nat \<Rightarrow> string \<Rightarrow> pool \<Rightarrow> pool" where
  "leased_out s e i p =
     \<lparr>free_at = (free_at p)(s := None), lease_at = (lease_at p)(s \<mapsto> e), owner_at = (owner_at p)(s \<mapsto> i)\<rparr>"

definition slot_names :: "u32 \<Rightarrow> u32 \<Rightarrow> string list" where
  "slot_names lo hi = map show_nat [unat lo..<Suc (unat hi)]"

definition filled :: "string set \<Rightarrow> pool \<Rightarrow> pool" where
  "filled S p = p\<lparr>free_at := (\<lambda>s. if s \<in> S \<and> lease_at p s = None \<and> free_at p s = None then Some 0 else free_at p s)\<rparr>"

section \<open>The contract of one operation\<close>

datatype pool_op =
    Init u32 u32
  | Claim u64 u64 string             \<comment> \<open>now, ttl, instance\<close>
  | Renew u64 u64 string u32         \<comment> \<open>now, ttl, instance, slot\<close>
  | Release u64 string u32           \<comment> \<open>now, instance, slot\<close>

datatype pool_res = Added int | Slot "string option" | Accepted bool

text \<open>\<open>expiry now ttl\<close> is the time to which a lease taken at \<open>now\<close> runs.\<close>

inductive spec_op :: "(u64 \<Rightarrow> u64 \<Rightarrow> nat) \<Rightarrow> pool_op \<Rightarrow> pool \<Rightarrow> pool_res \<Rightarrow> pool \<Rightarrow> bool"
  for expiry where
  init: "spec_op expiry (Init lo hi) p (Added n) (filled (set (slot_names lo hi)) p)"
| exhausted: "\<forall>s. free_at (swept (unat now) p) s = None \<Longrightarrow>
    spec_op expiry (Claim now ttl i) p (Slot None) (swept (unat now) p)"
| granted: "is_min (free_at (swept (unat now) p)) s f \<Longrightarrow>
    spec_op expiry (Claim now ttl i) p (Slot (Some s))
      (leased_out s (expiry now ttl) i (swept (unat now) p))"
| renewed: "owner_at p (show_word slot) = Some i \<Longrightarrow>
    spec_op expiry (Renew now ttl i slot) p (Accepted True)
      (p\<lparr>lease_at := (lease_at p)(show_word slot \<mapsto> expiry now ttl)\<rparr>)"
| not_renewed: "owner_at p (show_word slot) \<noteq> Some i \<Longrightarrow>
    spec_op expiry (Renew now ttl i slot) p (Accepted False) p"
| released: "owner_at p (show_word slot) = Some i \<Longrightarrow>
    spec_op expiry (Release now i slot) p (Accepted True) (put_back {show_word slot} (unat now) p)"
| not_released: "owner_at p (show_word slot) \<noteq> Some i \<Longrightarrow>
    spec_op expiry (Release now i slot) p (Accepted False) p"

inductive_cases spec_opE: "spec_op expiry a p r p'"
inductive_cases spec_claimE: "spec_op expiry (Claim now ttl i) p r p'"

text \<open>Every slot is free or leased, never both, and exactly the leased slots have an owner.\<close>

definition pool_ok :: "pool \<Rightarrow> bool" where
  "pool_ok p \<longleftrightarrow> dom (free_at p) \<inter> dom (lease_at p) = {} \<and> dom (owner_at p) = dom (lease_at p)"

definition slots_of :: "pool \<Rightarrow> string set" where
  "slots_of p = dom (free_at p) \<union> dom (lease_at p)"

lemma pool_ok_leased: "pool_ok p \<Longrightarrow> owner_at p s = Some i \<Longrightarrow> \<exists>e. lease_at p s = Some e"
  unfolding pool_ok_def by blast

lemma pool_ok_free: "pool_ok p \<Longrightarrow> free_at p s = Some f \<Longrightarrow> lease_at p s = None"
  unfolding pool_ok_def by blast

lemma pool_ok_put_back: "pool_ok p \<Longrightarrow> pool_ok (put_back E now p)"
  by (force simp: pool_ok_def put_back_def set_eq_iff dom_def split: if_splits)

lemma pool_ok_swept: "pool_ok p \<Longrightarrow> pool_ok (swept now p)"
  by (simp add: swept_def pool_ok_put_back)

lemma pool_ok_leased_out: "pool_ok p \<Longrightarrow> pool_ok (leased_out s e i p)"
  by (force simp: pool_ok_def leased_out_def)

lemma pool_ok_filled: "pool_ok p \<Longrightarrow> pool_ok (filled S p)"
  by (force simp: pool_ok_def filled_def set_eq_iff dom_def split: if_splits)

lemma pool_ok_renewed: "pool_ok p \<Longrightarrow> owner_at p s = Some i \<Longrightarrow> pool_ok (p\<lparr>lease_at := (lease_at p)(s \<mapsto> e)\<rparr>)"
  unfolding pool_ok_def by (auto; blast)

lemma spec_op_pool_ok: "spec_op expiry a p r p' \<Longrightarrow> pool_ok p \<Longrightarrow> pool_ok p'"
  by (induction rule: spec_op.induct)
    (auto simp: pool_ok_filled pool_ok_swept pool_ok_leased_out pool_ok_put_back pool_ok_renewed)

lemma slots_of_swept: "slots_of (swept now p) = slots_of p"
  by (auto simp: slots_of_def swept_def put_back_def expired_slots_def split: if_splits)

fun new_slots :: "pool_op \<Rightarrow> string set" where
  "new_slots (Init lo hi) = set (slot_names lo hi)"
| "new_slots _ = {}"

lemma spec_op_slots:
  "spec_op expiry a p r p' \<Longrightarrow> pool_ok p \<Longrightarrow> slots_of p' = slots_of p \<union> new_slots a"
proof (induction rule: spec_op.induct)
  case (granted now p s f ttl i)
  then have "s \<in> slots_of (swept (unat now) p)"
    by (auto simp: slots_of_def is_min_def)
  then have "slots_of (leased_out s (expiry now ttl) i (swept (unat now) p)) =
      slots_of (swept (unat now) p)"
    by (auto simp: slots_of_def leased_out_def)
  then show ?case by (simp add: slots_of_swept)
qed (auto simp: slots_of_swept, auto simp: slots_of_def filled_def put_back_def pool_ok_def
      split: if_splits)

section \<open>What a claim gives\<close>

lemma swept_live:
  "lease_at p s = Some e \<Longrightarrow> now < e \<Longrightarrow> lease_at (swept now p) s = Some e \<and> owner_at (swept now p) s = owner_at p s
    \<and> free_at (swept now p) s = free_at p s"
  by (auto simp: swept_def put_back_def expired_slots_def)

lemma swept_free_Some:
  "free_at (swept now p) s = Some f \<longleftrightarrow> (if s \<in> expired_slots now p then f = now else free_at p s = Some f)"
  by (auto simp: swept_def put_back_def)

lemma claim_not_live:
  assumes "spec_op expiry (Claim now ttl i) p (Slot (Some s)) p'" "pool_ok p" "lease_at p s = Some e"
  shows "e \<le> unat now"
  using assms(1)
proof (rule spec_claimE; clarsimp)
  fix f
  assume "is_min (free_at (swept (unat now) p)) s f"
  then have "free_at (swept (unat now) p) s = Some f" by (simp add: is_min_def)
  with assms show "e \<le> unat now"
    by (auto simp: swept_free_Some expired_slots_def dest: pool_ok_free split: if_splits)
qed

text \<open>The slot that is given has been free at least as long as every other.\<close>

lemma claim_longest_free:
  assumes "spec_op expiry (Claim now ttl i) p (Slot (Some s)) p'"
    and "free_at p t = Some f" "t \<notin> expired_slots (unat now) p"
  shows "\<exists>f'. free_at (swept (unat now) p) s = Some f' \<and> (f' < f \<or> f' = f \<and> s \<le> t)"
proof -
  have t: "free_at (swept (unat now) p) t = Some f" using assms(2,3) by (simp add: swept_free_Some)
  obtain f' where "is_min (free_at (swept (unat now) p)) s f'"
    using assms(1) by (auto elim: spec_claimE)
  with t show ?thesis by (auto simp: is_min_def)
qed

lemma claim_exhausted_iff:
  assumes "spec_op expiry (Claim now ttl i) p (Slot r) p'"
  shows "r = None \<longleftrightarrow> (\<forall>s. free_at p s = None) \<and> expired_slots (unat now) p = {}"
  using assms
  by (rule spec_claimE) (auto simp: is_min_def swept_def put_back_def split: if_splits)

section \<open>Sequences of operations\<close>

text \<open>\<open>op_run does w t w'\<close>: the operations of \<open>t\<close>, with these results, lead from \<open>w\<close> to \<open>w'\<close>.\<close>

inductive op_run :: "('o \<Rightarrow> 'w \<Rightarrow> 'r \<Rightarrow> 'w \<Rightarrow> bool) \<Rightarrow> 'w \<Rightarrow> ('o \<times> 'r) list \<Rightarrow> 'w \<Rightarrow> bool" for does where
  run_Nil: "op_run does w [] w"
| run_Cons: "does a w r w1 \<Longrightarrow> op_run does w1 t w2 \<Longrightarrow> op_run does w ((a, r) # t) w2"

inductive_simps op_run_simps [simp]:
  "op_run does w [] w'"
  "op_run does w (x # t) w'"

text \<open>The operations that may end a lease of \<open>i\<close> on \<open>s\<close> that runs at least to \<open>e\<close>.\<close>

fun may_end :: "string \<Rightarrow> string \<Rightarrow> nat \<Rightarrow> pool_op \<Rightarrow> bool" where
  "may_end s i e (Claim now ttl j) = (e \<le> unat now)"
| "may_end s i e (Release now j slot) = (j = i \<and> show_word slot = s)"
| "may_end s i e (Renew now ttl j slot) = (j = i \<and> show_word slot = s)"
| "may_end s i e (Init lo hi) = False"

lemma spec_op_keeps_lease:
  assumes "spec_op expiry a p r p'" "pool_ok p" "lease_at p s = Some e" "owner_at p s = Some i"
    and "\<not> may_end s i e a"
  shows "lease_at p' s = Some e \<and> owner_at p' s = Some i"
  using assms
proof (induction rule: spec_op.induct)
  case (exhausted now p ttl j)
  then show ?case by (simp add: swept_live)
next
  case (granted now p t f ttl j)
  then have "s \<noteq> t"
    using claim_not_live [OF spec_op.granted [OF granted.hyps] granted.prems(1), of e] by auto
  with granted show ?case by (simp add: swept_live leased_out_def)
qed (auto simp: filled_def put_back_def)

text \<open>
  The time to which a lease of \<open>i\<close> on \<open>s\<close> runs after these operations, when it runs to \<open>e\<close> before
  them: every renewal by \<open>i\<close> sets it anew; \<open>None\<close> when one of them may end the lease.
\<close>

fun lease_end :: "(u64 \<Rightarrow> u64 \<Rightarrow> nat) \<Rightarrow> string \<Rightarrow> string \<Rightarrow> nat \<Rightarrow> pool_op list \<Rightarrow> nat option" where
  "lease_end expiry s i e [] = Some e"
| "lease_end expiry s i e (Renew now ttl j slot # t) =
     lease_end expiry s i (if j = i \<and> show_word slot = s then expiry now ttl else e) t"
| "lease_end expiry s i e (a # t) = (if may_end s i e a then None else lease_end expiry s i e t)"

lemma lease_end_kept: "\<forall>a\<in>set t. \<not> may_end s i e a \<Longrightarrow> lease_end expiry s i e t = Some e"
  by (induction expiry s i e t rule: lease_end.induct) auto

lemma lease_end_Cons:
  assumes "lease_end expiry s i e (a # t) = Some e'"
  obtains (renews) now ttl slot where "a = Renew now ttl i slot" "show_word slot = s"
      "lease_end expiry s i (expiry now ttl) t = Some e'"
  | (keeps) "\<not> may_end s i e a" "lease_end expiry s i e t = Some e'"
  using assms by (cases a) (auto split: if_splits)

lemma spec_op_renews_lease:
  assumes "spec_op expiry (Renew now ttl i slot) p r p'" "owner_at p (show_word slot) = Some i"
  shows "lease_at p' (show_word slot) = Some (expiry now ttl) \<and> owner_at p' (show_word slot) = Some i"
  using assms by (auto elim: spec_opE)

locale slot_pool =
  fixes abs :: "'w \<Rightarrow> pool"
    and expiry :: "u64 \<Rightarrow> u64 \<Rightarrow> nat"
    and does :: "pool_op \<Rightarrow> 'w \<Rightarrow> pool_res \<Rightarrow> 'w \<Rightarrow> bool"
  assumes refines: "does a w r w' \<Longrightarrow> spec_op expiry a (abs w) r (abs w')"
begin

lemma simulates: "op_run does w t w' \<Longrightarrow> op_run (spec_op expiry) (abs w) t (abs w')"
  by (induction rule: op_run.induct) (auto dest: refines)

lemma keeps_ok: "op_run does w t w' \<Longrightarrow> pool_ok (abs w) \<Longrightarrow> pool_ok (abs w')"
  by (induction rule: op_run.induct) (auto dest: refines spec_op_pool_ok)

lemma slots_conserved:
  "op_run does w t w' \<Longrightarrow> pool_ok (abs w) \<Longrightarrow>
   slots_of (abs w') = slots_of (abs w) \<union> (\<Union>a\<in>fst ` set t. new_slots a)"
proof (induction rule: op_run.induct)
  case (run_Cons a w r w1 t w2)
  have st: "spec_op expiry a (abs w) r (abs w1)" by (rule refines) fact
  have "slots_of (abs w1) = slots_of (abs w) \<union> new_slots a"
    using spec_op_slots [OF st run_Cons.prems] by simp
  then show ?case using run_Cons.IH [OF spec_op_pool_ok [OF st run_Cons.prems]] by auto
qed simp

text \<open>A lease that its owner renews in time stays his, however long.\<close>

lemma lease_followed:
  assumes "op_run does w t w'" "pool_ok (abs w)"
    and "lease_at (abs w) s = Some e" "owner_at (abs w) s = Some i"
    and "lease_end expiry s i e (map fst t) = Some e'"
  shows "lease_at (abs w') s = Some e' \<and> owner_at (abs w') s = Some i"
  using assms
proof (induction arbitrary: e rule: op_run.induct)
  case (run_Cons a w r w1 t w2)
  have st: "spec_op expiry a (abs w) r (abs w1)" by (rule refines) fact
  have ok: "pool_ok (abs w1)" using st run_Cons.prems(1) by (rule spec_op_pool_ok)
  from run_Cons.prems(4) have "lease_end expiry s i e (a # map fst t) = Some e'" by simp
  then show ?case
  proof (cases rule: lease_end_Cons)
    case (renews now ttl slot)
    then show ?thesis
      using run_Cons.IH [OF ok _ _ renews(3)] spec_op_renews_lease [of expiry now ttl i slot] st run_Cons.prems(3)
      by simp
  next
    case keeps
    then show ?thesis
      using run_Cons.IH [OF ok _ _ keeps(2)] spec_op_keeps_lease [OF st run_Cons.prems(1-3)] by simp
  qed
qed simp

text \<open>
  After a claim has given \<open>s\<close> to \<open>i\<close>, no other claim before the end of that lease, as \<open>i\<close> has
  renewed it, is given \<open>s\<close>, as long as \<open>i\<close> does not release it.
\<close>

lemma exclusive:
  assumes "pool_ok (abs w)" "does (Claim now ttl i) w (Slot (Some s)) w1"
    and "op_run does w1 t w2" "lease_end expiry s i (expiry now ttl) (map fst t) = Some e"
    and "does (Claim now' ttl' j) w2 (Slot (Some s')) w3" "unat now' < e"
  shows "s' \<noteq> s"
proof
  assume s: "s' = s"
  have c: "spec_op expiry (Claim now ttl i) (abs w) (Slot (Some s)) (abs w1)"
    by (rule refines) fact
  then have l: "lease_at (abs w1) s = Some (expiry now ttl)" "owner_at (abs w1) s = Some i"
    by (auto elim!: spec_claimE simp: leased_out_def)
  have ok: "pool_ok (abs w1)" using c assms(1) by (rule spec_op_pool_ok)
  have "lease_at (abs w2) s = Some e"
    using lease_followed [OF assms(3) ok l assms(4)] by simp
  then have "e \<le> unat now'"
    using claim_not_live [OF refines [OF assms(5)] keeps_ok [OF assms(3) ok]] s by simp
  with assms(6) show False by simp
qed

end

end
