(* ===== verification/Slot_Cli.thy ===== *)
theory Slot_Cli
  imports Slot_Spec
begin

text \<open>
  What the two command line tools of \<open>aeroslot\<close> have in common: the dispatch of a pool operation to
  the tool's command, what counts as its outcome, the notification that is published, and the
  \<open>status\<close> command.
\<close>

section \<open>A tool and the outcome of its commands\<close>

record slot_cli =
  run_init :: "u32 \<Rightarrow> u32 \<Rightarrow> unit rio"
  run_claim :: "string \<Rightarrow> u64 \<Rightarrow> unit rio"
  run_renew :: "u32 \<Rightarrow> string \<Rightarrow> u64 \<Rightarrow> unit rio"
  run_release :: "u32 \<Rightarrow> string \<Rightarrow> unit rio"

text \<open>The run read the clock as \<open>now\<close>; the run printed the line \<open>s\<close>.\<close>

definition clock_read :: "('w \<Rightarrow> cmd \<Rightarrow> reply \<times> 'w) \<Rightarrow> 'a io \<Rightarrow> 'w \<Rightarrow> u64 \<Rightarrow> bool" where
  "clock_read srv p w now \<longleftrightarrow> (\<exists>r. (NowMs, r) \<in> set (trace srv p w) \<and> as_millis r = now)"

definition printed :: "('w \<Rightarrow> cmd \<Rightarrow> reply \<times> 'w) \<Rightarrow> 'a io \<Rightarrow> 'w \<Rightarrow> string \<Rightarrow> bool" where
  "printed srv p w s \<longleftrightarrow> (\<exists>r. (Print s, r) \<in> set (trace srv p w))"

text \<open>The tool declined the request, as opposed to a service that failed.\<close>

fun refusal :: "err \<Rightarrow> bool" where
  "refusal Exit1 = True"
| "refusal (Bail m) = True"
| "refusal _ = False"

fun cli_does ::
    "slot_cli \<Rightarrow> ('w \<Rightarrow> cmd \<Rightarrow> reply \<times> 'w) \<Rightarrow> pool_op \<Rightarrow> 'w \<Rightarrow> pool_res \<Rightarrow> 'w \<Rightarrow> bool" where
  "cli_does cli srv (Init lo hi) w (Added n) w' = (exec srv (run_init cli lo hi) w = (Inr (), w'))"
| "cli_does cli srv (Claim now ttl i) w (Slot (Some s)) w' =
     (exec srv (run_claim cli i ttl) w = (Inr (), w') \<and>
      clock_read srv (run_claim cli i ttl) w now \<and> printed srv (run_claim cli i ttl) w s)"
| "cli_does cli srv (Claim now ttl i) w (Slot None) w' =
     (exec srv (run_claim cli i ttl) w = (Inl Exit1, w') \<and> clock_read srv (run_claim cli i ttl) w now)"
| "cli_does cli srv (Renew now ttl i s) w (Accepted True) w' =
     (exec srv (run_renew cli s i ttl) w = (Inr (), w') \<and> clock_read srv (run_renew cli s i ttl) w now)"
| "cli_does cli srv (Renew now ttl i s) w (Accepted False) w' =
     (\<exists>e. exec srv (run_renew cli s i ttl) w = (Inl e, w') \<and> refusal e)"
| "cli_does cli srv (Release now i s) w (Accepted True) w' =
     (exec srv (run_release cli s i) w = (Inr (), w') \<and> clock_read srv (run_release cli s i) w now)"
| "cli_does cli srv (Release now i s) w (Accepted False) w' =
     (\<exists>e. exec srv (run_release cli s i) w = (Inl e, w') \<and> refusal e)"
| "cli_does cli srv _ w _ w' = False"

fun_cases cli_doesE: "cli_does cli srv a w r w'"

lemma exec_now_ms [simp]:
  "exec srv now_ms w = (as_millis (fst (srv w NowMs)), snd (srv w NowMs))"
  by (simp add: now_ms_def Let_def)

lemma trace_now_ms [simp]: "trace srv now_ms w = [(NowMs, fst (srv w NowMs))]"
  by (simp add: now_ms_def Let_def)

definition print_line :: "string \<Rightarrow> unit io" where
  "print_line s = Op (Print s) (\<lambda>_. Ret ())"

lemma print_line_simps [simp]:
  "exec srv (print_line s) w = ((), snd (srv w (Print s)))"
  "trace srv (print_line s) w = [(Print s, fst (srv w (Print s)))]"
  "emits P (print_line s) = P (Print s)"
  by (simp_all add: print_line_def Let_def)

lemma exec_redis_unit_refusal:
  "exec srv (redis_unit c) w = (Inl e, w') \<Longrightarrow> \<exists>f. e = RedisFault f"
  by (auto simp: redis_unit_def decode_defs split: reply.splits)

section \<open>The notification\<close>

definition ASG_CHANGE_CHANNEL :: string where "ASG_CHANGE_CHANNEL = ''asg-change''"

text \<open>
  The payload that both tools publish.  The JSON library keeps the members of an object in the
  order of their names.
\<close>

definition asg_change :: "string \<Rightarrow> string \<Rightarrow> string option \<Rightarrow> json" where
  "asg_change slot action instance_id =
     (let slot_num = (case parse_u64 slot of None \<Rightarrow> 0 | Some n \<Rightarrow> n)
      in JObj ([(''action'', JStr action)]
               @ (case instance_id of None \<Rightarrow> [] | Some i \<Rightarrow> [(''instance_id'', JStr i)])
               @ [(''slot'', JNum (unat slot_num))]))"

section \<open>Status\<close>

text \<open>
  The data that \<open>status\<close> shows: how many slots are free; each free slot with the time since when
  (in milliseconds, none for a slot free since \<open>init\<close>); each lease, by slot number, with its owner
  and the time it has left (none when it has run out).
\<close>

type_synonym status = "int \<times> (string \<times> u64 option) list \<times> (string \<times> string \<times> u64 option) list"

definition free_for :: "u64 \<Rightarrow> nat \<Rightarrow> u64 option" where
  "free_for now score = (if score = 0 then None else Some (saturating_sub now (score_u64 score)))"

definition remaining :: "u64 \<Rightarrow> nat \<Rightarrow> u64 option" where
  "remaining now expiry_score =
     (let expiry_ms = score_u64 expiry_score
      in if expiry_ms \<le> now then None else Some (expiry_ms - now))"

definition slot_sort_key :: "string \<times> nat \<Rightarrow> u32" where
  "slot_sort_key x = (case parse_u32 (fst x) of None \<Rightarrow> 0 | Some n \<Rightarrow> n)"

definition owner_label :: "string \<Rightarrow> string io" where
  "owner_label slot =
     bind (call (Redis (GET (key_owner slot))) as_bulk) (\<lambda>x. Ret (case x of
       Inr (Some i) \<Rightarrow> i | Inr None \<Rightarrow> ''(missing)'' | Inl e \<Rightarrow> ''(unknown)''))"

definition pool_status :: "status rio" where
  "pool_status =
     attempt (ctx ''ZCARD failed'' (call (Redis (ZCARD KEY_AVAILABLE)) as_count)) (\<lambda>free_count.
     attempt (ctx ''ZRANGE available WITHSCORES failed'' (call (Redis (ZRANGE KEY_AVAILABLE)) as_scored))
       (\<lambda>free_slots_raw.
     attempt (ctx ''ZRANGE WITHSCORES failed'' (call (Redis (ZRANGE KEY_LEASES)) as_scored)) (\<lambda>leases.
     bind now_ms (\<lambda>now.
     bind (for_each (\<lambda>(slot, expiry_score) rows.
             bind (owner_label slot) (\<lambda>o'. Ret (rows @ [(slot, o', remaining now expiry_score)])))
           (sort_key slot_sort_key leases) []) (\<lambda>rows.
     Ret (Inr (free_count, map (\<lambda>(s, score). (s, free_for now score)) free_slots_raw, rows)))))))"

lemma emits_owner_label [simp]: "emits P (owner_label s) = P (Redis (GET (key_owner s)))"
  by (simp add: owner_label_def call_def)

lemma pool_status_reads: "emits (\<lambda>c. \<not> mutates c) pool_status"
  unfolding pool_status_def
  by (auto intro!: emits_attemptI emits_bindI emits_for_each)

end
