(* ===== verification/Slot_Lua.thy ===== *)
theory Slot_Lua
  imports Slot_Cli
begin

text \<open>
  \<open>aeroslot/src/lua.rs\<close>: the pool operations as Lua scripts, which Redis carries out as one step,
  and the commands of the tool that invoke them.  A script is a program of Redis commands; Lua
  numbers are doubles, exact for the times and lease durations below \<open>2^53\<close> milliseconds, so
  \<open>now + ttl_ms\<close> does not wrap here.
\<close>

section \<open>The scripts\<close>

definition lua_do :: "redis_cmd \<Rightarrow> (redis_cmd, reply, unit result) prog" where
  "lua_do c = call c (as_unit RedisFault)"

definition lua_init :: "u32 \<Rightarrow> u32 \<Rightarrow> (redis_cmd, reply, int result) prog" where
  "lua_init mn mx =
     for_try (\<lambda>s added.
         attempt (call (ZSCORE KEY_LEASES s) as_score) (\<lambda>leased.
         if leased = None
         then attempt (call (ZADD_NX KEY_AVAILABLE 0 s) as_count) (\<lambda>n. Ret (Inr (added + n)))
         else Ret (Inr added)))
       (slot_names mn mx) 0"

definition lua_sweep :: "nat \<Rightarrow> string list \<Rightarrow> (redis_cmd, reply, unit result) prog" where
  "lua_sweep now expired =
     for_try (\<lambda>slot _.
         attempt (lua_do (ZREM KEY_LEASES slot)) (\<lambda>_.
         attempt (lua_do (ZADD KEY_AVAILABLE now slot)) (\<lambda>_.
         lua_do (DEL (key_owner slot)))))
       expired ()"

definition lua_claim :: "nat \<Rightarrow> string \<Rightarrow> nat \<Rightarrow> (redis_cmd, reply, string option result) prog" where
  "lua_claim now owner ttl_ms =
     attempt (call (ZRANGEBYSCORE KEY_LEASES now) as_members) (\<lambda>expired.
     attempt (lua_sweep now expired) (\<lambda>_.
     attempt (call (ZPOPMIN KEY_AVAILABLE) as_scored) (\<lambda>result.
     case result of
       [] \<Rightarrow> Ret (Inr None)
     | (slot, _) # _ \<Rightarrow>
         attempt (lua_do (ZADD KEY_LEASES (now + ttl_ms) slot)) (\<lambda>_.
         attempt (lua_do (SET (key_owner slot) owner)) (\<lambda>_.
         Ret (Inr (Some slot)))))))"

definition lua_renew :: "string \<Rightarrow> string \<Rightarrow> nat \<Rightarrow> nat \<Rightarrow> (redis_cmd, reply, int result) prog" where
  "lua_renew slot owner now ttl_ms =
     attempt (call (GET (key_owner slot)) as_bulk) (\<lambda>o'.
     if o' \<noteq> Some owner then Ret (Inr 0)
     else attempt (lua_do (ZADD KEY_LEASES (now + ttl_ms) slot)) (\<lambda>_. Ret (Inr 1)))"

definition lua_release :: "string \<Rightarrow> string \<Rightarrow> nat \<Rightarrow> (redis_cmd, reply, int result) prog" where
  "lua_release slot owner now =
     attempt (call (GET (key_owner slot)) as_bulk) (\<lambda>o'.
     if o' \<noteq> Some owner then Ret (Inr 0)
     else
       attempt (lua_do (DEL (key_owner slot))) (\<lambda>_.
       attempt (lua_do (ZREM KEY_LEASES slot)) (\<lambda>_.
       attempt (lua_do (ZADD KEY_AVAILABLE now slot)) (\<lambda>_. Ret (Inr 1)))))"

section \<open>What the scripts do to the pool\<close>

lemma atomically_call: "atomically (call c d) v x v' \<longleftrightarrow> (\<exists>r. redis_ok c v r v' \<and> x = d r)"
  by (auto simp: call_def)

lemma atomically_attempt:
  "atomically (attempt p f) v x v' \<longleftrightarrow>
     (\<exists>e. atomically p v (Inl e) v' \<and> x = Inl e) \<or>
     (\<exists>a v1. atomically p v (Inr a) v1 \<and> atomically (f a) v1 x v')"
  by (auto simp: attempt_def atomically_bind split_sum_ex)

lemma redis_ok_no_fault: "redis_ok c v r v' \<Longrightarrow> r \<noteq> Failed f"
  by (auto elim: redis_ok.cases)

lemma atomically_do: "atomically (lua_do c) v x v' \<longleftrightarrow> (\<exists>r. redis_ok c v r v') \<and> x = Inr ()"
  unfolding lua_do_def atomically_call
  using redis_ok_no_fault [of c v _ v'] by (metis decode_Inr(1))

lemmas atomically_defs = atomically_attempt atomically_call atomically_do redis_ok_simps decode_defs

text \<open>One swept slot, and the sweep of a list of slots, on the state of Redis.\<close>

definition sweep_view :: "nat \<Rightarrow> string \<Rightarrow> rview \<Rightarrow> rview" where
  "sweep_view now s v =
     (let v = zput KEY_AVAILABLE s now (zdrop KEY_LEASES s v)
      in v\<lparr>strs := (strs v)(key_owner s := None)\<rparr>)"

lemma pool_sweep_view: "pool_of (sweep_view now s v) = put_back {s} now (pool_of v)"
  by (intro pool_eqI) (simp_all add: sweep_view_def Let_def put_back_def)

lemma put_back_put_back: "put_back E now (put_back F now p) = put_back (E \<union> F) now p"
  by (intro pool_eqI) (auto simp: put_back_def)

lemma pool_sweep_list: "pool_of (fold (sweep_view now) xs v) = put_back (set xs) now (pool_of v)"
proof (induction xs arbitrary: v)
  case Nil
  show ?case by (intro pool_eqI) (simp_all add: put_back_def)
next
  case (Cons x xs)
  then show ?case by (simp add: pool_sweep_view put_back_put_back)
qed

lemma sweep_view_eq:
  "zput KEY_AVAILABLE s now (zdrop KEY_LEASES s v)
     \<lparr>strs := (strs (zput KEY_AVAILABLE s now (zdrop KEY_LEASES s v)))(key_owner s := None)\<rparr> =
   sweep_view now s v"
  by (simp add: sweep_view_def)

lemma lua_sweep_view:
  "atomically (lua_sweep now xs) v x v' \<longleftrightarrow> x = Inr () \<and> v' = fold (sweep_view now) xs v"
proof (induction xs arbitrary: v)
  case Nil
  show ?case by (auto simp: lua_sweep_def)
next
  case (Cons s xs)
  then show ?case
    by (auto simp: lua_sweep_def atomically_defs sweep_view_eq sweep_view_def)
qed

lemma swept_view:
  assumes "set xs = {m. \<exists>s. zsets v KEY_LEASES m = Some s \<and> s \<le> now}"
  shows "pool_of (fold (sweep_view now) xs v) = swept now (pool_of v)"
  using assms by (simp add: pool_sweep_list swept_def expired_slots_def)

text \<open>The lease of a popped slot.\<close>

definition grant_view :: "string \<Rightarrow> nat \<Rightarrow> string \<Rightarrow> rview \<Rightarrow> rview" where
  "grant_view s e i v =
     (let v = zput KEY_LEASES s e (zdrop KEY_AVAILABLE s v)
      in v\<lparr>strs := (strs v)(key_owner s \<mapsto> i)\<rparr>)"

lemma pool_grant_view: "pool_of (grant_view s e i v) = leased_out s e i (pool_of v)"
  by (intro pool_eqI) (simp_all add: grant_view_def Let_def leased_out_def)

text \<open>
  The end of a lease: Lua adds two doubles, which is this sum as long as it is at most \<open>2^53\<close>.
\<close>

definition lua_expiry :: "u64 \<Rightarrow> u64 \<Rightarrow> nat" where
  "lua_expiry now ttl = unat now + unat ttl"

lemma claim_outcome:
  assumes xs: "set xs = {m. \<exists>s. zsets v KEY_LEASES m = Some s \<and> s \<le> unat now}"
    and u: "u = fold (sweep_view (unat now)) xs v"
    and out: "(\<forall>m. zsets u KEY_AVAILABLE m = None) \<and> r = None \<and> v' = u \<or>
       (\<exists>s f. is_min (zsets u KEY_AVAILABLE) s f \<and> r = Some s \<and> v' = grant_view s (e now ttl) i u)"
  shows "spec_op e (Claim now ttl i) (pool_of v) (Slot r) (pool_of v')"
proof -
  have sw: "pool_of u = swept (unat now) (pool_of v)" unfolding u by (rule swept_view [OF xs])
  then have free_eq: "zsets u KEY_AVAILABLE = free_at (swept (unat now) (pool_of v))"
    by (metis pool_of_simps(1))
  from out show ?thesis
    unfolding free_eq
    by (auto simp: sw pool_grant_view intro: spec_op.exhausted spec_op.granted)
qed

lemma lua_claim_refines:
  assumes "atomically (lua_claim (unat now) i (unat ttl)) v x v'"
  shows "\<exists>r. x = Inr r \<and> spec_op lua_expiry (Claim now ttl i) (pool_of v) (Slot r) (pool_of v')"
proof -
  let ?u = "\<lambda>xs. fold (sweep_view (unat now)) xs v"
  have "\<exists>xs. set xs = {m. \<exists>s. zsets v KEY_LEASES m = Some s \<and> s \<le> unat now} \<and>
      ((\<forall>m. zsets (?u xs) KEY_AVAILABLE m = None) \<and> x = Inr None \<and> v' = ?u xs \<or>
       (\<exists>s f. is_min (zsets (?u xs) KEY_AVAILABLE) s f \<and> x = Inr (Some s) \<and>
         v' = grant_view s (unat now + unat ttl) i (?u xs)))"
    using assms
    by (auto simp: lua_claim_def atomically_defs lua_sweep_view grant_view_def) blast+
  then obtain xs r where "set xs = {m. \<exists>s. zsets v KEY_LEASES m = Some s \<and> s \<le> unat now}"
    and "x = Inr r"
    and "(\<forall>m. zsets (?u xs) KEY_AVAILABLE m = None) \<and> r = None \<and> v' = ?u xs \<or>
       (\<exists>s f. is_min (zsets (?u xs) KEY_AVAILABLE) s f \<and> r = Some s \<and>
         v' = grant_view s (lua_expiry now ttl) i (?u xs))"
    by (auto simp: lua_expiry_def)
  then show ?thesis by (auto intro: claim_outcome)
qed

lemma pool_renew_view:
  "pool_of (zput KEY_LEASES s e v) = (pool_of v)\<lparr>lease_at := (lease_at (pool_of v))(s \<mapsto> e)\<rparr>"
  by (intro pool_eqI) simp_all

lemma lua_renew_refines:
  assumes "atomically (lua_renew (show_word slot) i (unat now) (unat ttl)) v x v'"
  shows "\<exists>b. x = Inr (if b then 1 else 0) \<and>
    spec_op lua_expiry (Renew now ttl i slot) (pool_of v) (Accepted b) (pool_of v')"
proof (cases "strs v (key_owner (show_word slot)) = Some i")
  case True
  then have "x = Inr 1" "v' = zput KEY_LEASES (show_word slot) (lua_expiry now ttl) v"
    using assms by (auto simp: lua_renew_def atomically_defs lua_expiry_def)
  then show ?thesis using True
    using spec_op.renewed [of "pool_of v" slot i lua_expiry now ttl]
    by (auto simp: pool_renew_view intro!: exI [of _ True])
next
  case False
  then have "x = Inr 0" "v' = v" using assms by (auto simp: lua_renew_def atomically_defs)
  then show ?thesis using False by (auto intro!: exI [of _ False] spec_op.not_renewed)
qed

definition release_view :: "string \<Rightarrow> nat \<Rightarrow> rview \<Rightarrow> rview" where
  "release_view s now v =
     zput KEY_AVAILABLE s now (zdrop KEY_LEASES s (v\<lparr>strs := (strs v)(key_owner s := None)\<rparr>))"

lemma pool_release_view: "pool_of (release_view s now v) = put_back {s} now (pool_of v)"
  by (intro pool_eqI) (simp_all add: release_view_def put_back_def)

lemma lua_release_refines:
  assumes "atomically (lua_release (show_word slot) i (unat now)) v x v'"
  shows "\<exists>b. x = Inr (if b then 1 else 0) \<and>
    spec_op e (Release now i slot) (pool_of v) (Accepted b) (pool_of v')"
proof (cases "strs v (key_owner (show_word slot)) = Some i")
  case True
  then have "x = Inr 1" "v' = release_view (show_word slot) (unat now) v"
    using assms by (auto simp: lua_release_def atomically_defs release_view_def)
  then show ?thesis using True
    by (auto simp: pool_release_view intro!: exI [of _ True] spec_op.released)
next
  case False
  then have "x = Inr 0" "v' = v" using assms by (auto simp: lua_release_def atomically_defs)
  then show ?thesis using False by (auto intro!: exI [of _ False] spec_op.not_released)
qed

text \<open>One slot of \<open>init\<close>, and all of them.\<close>

definition init_view :: "string \<Rightarrow> rview \<Rightarrow> rview" where
  "init_view s v =
     (if zsets v KEY_LEASES s = None \<and> zsets v KEY_AVAILABLE s = None
      then zput KEY_AVAILABLE s 0 v else v)"

lemma pool_init_list: "pool_of (fold init_view xs v) = filled (set xs) (pool_of v)"
proof (induction xs arbitrary: v)
  case Nil
  show ?case by (intro pool_eqI) (simp_all add: filled_def)
next
  case (Cons s xs)
  have "pool_of (fold init_view (s # xs) v) = filled (set xs) (pool_of (init_view s v))"
    by (simp add: Cons)
  also have "\<dots> = filled (set (s # xs)) (pool_of v)"
    by (intro pool_eqI) (auto simp: filled_def init_view_def)
  finally show ?case .
qed

lemma lua_init_view:
  "atomically (for_try (\<lambda>s added.
         attempt (call (ZSCORE KEY_LEASES s) as_score) (\<lambda>leased.
         if leased = None
         then attempt (call (ZADD_NX KEY_AVAILABLE 0 s) as_count) (\<lambda>n. Ret (Inr (added + n)))
         else Ret (Inr added))) xs (n :: int)) v x v'
   \<Longrightarrow> (\<exists>m. x = Inr m) \<and> v' = fold init_view xs v"
proof (induction xs arbitrary: n v)
  case (Cons s xs)
  then show ?case
    by (auto simp: atomically_defs init_view_def split: if_splits)
qed simp

lemma lua_init_refines:
  assumes "atomically (lua_init lo hi) v x v'"
  shows "\<exists>n. x = Inr n \<and> spec_op e (Init lo hi) (pool_of v) (Added n) (pool_of v')"
  using lua_init_view [OF assms [unfolded lua_init_def]]
  by (auto simp: pool_init_list intro: spec_op.init)

text \<open>The scripts as an implementation of the pool.\<close>

fun lua_does :: "pool_op \<Rightarrow> rview \<Rightarrow> pool_res \<Rightarrow> rview \<Rightarrow> bool" where
  "lua_does (Init lo hi) v (Added n) v' = atomically (lua_init lo hi) v (Inr n) v'"
| "lua_does (Claim now ttl i) v (Slot r) v' =
     atomically (lua_claim (unat now) i (unat ttl)) v (Inr r) v'"
| "lua_does (Renew now ttl i slot) v (Accepted b) v' =
     atomically (lua_renew (show_word slot) i (unat now) (unat ttl)) v (Inr (if b then 1 else 0)) v'"
| "lua_does (Release now i slot) v (Accepted b) v' =
     atomically (lua_release (show_word slot) i (unat now)) v (Inr (if b then 1 else 0)) v'"
| "lua_does _ v _ v' = False"

interpretation lua: slot_pool pool_of lua_expiry lua_does
proof
  fix a w r w'
  show "lua_does a w r w' \<Longrightarrow> spec_op lua_expiry a (pool_of w) r (pool_of w')"
    by (induction a w r w' rule: lua_does.induct)
      (auto dest: lua_init_refines lua_claim_refines lua_renew_refines lua_release_refines
        split: if_splits)
qed

section \<open>The commands of the tool\<close>

text \<open>The reply Redis gives to an invocation of a script.\<close>

definition script_reply :: "('a \<Rightarrow> reply) \<Rightarrow> 'a result \<Rightarrow> reply" where
  "script_reply f x = (case x of Inl e \<Rightarrow> Failed (OtherFault ''script error'') | Inr a \<Rightarrow> f a)"

fun script_prog :: "script \<Rightarrow> (redis_cmd, reply, reply) prog" where
  "script_prog (InitScript mn mx) =
     bind (lua_init mn mx) (\<lambda>x. Ret (script_reply Count x))"
| "script_prog (ClaimScript now i ttl) =
     bind (lua_claim (unat now) i (unat ttl)) (\<lambda>x. Ret (script_reply Bulk x))"
| "script_prog (RenewScript slot i now ttl) =
     bind (lua_renew slot i (unat now) (unat ttl)) (\<lambda>x. Ret (script_reply Count x))"
| "script_prog (ReleaseScript slot i now) =
     bind (lua_release slot i (unat now)) (\<lambda>x. Ret (script_reply Count x))"

definition lua_publish_asg_change :: "string \<Rightarrow> string \<Rightarrow> unit rio" where
  "lua_publish_asg_change slot action =
     ctx (''PUBLISH '' @ ASG_CHANGE_CHANNEL @ '' failed'')
       (redis_unit (PUBLISH ASG_CHANGE_CHANNEL (asg_change slot action None)))"

definition lua_cmd_init :: "u32 \<Rightarrow> u32 \<Rightarrow> unit rio" where
  "lua_cmd_init mn mx =
     (if mn > mx then
        Ret (Inl (Bail (''--min ('' @ show_word mn @ '') must be <= --max ('' @ show_word mx @ '')'')))
      else attempt (ctx ''INIT script failed'' (call (EvalScript (InitScript mn mx)) as_count))
             (\<lambda>added. Ret (Inr ())))"

definition lua_cmd_claim :: "string \<Rightarrow> u64 \<Rightarrow> unit rio" where
  "lua_cmd_claim instance_id ttl_ms =
     bind now_ms (\<lambda>now.
     attempt (ctx ''CLAIM script failed''
       (call (EvalScript (ClaimScript now instance_id ttl_ms)) as_bulk)) (\<lambda>slot.
     case slot of
       Some n \<Rightarrow> bind (print_line n) (\<lambda>_. lua_publish_asg_change n ''claim'')
     | None \<Rightarrow> Ret (Inl Exit1)))"

definition lua_cmd_renew :: "u32 \<Rightarrow> string \<Rightarrow> u64 \<Rightarrow> unit rio" where
  "lua_cmd_renew slot instance_id ttl_ms =
     bind now_ms (\<lambda>now.
     attempt (ctx ''RENEW script failed''
       (call (EvalScript (RenewScript (show_word slot) instance_id now ttl_ms)) as_count)) (\<lambda>ok.
     if ok = 1 then Ret (Inr ()) else Ret (Inl Exit1)))"

definition lua_cmd_release :: "u32 \<Rightarrow> string \<Rightarrow> unit rio" where
  "lua_cmd_release slot instance_id =
     bind now_ms (\<lambda>now.
     attempt (ctx ''RELEASE script failed''
       (call (EvalScript (ReleaseScript (show_word slot) instance_id now)) as_count)) (\<lambda>ok.
     if ok = 1 then lua_publish_asg_change (show_word slot) ''release'' else Ret (Inl Exit1)))"

definition lua_cmd_status :: "status rio" where
  "lua_cmd_status = pool_status"

definition lua_cli :: slot_cli where
  "lua_cli = \<lparr>run_init = lua_cmd_init, run_claim = lua_cmd_claim,
              run_renew = lua_cmd_renew, run_release = lua_cmd_release\<rparr>"

text \<open>
  A Redis that runs scripts: an invocation that is answered was carried out as one step; one that
  fails was carried out or not at all.
\<close>

locale redis_scripting = redis_service +
  assumes script_done: "srv w (EvalScript sc) = (r, w') \<Longrightarrow> (\<forall>f. r \<noteq> Failed f) \<Longrightarrow>
      atomically (script_prog sc) (view w) r (view w')"
    and script_failed: "srv w (EvalScript sc) = (Failed f, w') \<Longrightarrow>
      view w' = view w \<or> (\<exists>r. atomically (script_prog sc) (view w) r (view w'))"
begin

lemma view_now [simp]: "view (snd (srv w NowMs)) = view w"
  by (rule not_redis [of _ NowMs "fst (srv w NowMs)"]) auto

lemma view_print [simp]: "view (snd (srv w (Print s))) = view w"
  by (rule not_redis [of _ "Print s" "fst (srv w (Print s))"]) auto

lemma view_publish:
  "exec srv (lua_publish_asg_change s a) w = (Inr (), w') \<Longrightarrow> view w' = view w"
  by (auto simp: lua_publish_asg_change_def exec_ctx_Inr redis_ok_simps dest!: exec_redis_unit
      simp del: exec_ctx)

lemma exec_script:
  assumes "exec srv (ctx m (call (EvalScript sc) d)) w = (Inr a, w')" "\<And>f. \<exists>e. d (Failed f) = Inl e"
  obtains r where "d r = Inr a" "atomically (script_prog sc) (view w) r (view w')"
proof -
  have "d (fst (srv w (EvalScript sc))) = Inr a" "w' = snd (srv w (EvalScript sc))"
    using assms(1) by (auto simp: exec_ctx_Inr simp del: exec_ctx)
  moreover then have "\<forall>f. fst (srv w (EvalScript sc)) \<noteq> Failed f"
    using assms(2) by (metis Inl_Inr_False)
  ultimately show thesis using that script_done [OF prod.collapse [symmetric]] by metis
qed

lemma script_count:
  assumes "exec srv (ctx m (call (EvalScript sc) as_count)) w = (Inr n, w')"
  shows "atomically (script_prog sc) (view w) (Count n) (view w')"
  using assms by (rule exec_script) (auto simp: decode_Inr, auto simp: decode_defs)

lemma script_bulk:
  assumes "exec srv (ctx m (call (EvalScript sc) as_bulk)) w = (Inr b, w')"
  shows "atomically (script_prog sc) (view w) (Bulk b) (view w')"
  using assms by (rule exec_script) (auto simp: decode_Inr, auto simp: decode_defs)

end

lemma script_reply_simps [simp]:
  "script_reply Count x = Count n \<longleftrightarrow> x = Inr n" "Count n = script_reply Count x \<longleftrightarrow> x = Inr n"
  "script_reply Bulk y = Bulk b \<longleftrightarrow> y = Inr b" "Bulk b = script_reply Bulk y \<longleftrightarrow> y = Inr b"
  by (auto simp: script_reply_def split: sum.splits)


lemma publish_outcome:
  "exec srv (lua_publish_asg_change n a) w = (Inl e, w') \<Longrightarrow> \<not> refusal e"
  by (cases "exec srv (redis_unit (PUBLISH ASG_CHANGE_CHANNEL (asg_change n a None))) w")
    (auto simp: lua_publish_asg_change_def with_ctx_def split: sum.splits)

lemma publish_trace:
  "(c, r) \<in> set (trace srv (lua_publish_asg_change n a) w) \<Longrightarrow>
   \<exists>m. c = Redis (PUBLISH ASG_CHANGE_CHANNEL m)"
  by (simp add: lua_publish_asg_change_def redis_unit_def)

lemma ctx_not_refusal: "exec srv (ctx m p) w = (Inl e, w') \<Longrightarrow> \<not> refusal e"
  by (cases "exec srv p w") (auto simp: with_ctx_def split: sum.splits)

context redis_scripting
begin

lemma cli_claim:
  assumes "exec srv (lua_cmd_claim i ttl) w = (Inr (), w')"
    and "clock_read srv (lua_cmd_claim i ttl) w now" "printed srv (lua_cmd_claim i ttl) w s"
  shows "atomically (lua_claim (unat now) i (unat ttl)) (view w) (Inr (Some s)) (view w')"
proof -
  let ?now = "as_millis (fst (srv w NowMs))" and ?w1 = "snd (srv w NowMs)"
  let ?p = "ctx ''CLAIM script failed'' (call (EvalScript (ClaimScript ?now i ttl)) as_bulk)"
  obtain b w2 where b: "exec srv ?p ?w1 = (Inr b, w2)"
    using assms(1)
    by (cases "exec srv ?p ?w1") (auto simp: lua_cmd_claim_def exec_bind exec_attempt_Inr simp del: exec_ctx)
  have at: "atomically (lua_claim (unat ?now) i (unat ttl)) (view w) (Inr b) (view w2)"
    using script_bulk [OF b] by (auto simp: atomically_bind)
  obtain n where n: "b = Some n" 
    using assms(1) b by (cases b) (auto simp: lua_cmd_claim_def exec_bind exec_attempt simp del: exec_ctx)
  have w': "view w' = view w2"
    using assms(1) b n
    by (auto simp: lua_cmd_claim_def exec_bind exec_attempt simp del: exec_ctx dest!: view_publish)
  have tr: "trace srv (lua_cmd_claim i ttl) w =
      [(NowMs, fst (srv w NowMs)), (EvalScript (ClaimScript ?now i ttl), fst (srv ?w1 (EvalScript (ClaimScript ?now i ttl)))),
       (Print n, fst (srv w2 (Print n)))] @ trace srv (lua_publish_asg_change n ''claim'') (snd (srv w2 (Print n)))"
    using b n by (simp add: lua_cmd_claim_def trace_bind trace_attempt)
  have "now = ?now" using assms(2) tr by (auto simp: clock_read_def dest!: publish_trace)
  moreover have "s = n" using assms(3) tr by (auto simp: printed_def dest!: publish_trace)
  ultimately show ?thesis using at n w' by simp
qed

lemma cli_claim_none:
  assumes "exec srv (lua_cmd_claim i ttl) w = (Inl Exit1, w')"
    and "clock_read srv (lua_cmd_claim i ttl) w now"
  shows "atomically (lua_claim (unat now) i (unat ttl)) (view w) (Inr None) (view w')"
proof -
  let ?now = "as_millis (fst (srv w NowMs))" and ?w1 = "snd (srv w NowMs)"
  let ?p = "ctx ''CLAIM script failed'' (call (EvalScript (ClaimScript ?now i ttl)) as_bulk)"
  obtain b w2 where b: "exec srv ?p ?w1 = (Inr b, w2)"
    using assms(1)
    by (cases "exec srv ?p ?w1"; cases "fst (exec srv ?p ?w1)")
      (auto simp: lua_cmd_claim_def exec_bind exec_attempt simp del: exec_ctx dest!: ctx_not_refusal)
  have n: "b = None" "w' = w2"
    using assms(1) b
    by (cases b; auto simp: lua_cmd_claim_def exec_bind exec_attempt simp del: exec_ctx
        dest!: publish_outcome)+
  have "now = ?now"
    using assms(2) b n by (auto simp: clock_read_def lua_cmd_claim_def trace_bind trace_attempt)
  then show ?thesis using script_bulk [OF b] n by (auto simp: atomically_bind)
qed

lemma cli_renew:
  assumes "exec srv (lua_cmd_renew slot i ttl) w = (Inr (), w')"
    and "clock_read srv (lua_cmd_renew slot i ttl) w now"
  shows "atomically (lua_renew (show_word slot) i (unat now) (unat ttl)) (view w) (Inr 1) (view w')"
proof -
  let ?now = "as_millis (fst (srv w NowMs))" and ?w1 = "snd (srv w NowMs)"
  let ?p = "ctx ''RENEW script failed''
      (call (EvalScript (RenewScript (show_word slot) i ?now ttl)) as_count)"
  have b: "exec srv ?p ?w1 = (Inr 1, w')"
    using assms(1)
    by (auto simp: lua_cmd_renew_def exec_bind exec_attempt_Inr simp del: exec_ctx split: if_splits)
  have "now = ?now"
    using assms(2) b by (auto simp: clock_read_def lua_cmd_renew_def trace_bind trace_attempt)
  then show ?thesis using script_count [OF b] by (auto simp: atomically_bind)
qed

lemma cli_renew_refused:
  assumes "exec srv (lua_cmd_renew slot i ttl) w = (Inl e, w')" "refusal e"
  shows "\<exists>now n. atomically (lua_renew (show_word slot) i (unat (now :: u64)) (unat ttl)) (view w) (Inr n) (view w')
    \<and> n \<noteq> 1"
proof -
  let ?now = "as_millis (fst (srv w NowMs))" and ?w1 = "snd (srv w NowMs)"
  let ?p = "ctx ''RENEW script failed''
      (call (EvalScript (RenewScript (show_word slot) i ?now ttl)) as_count)"
  obtain n where b: "exec srv ?p ?w1 = (Inr n, w')" "n \<noteq> 1"
    using assms
    by (cases "exec srv ?p ?w1"; cases "fst (exec srv ?p ?w1)")
      (auto simp: lua_cmd_renew_def exec_bind exec_attempt simp del: exec_ctx
        dest: ctx_not_refusal split: if_splits)
  then show ?thesis using script_count [OF b(1)] by (auto simp: atomically_bind)
qed

lemma cli_release:
  assumes "exec srv (lua_cmd_release slot i) w = (Inr (), w')"
    and "clock_read srv (lua_cmd_release slot i) w now"
  shows "atomically (lua_release (show_word slot) i (unat now)) (view w) (Inr 1) (view w')"
proof -
  let ?now = "as_millis (fst (srv w NowMs))" and ?w1 = "snd (srv w NowMs)"
  let ?p = "ctx ''RELEASE script failed''
      (call (EvalScript (ReleaseScript (show_word slot) i ?now)) as_count)"
  obtain w2 where b: "exec srv ?p ?w1 = (Inr 1, w2)" "view w' = view w2"
    using assms(1)
    by (auto simp: lua_cmd_release_def exec_bind exec_attempt_Inr simp del: exec_ctx
        split: if_splits dest!: view_publish)
  have "now = ?now"
    using assms(2) b
    by (auto simp: clock_read_def lua_cmd_release_def trace_bind trace_attempt dest!: publish_trace)
  then show ?thesis using script_count [OF b(1)] b(2) by (auto simp: atomically_bind)
qed

lemma cli_release_refused:
  assumes "exec srv (lua_cmd_release slot i) w = (Inl e, w')" "refusal e"
  shows "\<exists>now n. atomically (lua_release (show_word slot) i (unat (now :: u64))) (view w) (Inr n) (view w')
    \<and> n \<noteq> 1"
proof -
  let ?now = "as_millis (fst (srv w NowMs))" and ?w1 = "snd (srv w NowMs)"
  let ?p = "ctx ''RELEASE script failed''
      (call (EvalScript (ReleaseScript (show_word slot) i ?now)) as_count)"
  obtain n where b: "exec srv ?p ?w1 = (Inr n, w')" "n \<noteq> 1"
    using assms
    by (cases "exec srv ?p ?w1"; cases "fst (exec srv ?p ?w1)")
      (auto simp: lua_cmd_release_def exec_bind exec_attempt simp del: exec_ctx
        dest: ctx_not_refusal publish_outcome split: if_splits)
  then show ?thesis using script_count [OF b(1)] by (auto simp: atomically_bind)
qed

lemma cli_init:
  assumes "exec srv (lua_cmd_init lo hi) w = (Inr (), w')"
  shows "\<exists>n. atomically (lua_init lo hi) (view w) (Inr n) (view w')"
proof -
  obtain n where "exec srv (ctx ''INIT script failed'' (call (EvalScript (InitScript lo hi)) as_count)) w
      = (Inr n, w')"
    using assms by (auto simp: lua_cmd_init_def exec_attempt_Inr simp del: exec_ctx split: if_splits)
  then show ?thesis using script_count by (fastforce simp: atomically_bind)
qed

end

text \<open>A refusal leaves the pool as it is, whatever the clock was.\<close>

lemma lua_renew_refused_spec:
  "atomically (lua_renew (show_word slot) i (unat (now :: u64)) (unat ttl)) v (Inr n) v' \<Longrightarrow> n \<noteq> 1 \<Longrightarrow>
   spec_op e (Renew now' ttl' i slot) (pool_of v) (Accepted False) (pool_of v')"
  by (auto simp: lua_renew_def atomically_defs intro!: spec_op.not_renewed split: if_splits)

lemma lua_release_refused_spec:
  "atomically (lua_release (show_word slot) i (unat (now :: u64))) v (Inr n) v' \<Longrightarrow> n \<noteq> 1 \<Longrightarrow>
   spec_op e (Release now' i slot) (pool_of v) (Accepted False) (pool_of v')"
  by (auto simp: lua_release_def atomically_defs intro!: spec_op.not_released split: if_splits)

sublocale redis_scripting \<subseteq> lua_cli: slot_pool "\<lambda>w. pool_of (view w)" lua_expiry "cli_does lua_cli srv"
proof
  fix a w r w'
  assume "cli_does lua_cli srv a w r w'"
  then show "spec_op lua_expiry a (pool_of (view w)) r (pool_of (view w'))"
  proof (cases rule: cli_doesE [consumes 1])
    case (1 lo hi n)
    then obtain m where "spec_op lua_expiry (Init lo hi) (pool_of (view w)) (Added m) (pool_of (view w'))"
      using cli_init by (fastforce simp: lua_cli_def dest!: lua_init_refines)
    with 1 show ?thesis by (auto elim!: spec_opE intro: spec_op.init)
  next
    case (2 now ttl i s)
    with cli_claim [of i ttl w w' now s] show ?thesis
      by (auto simp: lua_cli_def dest!: lua_claim_refines)
  next
    case (3 now ttl i)
    with cli_claim_none [of i ttl w w' now] show ?thesis
      by (auto simp: lua_cli_def dest!: lua_claim_refines)
  next
    case (4 now ttl i s)
    with cli_renew [of s i ttl w w' now] show ?thesis
      by (auto simp: lua_cli_def dest!: lua_renew_refines split: if_splits)
  next
    case (5 now ttl i s e)
    then show ?thesis using cli_renew_refused [of s i ttl w e w']
      by (auto simp: lua_cli_def intro: lua_renew_refused_spec)
  next
    case (6 now i s)
    with cli_release [of s i w w' now] show ?thesis
      by (auto simp: lua_cli_def dest!: lua_release_refines [where e = lua_expiry] split: if_splits)
  next
    case (7 now i s e)
    then show ?thesis using cli_release_refused [of s i w e w']
      by (auto simp: lua_cli_def intro: lua_release_refused_spec)
  qed
qed

context redis_scripting
begin

lemma lua_pool: "slot_pool (\<lambda>w. pool_of (view w)) lua_expiry (cli_does lua_cli srv)"
  by (rule lua_cli.slot_pool_axioms)

end

end
