(* ===== verification/Slot_Native.thy ===== *)
theory Slot_Native
  imports Slot_Lua
begin

text \<open>
  \<open>aeroslot/src/main.rs\<close>: the same pool operations as plain Redis commands issued one by one, the
  heartbeat that keeps renewing a lease, and what can happen between the commands: other clients'
  commands, and failures.
\<close>

section \<open>The commands\<close>

definition publish_asg_change :: "string \<Rightarrow> string \<Rightarrow> string option \<Rightarrow> unit rio" where
  "publish_asg_change slot action instance_id =
     ctx (''PUBLISH '' @ ASG_CHANGE_CHANNEL @ '' failed'')
       (redis_unit (PUBLISH ASG_CHANGE_CHANNEL (asg_change slot action instance_id)))"

definition init_slot :: "string \<Rightarrow> int \<Rightarrow> int rio" where
  "init_slot s added =
     attempt (ctx ''ZSCORE failed'' (call (Redis (ZSCORE KEY_LEASES s)) as_score)) (\<lambda>leased.
     if leased = None
     then attempt (ctx ''ZADD failed'' (call (Redis (ZADD_NX KEY_AVAILABLE 0 s)) as_count))
            (\<lambda>n. Ret (Inr (added + n)))
     else Ret (Inr added))"

definition cmd_init :: "u32 \<Rightarrow> u32 \<Rightarrow> unit rio" where
  "cmd_init mn mx =
     (if mn > mx then
        Ret (Inl (Bail (''--min ('' @ show_word mn @ '') must be <= --max ('' @ show_word mx @ '')'')))
      else attempt (for_try init_slot (slot_names mn mx) 0) (\<lambda>added. Ret (Inr ())))"

definition sweep_slot :: "u64 \<Rightarrow> string \<Rightarrow> unit rio" where
  "sweep_slot now slot =
     attempt (ctx ''ZREM failed'' (redis_unit (ZREM KEY_LEASES slot))) (\<lambda>_.
     attempt (ctx ''ZADD failed'' (redis_unit (ZADD KEY_AVAILABLE (unat now) slot))) (\<lambda>_.
     ctx ''DEL failed'' (redis_unit (DEL (key_owner slot)))))"

definition claim_slot :: "u64 \<Rightarrow> string \<Rightarrow> u64 \<Rightarrow> string option rio" where
  "claim_slot now instance_id ttl_ms =
     attempt (ctx ''ZRANGEBYSCORE failed'' (call (Redis (ZRANGEBYSCORE KEY_LEASES (unat now))) as_members))
       (\<lambda>expired.
     attempt (for_try (\<lambda>slot _. sweep_slot now slot) expired ()) (\<lambda>_.
     attempt (ctx ''ZPOPMIN failed'' (call (Redis (ZPOPMIN KEY_AVAILABLE)) as_scored)) (\<lambda>result.
     case result of
       [] \<Rightarrow> Ret (Inr None)
     | (s, _) # _ \<Rightarrow>
         (let expiry = now + ttl_ms in
          attempt (ctx ''ZADD failed'' (redis_unit (ZADD KEY_LEASES (unat expiry) s))) (\<lambda>_.
          attempt (ctx ''SET failed'' (redis_unit (SET (key_owner s) instance_id))) (\<lambda>_.
          Ret (Inr (Some s))))))))"

definition cmd_claim :: "string \<Rightarrow> u64 \<Rightarrow> unit rio" where
  "cmd_claim instance_id ttl_ms =
     bind now_ms (\<lambda>now.
     attempt (claim_slot now instance_id ttl_ms) (\<lambda>slot.
     case slot of
       None \<Rightarrow> Ret (Inl Exit1)
     | Some s \<Rightarrow> bind (print_line s) (\<lambda>_. publish_asg_change s ''claim'' None)))"

definition cmd_renew :: "u32 \<Rightarrow> string \<Rightarrow> u64 \<Rightarrow> unit rio" where
  "cmd_renew slot instance_id ttl_ms =
     (let slot_str = show_word slot in
      attempt (ctx ''GET owner failed'' (call (Redis (GET (key_owner slot_str))) as_bulk)) (\<lambda>owner.
      case owner of
        Some other \<Rightarrow>
          if other = instance_id
          then bind now_ms (\<lambda>now.
                 attempt (ctx ''ZADD failed'' (redis_unit (ZADD KEY_LEASES (unat (now + ttl_ms)) slot_str)))
                   (\<lambda>_. Ret (Inr ())))
          else Ret (Inl (Bail (''Slot '' @ slot_str @ '' is owned by '' @ single_quoted other @ '', not ''
                 @ single_quoted instance_id @ ''. IP conflict likely - caller should panic.'')))
      | None \<Rightarrow>
          Ret (Inl (Bail (''Slot '' @ slot_str @ '' has no owner (lease expired or slot was never claimed). ''
            @ ''Caller should panic.'')))))"

definition cmd_release :: "u32 \<Rightarrow> string \<Rightarrow> unit rio" where
  "cmd_release slot instance_id =
     (let slot_str = show_word slot in
      attempt (ctx ''GET owner failed'' (call (Redis (GET (key_owner slot_str))) as_bulk)) (\<lambda>owner.
      case owner of
        None \<Rightarrow>
          Ret (Inl (Bail (''Slot '' @ slot_str @ '' has no owner record in Redis - ''
            @ ''it may have already been released or the owner key was lost.'')))
      | Some o' \<Rightarrow>
          if o' \<noteq> instance_id
          then Ret (Inl (Bail (''Slot '' @ slot_str @ '' is owned by '' @ single_quoted o' @ '', not ''
                 @ single_quoted instance_id @ '' - refusing to release.'')))
          else
            bind now_ms (\<lambda>now.
            attempt (ctx ''DEL owner failed'' (redis_unit (DEL (key_owner slot_str)))) (\<lambda>_.
            attempt (ctx ''ZREM failed'' (redis_unit (ZREM KEY_LEASES slot_str))) (\<lambda>_.
            attempt (ctx ''ZADD failed'' (redis_unit (ZADD KEY_AVAILABLE (unat now) slot_str))) (\<lambda>_.
            publish_asg_change slot_str ''release'' (Some instance_id)))))))"

definition cmd_status :: "status rio" where
  "cmd_status = pool_status"

definition native_cli :: slot_cli where
  "native_cli = \<lparr>run_init = cmd_init, run_claim = cmd_claim,
                 run_renew = cmd_renew, run_release = cmd_release\<rparr>"

section \<open>Run alone, they implement the pool\<close>

text \<open>
  The end of a lease: the sum wraps at 64 bits, and Redis keeps it as a double, which is this number
  as long as it is at most \<open>2^53\<close>.
\<close>

definition native_expiry :: "u64 \<Rightarrow> u64 \<Rightarrow> nat" where
  "native_expiry now ttl = unat (now + ttl)"

lemma publish_outcome_native:
  "exec srv (publish_asg_change n a i) w = (Inl e, w') \<Longrightarrow> \<not> refusal e"
  unfolding publish_asg_change_def by (rule ctx_not_refusal)

lemma publish_trace_native:
  "(c, r) \<in> set (trace srv (publish_asg_change n a i) w) \<Longrightarrow>
   \<exists>m. c = Redis (PUBLISH ASG_CHANGE_CHANNEL m)"
  by (simp add: publish_asg_change_def redis_unit_def)

lemma emits_publish [simp]:
  "emits P (publish_asg_change n a i) = P (Redis (PUBLISH ASG_CHANGE_CHANNEL (asg_change n a i)))"
  by (simp add: publish_asg_change_def)

text \<open>No run of \<open>claim_slot\<close> reads the clock or prints.\<close>

lemma emits_sweep_slot:
  "(\<And>c. c \<in> {ZREM KEY_LEASES s, ZADD KEY_AVAILABLE (unat now) s, DEL (key_owner s)} \<Longrightarrow> P (Redis c)) \<Longrightarrow>
   emits P (sweep_slot now s)"
  unfolding sweep_slot_def by (intro emits_attemptI) simp_all

lemma claim_slot_redis: "emits (\<lambda>c. \<exists>rc. c = Redis rc) (claim_slot now i ttl)"
  unfolding claim_slot_def Let_def
  by (auto intro!: emits_attemptI emits_for_try emits_sweep_slot split: list.splits)

lemma claim_slot_trace:
  "(c, r) \<in> set (trace srv (claim_slot now i ttl) w) \<Longrightarrow> \<exists>rc. c = Redis rc"
  using emits_runs [OF runs_trace claim_slot_redis] by fast

lemma exec_for_try_errs:
  "exec srv (for_try body xs s) w = (Inl e, w') \<Longrightarrow>
   (\<And>x s w w' e. exec srv (body x s) w = (Inl e, w') \<Longrightarrow> \<not> refusal e) \<Longrightarrow> \<not> refusal e"
  by (induction xs arbitrary: s w) (auto simp: exec_attempt split: prod.splits sum.splits)

lemma sweep_slot_errs: "exec srv (sweep_slot now s) w = (Inl e, w') \<Longrightarrow> \<not> refusal e"
  by (auto simp: sweep_slot_def exec_attempt simp del: exec_ctx split: prod.splits sum.splits
      dest: ctx_not_refusal)

lemma claim_slot_errs: "exec srv (claim_slot now i ttl) w = (Inl e, w') \<Longrightarrow> \<not> refusal e"
  by (auto simp: claim_slot_def exec_attempt Let_def simp del: exec_ctx
      split: prod.splits sum.splits list.splits
      dest: ctx_not_refusal exec_for_try_errs [OF _ sweep_slot_errs])

context redis_service
begin

lemma view_now_ms [simp]: "view (snd (srv w NowMs)) = view w"
  by (rule not_redis [of _ NowMs "fst (srv w NowMs)"]) auto

lemma view_print_line [simp]: "view (snd (srv w (Print s))) = view w"
  by (rule not_redis [of _ "Print s" "fst (srv w (Print s))"]) auto

lemma native_publish_view:
  "exec srv (publish_asg_change s a i) w = (Inr (), w') \<Longrightarrow> view w' = view w"
  by (auto simp: publish_asg_change_def exec_ctx_Inr redis_ok_simps dest!: exec_redis_unit
      simp del: exec_ctx)

lemma exec_sweep_slot:
  "exec srv (sweep_slot now s) w = (Inr u, w') \<Longrightarrow> view w' = sweep_view (unat now) s (view w)"
  by (auto simp: sweep_slot_def exec_attempt_Inr exec_ctx_Inr redis_ok_simps sweep_view_def
      simp del: exec_ctx dest!: exec_redis_unit)

lemma exec_sweep:
  "exec srv (for_try (\<lambda>slot _. sweep_slot now slot) xs u) w = (Inr u', w') \<Longrightarrow>
   view w' = fold (sweep_view (unat now)) xs (view w)"
  by (induction xs arbitrary: u w) (auto simp: exec_attempt_Inr dest!: exec_sweep_slot)

lemma claim_slot_view:
  assumes "exec srv (claim_slot now i ttl) w = (Inr r, w')"
  shows "\<exists>xs. set xs = {m. \<exists>s. zsets (view w) KEY_LEASES m = Some s \<and> s \<le> unat now} \<and>
    (let u = fold (sweep_view (unat now)) xs (view w)
     in (\<forall>m. zsets u KEY_AVAILABLE m = None) \<and> r = None \<and> view w' = u \<or>
        (\<exists>s f. is_min (zsets u KEY_AVAILABLE) s f \<and> r = Some s \<and>
          view w' = grant_view s (native_expiry now ttl) i u))"
proof -
  obtain xs w1 w2 where 1: "exec srv (call (Redis (ZRANGEBYSCORE KEY_LEASES (unat now))) as_members) w = (Inr xs, w1)"
    and 2: "exec srv (for_try (\<lambda>slot _. sweep_slot now slot) xs ()) w1 = (Inr (), w2)"
    and 3: "exec srv (attempt (ctx ''ZPOPMIN failed'' (call (Redis (ZPOPMIN KEY_AVAILABLE)) as_scored)) (\<lambda>result.
     case result of
       [] \<Rightarrow> Ret (Inr None)
     | (s, _) # _ \<Rightarrow>
         attempt (ctx ''ZADD failed'' (redis_unit (ZADD KEY_LEASES (unat (now + ttl)) s))) (\<lambda>_.
         attempt (ctx ''SET failed'' (redis_unit (SET (key_owner s) i))) (\<lambda>_.
         Ret (Inr (Some s)))))) w2 = (Inr r, w')"
    using assms
    by (auto simp: claim_slot_def exec_attempt_Inr exec_ctx_Inr Let_def simp del: exec_ctx exec_call)
  have xs: "set xs = {m. \<exists>s. zsets (view w) KEY_LEASES m = Some s \<and> s \<le> unat now}" "view w1 = view w"
    using exec_members [OF 1] by (auto simp: redis_ok_simps)
  have v2: "view w2 = fold (sweep_view (unat now)) xs (view w)"
    using exec_sweep [OF 2] xs(2) by simp
  obtain res w3 where 4: "exec srv (call (Redis (ZPOPMIN KEY_AVAILABLE)) as_scored) w2 = (Inr res, w3)"
    and 5: "exec srv (case res of
       [] \<Rightarrow> Ret (Inr None)
     | (s, _) # _ \<Rightarrow>
         attempt (ctx ''ZADD failed'' (redis_unit (ZADD KEY_LEASES (unat (now + ttl)) s))) (\<lambda>_.
         attempt (ctx ''SET failed'' (redis_unit (SET (key_owner s) i))) (\<lambda>_.
         Ret (Inr (Some s))))) w3 = (Inr r, w')"
    using 3 by (auto simp: exec_attempt_Inr exec_ctx_Inr simp del: exec_ctx exec_call)
  have pop: "redis_ok (ZPOPMIN KEY_AVAILABLE) (view w2) (Scored res) (view w3)"
    using 4 by (rule exec_scored)
  show ?thesis
  proof (cases res)
    case Nil
    with 5 pop v2 xs(1) show ?thesis by (auto simp: redis_ok_simps Let_def intro!: exI [of _ xs])
  next
    case (Cons x ys)
    obtain s f where x: "x = (s, f)" by (cases x)
    then have pop': "is_min (zsets (view w2) KEY_AVAILABLE) s f" "view w3 = zdrop KEY_AVAILABLE s (view w2)"
      using pop Cons by (auto simp: redis_ok_simps)
    have "r = Some s" "view w' = grant_view s (native_expiry now ttl) i (view w2)"
      using 5 Cons x pop'(2)
      by (auto simp: exec_attempt_Inr exec_ctx_Inr redis_ok_simps grant_view_def native_expiry_def
          simp del: exec_ctx dest!: exec_redis_unit)
    then show ?thesis using pop'(1) xs(1) unfolding v2 by (auto simp: Let_def)
  qed
qed

lemma claim_slot_spec:
  assumes "exec srv (claim_slot now i ttl) w = (Inr r, w')"
  shows "spec_op native_expiry (Claim now ttl i) (pool_of (view w)) (Slot r) (pool_of (view w'))"
  using claim_slot_view [OF assms] by (auto simp: Let_def intro: claim_outcome)

lemma native_claim:
  assumes "exec srv (cmd_claim i ttl) w = (Inr (), w')"
    and "clock_read srv (cmd_claim i ttl) w now" "printed srv (cmd_claim i ttl) w s"
  shows "spec_op native_expiry (Claim now ttl i) (pool_of (view w)) (Slot (Some s)) (pool_of (view w'))"
proof -
  let ?now = "as_millis (fst (srv w NowMs))" and ?w1 = "snd (srv w NowMs)"
  obtain b w2 where b: "exec srv (claim_slot ?now i ttl) ?w1 = (Inr b, w2)"
    using assms(1) by (auto simp: cmd_claim_def exec_bind exec_attempt_Inr)
  obtain n where n: "b = Some n"
    using assms(1) b by (cases b) (auto simp: cmd_claim_def exec_bind exec_attempt)
  have w': "view w' = view w2"
    using assms(1) b n by (auto simp: cmd_claim_def exec_bind exec_attempt dest!: native_publish_view)
  have tr: "trace srv (cmd_claim i ttl) w =
      (NowMs, fst (srv w NowMs)) # trace srv (claim_slot ?now i ttl) ?w1
      @ (Print n, fst (srv w2 (Print n)))
      # trace srv (publish_asg_change n ''claim'' None) (snd (srv w2 (Print n)))"
    using b n by (simp add: cmd_claim_def trace_bind trace_attempt)
  have "now = ?now"
    using assms(2) tr by (auto simp: clock_read_def dest!: publish_trace_native claim_slot_trace)
  moreover have "s = n"
    using assms(3) tr by (auto simp: printed_def dest!: publish_trace_native claim_slot_trace)
  ultimately show ?thesis using claim_slot_spec [OF b] n w' by simp
qed

lemma native_claim_none:
  assumes "exec srv (cmd_claim i ttl) w = (Inl Exit1, w')" "clock_read srv (cmd_claim i ttl) w now"
  shows "spec_op native_expiry (Claim now ttl i) (pool_of (view w)) (Slot None) (pool_of (view w'))"
proof -
  let ?now = "as_millis (fst (srv w NowMs))" and ?w1 = "snd (srv w NowMs)"
  obtain b w2 where b: "exec srv (claim_slot ?now i ttl) ?w1 = (Inr b, w2)"
    using assms(1)
    by (cases "exec srv (claim_slot ?now i ttl) ?w1"; cases "fst (exec srv (claim_slot ?now i ttl) ?w1)")
      (auto simp: cmd_claim_def exec_bind exec_attempt dest!: claim_slot_errs)
  have n: "b = None" "w' = w2"
    using assms(1) b
    by (cases b; auto simp: cmd_claim_def exec_bind exec_attempt dest!: publish_outcome_native)+
  have "now = ?now"
    using assms(2) b n
    by (auto simp: clock_read_def cmd_claim_def trace_bind trace_attempt dest!: claim_slot_trace)
  then show ?thesis using claim_slot_spec [OF b] n by simp
qed

lemma exec_owner:
  assumes "exec srv (attempt (ctx m (call (Redis (GET k)) as_bulk)) f) w = (x, w')"
  obtains (got) w1 where "view w1 = view w" "exec srv (f (strs (view w) k)) w1 = (x, w')"
      "trace srv (attempt (ctx m (call (Redis (GET k)) as_bulk)) f) w =
        (Redis (GET k), fst (srv w (Redis (GET k)))) # trace srv (f (strs (view w) k)) w1"
  | (failed) e where "x = Inl e" "\<not> refusal e"
proof (cases "exec srv (call (Redis (GET k)) as_bulk) w")
  case (Pair y w1)
  show thesis
  proof (cases y)
    case (Inl e)
    with assms Pair failed show ?thesis by (auto simp: exec_attempt)
  next
    case (Inr b)
    then have "redis_ok (GET k) (view w) (Bulk b) (view w1)" using Pair exec_bulk [of "GET k" w b w1] by simp
    then have "view w1 = view w" "b = strs (view w) k" by (auto simp: redis_ok_simps)
    with Inr Pair assms got show ?thesis by (auto simp: exec_attempt trace_attempt)
  qed
qed

lemma native_renew:
  assumes "exec srv (cmd_renew slot i ttl) w = (Inr (), w')" "clock_read srv (cmd_renew slot i ttl) w now"
  shows "spec_op native_expiry (Renew now ttl i slot) (pool_of (view w)) (Accepted True) (pool_of (view w'))"
  using assms(1) [unfolded cmd_renew_def Let_def]
proof (cases rule: exec_owner)
  case (got w1)
  let ?k = "show_word slot"
  have o: "strs (view w) (key_owner ?k) = Some i"
    using got(2) by (auto split: option.splits if_splits)
  let ?now = "as_millis (fst (srv w1 NowMs))" and ?w2 = "snd (srv w1 NowMs)"
  have "exec srv (redis_unit (ZADD KEY_LEASES (unat (?now + ttl)) ?k)) ?w2 = (Inr (), w')"
    using got(2) o by (auto simp: exec_bind exec_attempt_Inr exec_ctx_Inr simp del: exec_ctx)
  then have v: "view w' = zput KEY_LEASES ?k (native_expiry ?now ttl) (view w)"
    using got(1) by (auto simp: redis_ok_simps native_expiry_def dest!: exec_redis_unit)
  have "now = ?now"
    using assms(2) o unfolding clock_read_def cmd_renew_def Let_def got(3)
    by (auto simp: trace_bind trace_attempt redis_unit_def split: sum.splits prod.splits)
  then show ?thesis
    using spec_op.renewed [of "pool_of (view w)" slot i native_expiry now ttl] o
    by (simp add: v pool_renew_view)
qed auto

lemma native_renew_refused:
  assumes "exec srv (cmd_renew slot i ttl) w = (Inl e, w')" "refusal e"
  shows "spec_op x (Renew now ttl i slot) (pool_of (view w)) (Accepted False) (pool_of (view w'))"
  using assms(1) [unfolded cmd_renew_def Let_def]
proof (cases rule: exec_owner)
  case (got w1)
  have "strs (view w) (key_owner (show_word slot)) \<noteq> Some i"
    using got(2) assms(2)
    by (auto simp: exec_bind exec_attempt simp del: exec_ctx split: sum.splits prod.splits
        dest: ctx_not_refusal)
  moreover from this have "view w' = view w"
    using got(1,2) by (auto split: option.splits if_splits)
  ultimately show ?thesis by (auto intro: spec_op.not_renewed)
qed (use assms(2) in auto)

lemma native_release:
  assumes "exec srv (cmd_release slot i) w = (Inr (), w')" "clock_read srv (cmd_release slot i) w now"
  shows "spec_op x (Release now i slot) (pool_of (view w)) (Accepted True) (pool_of (view w'))"
  using assms(1) [unfolded cmd_release_def Let_def]
proof (cases rule: exec_owner)
  case (got w1)
  let ?k = "show_word slot"
  have o: "strs (view w) (key_owner ?k) = Some i"
    using got(2) by (auto split: option.splits if_splits)
  let ?now = "as_millis (fst (srv w1 NowMs))" and ?w2 = "snd (srv w1 NowMs)"
  have v: "view w' = release_view ?k (unat ?now) (view w)"
    using got(1,2) o
    by (auto simp: exec_bind exec_attempt_Inr exec_ctx_Inr redis_ok_simps release_view_def
        simp del: exec_ctx dest!: exec_redis_unit native_publish_view)
  have "now = ?now"
    using assms(2) o unfolding clock_read_def cmd_release_def Let_def got(3)
    by (auto simp: trace_bind trace_attempt redis_unit_def publish_asg_change_def
        split: sum.splits prod.splits)
  then show ?thesis
    using spec_op.released [of "pool_of (view w)" slot i x now] o
    by (simp add: v pool_release_view)
qed auto

lemma native_release_refused:
  assumes "exec srv (cmd_release slot i) w = (Inl e, w')" "refusal e"
  shows "spec_op x (Release now i slot) (pool_of (view w)) (Accepted False) (pool_of (view w'))"
  using assms(1) [unfolded cmd_release_def Let_def]
proof (cases rule: exec_owner)
  case (got w1)
  have "strs (view w) (key_owner (show_word slot)) \<noteq> Some i"
    using got(2) assms(2)
    by (auto simp: exec_bind exec_attempt simp del: exec_ctx split: sum.splits prod.splits
        dest: ctx_not_refusal publish_outcome_native)
  moreover from this have "view w' = view w"
    using got(1,2) by (auto split: option.splits if_splits)
  ultimately show ?thesis by (auto intro: spec_op.not_released)
qed (use assms(2) in auto)

lemma exec_init_slot:
  "exec srv (init_slot s n) w = (Inr m, w') \<Longrightarrow> view w' = init_view s (view w)"
  by (auto simp: init_slot_def exec_attempt_Inr exec_ctx_Inr redis_ok_simps init_view_def
      simp del: exec_ctx exec_call dest!: exec_score exec_count split: if_splits)

lemma exec_init_slots:
  "exec srv (for_try init_slot xs n) w = (Inr m, w') \<Longrightarrow> view w' = fold init_view xs (view w)"
  by (induction xs arbitrary: n w) (auto simp: exec_attempt_Inr dest!: exec_init_slot)

lemma native_init:
  assumes "exec srv (cmd_init lo hi) w = (Inr (), w')"
  shows "spec_op x (Init lo hi) (pool_of (view w)) (Added n) (pool_of (view w'))"
proof -
  obtain m where "exec srv (for_try init_slot (slot_names lo hi) 0) w = (Inr m, w')"
    using assms by (auto simp: cmd_init_def exec_attempt_Inr split: if_splits)
  then show ?thesis by (auto dest!: exec_init_slots simp: pool_init_list intro: spec_op.init)
qed

end

sublocale redis_service \<subseteq> native: slot_pool "\<lambda>w. pool_of (view w)" native_expiry "cli_does native_cli srv"
proof
  fix a w r w'
  assume "cli_does native_cli srv a w r w'"
  then show "spec_op native_expiry a (pool_of (view w)) r (pool_of (view w'))"
    by (cases rule: cli_doesE [consumes 1])
      (auto simp: native_cli_def intro: native_init native_claim native_claim_none native_renew
        native_renew_refused native_release native_release_refused)
qed

context redis_service
begin

lemma native_pool: "slot_pool (\<lambda>w. pool_of (view w)) native_expiry (cli_does native_cli srv)"
  by (rule native.slot_pool_axioms)

end

end
