(* ===== verification/Concurrency.thy ===== *)
theory Concurrency
  imports Effects
begin

text \<open>
  Several programs that run at once against one service: the commands of an interleaved run in the
  order in which the service carries them out (\<open>steps\<close>), what each program has issued of them
  (\<open>own\<close>), and the two facts that tie them to the sequential notions: the service has served the
  commands one after the other, and each program has begun a run of its own.
\<close>

section \<open>The steps of an interleaved run\<close>

definition issued ::
    "('w \<Rightarrow> 'c \<Rightarrow> 'r \<times> 'w) \<Rightarrow> nat \<Rightarrow> ('c, 'r, 'a) prog list \<times> 'w \<Rightarrow> (nat \<times> 'c \<times> 'r) list" where
  "issued srv i s = (case s of (ps, w) \<Rightarrow>
     if i < length ps
     then (case ps ! i of Ret a \<Rightarrow> [] | Op c k \<Rightarrow> [(i, c, fst (srv w c))])
     else [])"

fun steps ::
    "('w \<Rightarrow> 'c \<Rightarrow> 'r \<times> 'w) \<Rightarrow> nat list \<Rightarrow> ('c, 'r, 'a) prog list \<times> 'w \<Rightarrow> (nat \<times> 'c \<times> 'r) list" where
  "steps srv [] s = []"
| "steps srv (i # is) s = issued srv i s @ steps srv is (turn srv i s)"

definition own :: "nat \<Rightarrow> (nat \<times> 'c \<times> 'r) list \<Rightarrow> ('c \<times> 'r) list" where
  "own j l = map snd (filter (\<lambda>x. fst x = j) l)"

lemma own_simps [simp]:
  "own j [] = []" "own j (x # l) = (if fst x = j then [snd x] else []) @ own j l"
  "own j (l @ l') = own j l @ own j l'"
  by (simp_all add: own_def)

lemma in_own: "(c, r) \<in> set (own j l) \<longleftrightarrow> (j, c, r) \<in> set l"
  by (force simp: own_def)

text \<open>The service answers the commands one after the other.\<close>

primrec served :: "('w \<Rightarrow> 'c \<Rightarrow> 'r \<times> 'w) \<Rightarrow> 'w \<Rightarrow> (nat \<times> 'c \<times> 'r) list \<Rightarrow> 'w \<Rightarrow> bool" where
  "served srv w [] w' = (w' = w)"
| "served srv w (x # l) w' = (case x of (j, c, r) \<Rightarrow>
     fst (srv w c) = r \<and> served srv (snd (srv w c)) l w')"

text \<open>\<open>begun p h q\<close>: after the commands and replies \<open>h\<close>, \<open>q\<close> is what \<open>p\<close> has left to do.\<close>

inductive begun :: "('c, 'r, 'a) prog \<Rightarrow> ('c \<times> 'r) list \<Rightarrow> ('c, 'r, 'a) prog \<Rightarrow> bool" where
  begun_here: "begun p [] p"
| begun_Op: "begun (k r) h q \<Longrightarrow> begun (Op c k) ((c, r) # h) q"

inductive_simps begun_Nil [simp]: "begun p [] q"

lemma runs_total: "\<exists>t a. runs p t a"
proof (induction p)
  case (Op c k)
  then obtain r t a where "runs (k r) t a" by blast
  then show ?case by (auto intro: runs_Op)
qed (auto intro: runs_Ret)

lemma begun_runs: "begun p h q \<Longrightarrow> \<exists>t a. runs p (h @ t) a"
  by (induction rule: begun.induct) (auto intro: runs_total runs.intros)

lemma begun_Ret: "begun p h q \<Longrightarrow> q = Ret a \<Longrightarrow> runs p h a"
  by (induction rule: begun.induct) (auto intro: runs.intros)

lemma turn_served: "served srv (snd s) (issued srv i s) (snd (turn srv i s))"
  by (cases s) (auto simp: issued_def turn_def Let_def split: prog.splits)

lemma served_append:
  "served srv w l w1 \<Longrightarrow> served srv w1 l' w' \<Longrightarrow> served srv w (l @ l') w'"
  by (induction l arbitrary: w) auto

lemma interleave_served: "served srv (snd s) (steps srv sch s) (snd (interleave srv sch s))"
proof (induction sch arbitrary: s)
  case (Cons i sch)
  show ?case using served_append [OF turn_served Cons] by simp
qed simp

lemma length_turn [simp]: "length (fst (turn srv i s)) = length (fst s)"
  by (cases s) (simp add: turn_def Let_def split: prog.splits)

lemma turn_begun:
  assumes "j < length (fst s)" "begun (fst (turn srv i s) ! j) h q"
  shows "begun (fst s ! j) (own j (issued srv i s) @ h) q"
proof (cases "fst s ! i")
  case (Ret a)
  then show ?thesis using assms by (cases s; cases "i < length (fst s)") (auto simp: turn_def issued_def)
next
  case (Op c k)
  then show ?thesis using assms
    by (cases s; cases "i = j"; cases "i < length (fst s)")
      (auto simp: turn_def issued_def Let_def intro: begun_Op)
qed

lemma interleave_begun:
  "j < length (fst s) \<Longrightarrow> begun (fst s ! j) (own j (steps srv sch s)) (fst (interleave srv sch s) ! j)"
proof (induction sch arbitrary: s)
  case (Cons i sch)
  then show ?case using turn_begun [OF Cons.prems Cons.IH] by simp
qed simp

lemma issued_index:
  assumes "x \<in> set (issued srv i s)"
  shows "fst x < length (fst s)"
proof -
  obtain ps w where s: "s = (ps, w)" by (cases s)
  show ?thesis
  proof (cases "i < length ps")
    case True
    with assms s show ?thesis by (cases "ps ! i") (simp_all add: issued_def)
  qed (use assms s in \<open>simp add: issued_def\<close>)
qed

lemma steps_index: "x \<in> set (steps srv sch s) \<Longrightarrow> fst x < length (fst s)"
proof (induction sch arbitrary: s)
  case (Cons i sch)
  then show ?case using Cons.IH [of "turn srv i s"] issued_index [of x srv i s]
    by (simp add: disj_imp) blast
qed simp

text \<open>What a program can emit at all, it emits in every interleaving.\<close>

lemma steps_emits:
  assumes "\<And>j. j < length (fst s) \<Longrightarrow> emits P (fst s ! j)" "(j, c, r) \<in> set (steps srv sch s)"
  shows "P c"
proof -
  have j: "j < length (fst s)" using steps_index [OF assms(2)] by simp
  obtain t a where "runs (fst s ! j) (own j (steps srv sch s) @ t) a"
    using begun_runs [OF interleave_begun [OF j]] by blast
  moreover have "(c, r) \<in> set (own j (steps srv sch s))" using assms(2) by (simp add: in_own)
  ultimately show ?thesis using emits_runs [OF _ assms(1) [OF j]] by fastforce
qed

end
