(* ===== verification/Guarded.thy ===== *)
theory Guarded
  imports Concurrency
begin

text \<open>
  What a program may do after what it has seen.  \<open>guarded G p Q h\<close>: after the commands and replies
  \<open>h\<close>, every command that \<open>p\<close> issues is allowed by \<open>G\<close> in view of all that was issued and answered
  before it, and what \<open>p\<close> returns satisfies \<open>Q\<close>; it is the weakest precondition of \<open>p\<close> over
  histories.  It carries over to the commands of each program of an interleaved run.
\<close>

section \<open>Weakest preconditions over histories\<close>

primrec guarded ::
    "(('c \<times> 'r) list \<Rightarrow> 'c \<Rightarrow> bool) \<Rightarrow> ('c, 'r, 'a) prog \<Rightarrow> (('c \<times> 'r) list \<Rightarrow> 'a \<Rightarrow> bool) \<Rightarrow> ('c \<times> 'r) list \<Rightarrow> bool" where
  "guarded G (Ret a) Q h = Q h a"
| "guarded G (Op c k) Q h = (G h c \<and> (\<forall>r. guarded G (k r) Q (h @ [(c, r)])))"

abbreviation safe :: "(('c \<times> 'r) list \<Rightarrow> 'c \<Rightarrow> bool) \<Rightarrow> ('c, 'r, 'a) prog \<Rightarrow> ('c \<times> 'r) list \<Rightarrow> bool" where
  "safe G p h \<equiv> guarded G p (\<lambda>_ _. True) h"

lemma guarded_bind [simp]: "guarded G (bind p f) Q h = guarded G p (\<lambda>h a. guarded G (f a) Q h) h"
  by (induction p arbitrary: h) auto

lemma guarded_attempt [simp]:
  "guarded G (attempt p f) Q h =
     guarded G p (\<lambda>h x. case x of Inl e \<Rightarrow> Q h (Inl e) | Inr a \<Rightarrow> guarded G (f a) Q h) h"
  unfolding attempt_def guarded_bind
  by (rule arg_cong [where f = "\<lambda>R. guarded G p R h"]) (auto simp: fun_eq_iff split: sum.splits)

lemma guarded_call [simp]: "guarded G (call c d) Q h = (G h c \<and> (\<forall>r. Q (h @ [(c, r)]) (d r)))"
  by (simp add: call_def)

lemma guarded_ctx [simp]: "guarded G (ctx m p) Q h = guarded G p (\<lambda>h x. Q h (with_ctx m x)) h"
  by (simp add: ctx_def)

lemma guarded_mono:
  "guarded G p Q h \<Longrightarrow> (\<And>h c. G h c \<Longrightarrow> G' h c) \<Longrightarrow> (\<And>h a. Q h a \<Longrightarrow> Q' h a) \<Longrightarrow> guarded G' p Q' h"
  by (induction p arbitrary: h) auto

lemma guarded_post: "guarded G p Q h \<Longrightarrow> (\<And>h a. Q h a \<Longrightarrow> Q' h a) \<Longrightarrow> guarded G p Q' h"
  by (rule guarded_mono)

lemma guarded_emits: "emits P p \<Longrightarrow> (\<And>h c. P c \<Longrightarrow> G h c) \<Longrightarrow> safe G p h"
  by (induction p arbitrary: h) auto

lemma safe_bind: "safe G p h \<Longrightarrow> (\<And>h a. safe G (f a) h) \<Longrightarrow> safe G (bind p f) h"
  by (auto intro: guarded_post)

lemma safe_attempt: "safe G p h \<Longrightarrow> (\<And>h a. safe G (f a) h) \<Longrightarrow> safe G (attempt p f) h"
  by (auto intro!: guarded_post split: sum.splits)

text \<open>Histories only grow.\<close>

lemma guarded_extends:
  "guarded G p Q h \<Longrightarrow> guarded G p (\<lambda>h' a. Q h' a \<and> (\<exists>t. h' = h @ t)) h"
proof (induction p arbitrary: h)
  case (Op c k)
  have "guarded G (k r) (\<lambda>h' a. Q h' a \<and> (\<exists>t. h' = h @ t)) (h @ [(c, r)])" for r
    using Op.prems by (auto intro: guarded_post [OF Op.IH [of "k r"]])
  then show ?case using Op.prems by simp
qed simp

lemma guarded_for_try:
  assumes "Q h (Inr s)"
    and "\<And>h x s. x \<in> set xs \<Longrightarrow> Q h (Inr s) \<Longrightarrow> guarded G (body x s) Q h"
  shows "guarded G (for_try body xs s) Q h"
  using assms
proof (induction xs arbitrary: s h)
  case (Cons x xs)
  have "guarded G (body x s) Q h" using Cons.prems by simp
  then have "guarded G (body x s)
      (\<lambda>h y. case y of Inl e \<Rightarrow> Q h (Inl e) | Inr s \<Rightarrow> guarded G (for_try body xs s) Q h) h"
    by (rule guarded_post) (use Cons.prems(2) in \<open>auto split: sum.splits intro!: Cons.IH\<close>)
  then show ?case by simp
qed simp

section \<open>In a run\<close>

lemma begun_guarded: "begun p h q \<Longrightarrow> guarded G p Q h0 \<Longrightarrow> guarded G q Q (h0 @ h)"
  by (induction arbitrary: h0 rule: begun.induct) force+

lemma begun_allowed:
  assumes "begun p h q" "guarded G p Q h0" "h = h1 @ (c, r) # h2"
  shows "G (h0 @ h1) c"
  using assms
proof (induction arbitrary: h0 h1 rule: begun.induct)
  case (begun_Op k r' h q c')
  show ?case
  proof (cases h1)
    case Nil
    then show ?thesis using begun_Op.prems by simp
  next
    case (Cons x u)
    then have "G ((h0 @ [(c', r')]) @ u) c" using begun_Op.prems by (intro begun_Op.IH) auto
    then show ?thesis using Cons begun_Op.prems by simp
  qed
qed simp

lemma runs_begun: "runs p t a \<Longrightarrow> begun p t (Ret a)"
  by (induction rule: runs.induct) (auto intro: begun.intros)

lemma runs_allowed:
  assumes "runs p t a" "guarded G p Q []" "t = u @ (c, r) # v"
  shows "G u c"
  using begun_allowed [OF runs_begun [OF assms(1)] assms(2,3)] by simp

text \<open>In an interleaved run, with an allowance for each of the programs.\<close>

lemma step_allowed:
  assumes "\<And>j. j < length ps \<Longrightarrow> safe (G j) (ps ! j) []"
    and "steps srv sch (ps, w) = l1 @ (j, c, r) # l2"
  shows "G j (own j l1) c"
proof -
  have j: "j < length ps"
    using steps_index [of "(j, c, r)" srv sch "(ps, w)"] assms(2) by simp
  have "own j (steps srv sch (ps, w)) = own j l1 @ (c, r) # own j l2"
    by (simp add: assms(2))
  moreover have "begun (ps ! j) (own j (steps srv sch (ps, w))) (fst (interleave srv sch (ps, w)) ! j)"
    using interleave_begun [where s = "(ps, w)" and j = j and srv = srv and sch = sch] j by simp
  ultimately have "G j ([] @ own j l1) c" by (intro begun_allowed [OF _ assms(1) [OF j]])
  then show ?thesis by simp
qed

lemmas steps_allowed = step_allowed [where G = "\<lambda>_. G" for G]

text \<open>The states that a served sequence of commands goes through.\<close>

lemma served_snoc:
  "served srv w (l @ [(j, c, r)]) w' \<longleftrightarrow> (\<exists>w1. served srv w l w1 \<and> srv w1 c = (r, w'))"
  by (induction l arbitrary: w) (auto simp: prod_eq_iff)

lemma served_split: "served srv w (l @ l') w' \<Longrightarrow> \<exists>w1. served srv w l w1 \<and> served srv w1 l' w'"
  by (induction l arbitrary: w) auto

end
