(* ===== verification/Slot_Heartbeat.thy ===== *)
theory Slot_Heartbeat
  imports Slot_Native Guarded
begin

text \<open>
  \<open>cmd_heartbeat\<close> of \<open>aeroslot/src/main.rs\<close>: renew on every tick until SIGTERM, retrying a renewal
  that failed on a transient Redis error.  The retry loop ends, by the number of retries left; the
  tick loop runs until SIGTERM or an error, so it takes a bound on the ticks and returns \<open>None\<close>
  when they are used up.
\<close>

fun is_redis_io_error :: "err \<Rightarrow> bool" where
  "is_redis_io_error (RedisFault f) = (f = IoError \<or> f = ConnectionDropped)"
| "is_redis_io_error (Context m e) = is_redis_io_error e"
| "is_redis_io_error _ = False"

record heartbeat =
  hb_slot :: u32
  hb_instance :: string
  hb_ttl_ms :: u64
  hb_interval :: u64
  hb_retry_attempts :: u32
  hb_retry_delay_ms :: u64

definition give_up :: "u32 \<Rightarrow> err \<Rightarrow> err" where
  "give_up attempts e =
     Context (if attempts > 0 then ''Renew failed after '' @ show_word attempts @ '' reconnect attempt(s)''
              else ''Renew failed with a non-retryable error'') e"

lemma unat_attempts: "a < (b :: u32) \<Longrightarrow> unat (a + 1) = Suc (unat a)"
  using unsigned_less [of b, where 'a = nat] by (simp add: word_less_nat_alt unat_word_ariths)

function renew_with_retry :: "heartbeat \<Rightarrow> u32 \<Rightarrow> unit rio" where
  "renew_with_retry h attempts =
     bind (cmd_renew (hb_slot h) (hb_instance h) (hb_ttl_ms h)) (\<lambda>x.
       case x of
         Inr u \<Rightarrow> Ret (Inr ())
       | Inl e \<Rightarrow>
           if is_redis_io_error e \<and> attempts < hb_retry_attempts h
           then bind (Op (Sleep (unat (hb_retry_delay_ms h))) Ret) (\<lambda>_.
                bind (Op RedisConnect Ret) (\<lambda>_.
                renew_with_retry h (attempts + 1)))
           else Ret (Inl (give_up attempts e)))"
  by pat_completeness auto
termination
  by (relation "measure (\<lambda>(h, attempts). unat (hb_retry_attempts h) - unat attempts)")
    (auto simp: word_less_nat_alt unat_attempts [unfolded word_less_nat_alt] intro!: diff_less_mono2)

declare renew_with_retry.simps [simp del]

fun heartbeat_loop :: "nat \<Rightarrow> heartbeat \<Rightarrow> unit result option io" where
  "heartbeat_loop 0 h = Ret None"
| "heartbeat_loop (Suc ticks) h =
     bind (renew_with_retry h 0) (\<lambda>x.
       case x of
         Inl e \<Rightarrow> Ret (Some (Inl e))
       | Inr u \<Rightarrow> Op (SleepOrTerm (unat (hb_interval h))) (\<lambda>sigterm.
           if sigterm = Flag True then Ret (Some (Inr ())) else heartbeat_loop ticks h))"

definition cmd_heartbeat :: "nat \<Rightarrow> heartbeat \<Rightarrow> unit result option io" where
  "cmd_heartbeat ticks h =
     bind (attempt (ctx ''Failed to register SIGTERM handler'' (call RegisterSigterm (as_unit LibFault))) (\<lambda>_.
           ctx ''Failed to connect to Redis'' (call RedisConnect (as_unit RedisFault)))) (\<lambda>x.
       case x of Inl e \<Rightarrow> Ret (Some (Inl e)) | Inr u \<Rightarrow> heartbeat_loop ticks h)"

section \<open>Retries are bounded, and only transient errors are retried\<close>

definition sleeps :: "(cmd \<times> reply) list \<Rightarrow> nat" where
  "sleeps t = length (filter (\<lambda>x. \<exists>n. fst x = Sleep n) t)"

lemma sleeps_simps [simp]:
  "sleeps [] = 0" "sleeps (x # t) = (if \<exists>n. fst x = Sleep n then 1 else 0) + sleeps t"
  "sleeps (t @ t') = sleeps t + sleeps t'"
  by (simp_all add: sleeps_def)

lemma emits_cmd_renew:
  assumes "\<And>rc. rc = GET (key_owner (show_word s)) \<or> (\<exists>n. rc = ZADD KEY_LEASES n (show_word s)) \<Longrightarrow> P (Redis rc)"
    and "P NowMs"
  shows "emits P (cmd_renew s i ttl)"
  unfolding cmd_renew_def Let_def
  using assms by (auto intro!: emits_attemptI emits_bindI split: option.splits)

lemma renew_no_sleep: "runs (cmd_renew s i ttl) t x \<Longrightarrow> sleeps t = 0"
  using emits_runs [where P = "\<lambda>c. \<forall>n. c \<noteq> Sleep n", OF _ emits_cmd_renew]
  by (fastforce simp: sleeps_def filter_empty_conv)

lemma renew_with_retry_runs:
  assumes "runs (renew_with_retry h attempts) t x" "attempts \<le> hb_retry_attempts h"
  shows "sleeps t \<le> unat (hb_retry_attempts h) - unat attempts \<and>
    (\<forall>e. x = Inl e \<longrightarrow> (\<exists>n e'. e = give_up n e' \<and> unat n = unat attempts + sleeps t \<and>
      (is_redis_io_error e' \<longrightarrow> n = hb_retry_attempts h)))"
  using assms
proof (induction h attempts arbitrary: t rule: renew_with_retry.induct)
  case (1 h attempts)
  from "1.prems"(1) obtain t1 t2 y where t: "t = t1 @ t2"
    and r1: "runs (cmd_renew (hb_slot h) (hb_instance h) (hb_ttl_ms h)) t1 y"
    and r2: "runs (case y of
         Inr u \<Rightarrow> Ret (Inr ())
       | Inl e \<Rightarrow>
           if is_redis_io_error e \<and> attempts < hb_retry_attempts h
           then bind (Op (Sleep (unat (hb_retry_delay_ms h))) Ret) (\<lambda>_.
                bind (Op RedisConnect Ret) (\<lambda>_.
                renew_with_retry h (attempts + 1)))
           else Ret (Inl (give_up attempts e))) t2 x"
    by (subst (asm) renew_with_retry.simps) (auto elim!: runs_bindE)
  note z = renew_no_sleep [OF r1]
  show ?case
  proof (cases y)
    case (Inr u)
    with r2 t z show ?thesis by auto
  next
    case (Inl e)
    show ?thesis
    proof (cases "is_redis_io_error e \<and> attempts < hb_retry_attempts h")
      case True
      from r2 Inl True obtain a b t3 where t2: "t2 = (Sleep (unat (hb_retry_delay_ms h)), a) # (RedisConnect, b) # t3"
        and r3: "runs (renew_with_retry h (attempts + 1)) t3 x"
        by (auto simp: runs_Op_iff)
      have le: "attempts + 1 \<le> hb_retry_attempts h"
        using True by (simp add: inc_le)
      have s: "sleeps t = Suc (sleeps t3)" using t t2 z by simp
      have u: "unat (attempts + 1) = Suc (unat attempts)" using True unat_attempts by blast
      have "unat attempts < unat (hb_retry_attempts h)" using True by (simp add: word_less_nat_alt)
      then show ?thesis
        using "1.IH" [OF Inl True r3 le] unfolding s u by auto
    next
      case False
      with r2 Inl t z "1.prems"(2) show ?thesis by (auto simp: order_le_less)
    qed
  qed
qed

text \<open>
  The heartbeat changes nothing but the lease of its own slot, and it renews only as the owner: the
  renewal comes right after Redis has named its instance and the clock has been read.
\<close>

definition renews_as_owner :: "heartbeat \<Rightarrow> (cmd \<times> reply) list \<Rightarrow> cmd \<Rightarrow> bool" where
  "renews_as_owner hb h c \<longleftrightarrow> mutates c \<longrightarrow>
     (\<exists>h' clk. h = h' @ [(Redis (GET (key_owner (show_word (hb_slot hb)))), Bulk (Some (hb_instance hb))), (NowMs, clk)] \<and>
       c = Redis (ZADD KEY_LEASES (unat (as_millis clk + hb_ttl_ms hb)) (show_word (hb_slot hb))))"

lemma renew_as_owner: "safe (renews_as_owner hb) (cmd_renew (hb_slot hb) (hb_instance hb) (hb_ttl_ms hb)) h"
  by (auto simp: cmd_renew_def now_ms_def redis_unit_def renews_as_owner_def decode_Inr Let_def
      split: sum.splits option.splits)

lemma retry_as_owner: "safe (renews_as_owner hb) (renew_with_retry hb attempts) h"
proof (induction hb attempts arbitrary: h rule: renew_with_retry.induct)
  case (1 hb attempts)
  show ?case
    by (subst renew_with_retry.simps, rule safe_bind [OF renew_as_owner])
      (auto simp: 1 renews_as_owner_def split: sum.splits)
qed

lemma heartbeat_loop_as_owner: "safe (renews_as_owner hb) (heartbeat_loop ticks hb) h"
proof (induction ticks arbitrary: h)
  case (Suc ticks)
  show ?case
    unfolding heartbeat_loop.simps
    by (rule safe_bind [OF retry_as_owner]) (auto simp: Suc renews_as_owner_def split: sum.splits)
qed simp

lemma heartbeat_as_owner: "safe (renews_as_owner hb) (cmd_heartbeat ticks hb) h"
  by (auto simp: cmd_heartbeat_def heartbeat_loop_as_owner renews_as_owner_def split: sum.splits)

text \<open>It ends well only on SIGTERM.\<close>

lemma heartbeat_loop_ends_on_term:
  "runs (heartbeat_loop n h) t (Some (Inr u)) \<Longrightarrow> (SleepOrTerm (unat (hb_interval h)), Flag True) \<in> set t"
proof (induction n arbitrary: t)
  case (Suc n)
  then show ?case
    by (auto simp: runs_Op_iff split: sum.splits if_splits elim!: runs_bindE)
qed simp

end
