(* ===== verification/Slot_Runs.thy ===== *)
theory Slot_Runs
  imports Slot_Heartbeat
begin

text \<open>
  The two implementations side by side: run alone they do the same, and concrete runs show what the
  native commands allow when other clients' commands or failures come between them.
\<close>

section \<open>An in-memory service that runs scripts\<close>

definition mem_script_srv :: "mem \<Rightarrow> cmd \<Rightarrow> reply \<times> mem" where
  "mem_script_srv w c =
     (case c of
        EvalScript sc \<Rightarrow>
          (let x = next_fate w; y = exec (\<lambda>w c. mem_apply c w) (script_prog sc) (snd x)
           in case fst x of
                Works \<Rightarrow> y
              | Lost \<Rightarrow> (Failed IoError, snd x)
              | DoneThenLost \<Rightarrow> (Failed IoError, snd y))
      | _ \<Rightarrow> mem_srv w c)"

lemma mem_atomically:
  "exec (\<lambda>w c. mem_apply c w) p w = (a, w') \<Longrightarrow> atomically p (mem_view w) a (mem_view w')"
proof (induction p arbitrary: w)
  case (Op c k)
  obtain r w1 where c: "mem_apply c w = (r, w1)" by (cases "mem_apply c w")
  with Op.prems have "exec (\<lambda>w c. mem_apply c w) (k r) w1 = (a, w')" by simp
  then have "atomically (k r) (mem_view w1) a (mem_view w')" by (rule Op.IH [OF rangeI])
  then show ?case using mem_apply_ok [OF c] by auto
qed simp

interpretation mem_scripts: redis_scripting mem_script_srv mem_view
proof
  fix w c r w'
  assume "mem_script_srv w (Redis c) = (r, w')" "\<forall>f. r \<noteq> Failed f"
  then show "redis_ok c (mem_view w) r (mem_view w')"
    by (auto simp: mem_script_srv_def intro: mem.carried_out)
next
  fix w c f w'
  assume "mem_script_srv w (Redis c) = (Failed f, w')"
  then show "mem_view w' = mem_view w \<or> (\<exists>r. redis_ok c (mem_view w) r (mem_view w'))"
    by (auto simp: mem_script_srv_def dest: mem.failed)
next
  fix w c r w'
  assume "mem_script_srv w c = (r, w')" "\<forall>rc. c \<noteq> Redis rc" "\<forall>sc. c \<noteq> EvalScript sc"
  then show "mem_view w' = mem_view w"
    by (auto simp: mem_script_srv_def dest: mem.not_redis split: cmd.splits)
next
  fix w sc r w'
  assume "mem_script_srv w (EvalScript sc) = (r, w')" "\<forall>f. r \<noteq> Failed f"
  then have "exec (\<lambda>w c. mem_apply c w) (script_prog sc) (snd (next_fate w)) = (r, w')"
    by (auto simp: mem_script_srv_def Let_def split: fate.splits)
  from mem_atomically [OF this] show "atomically (script_prog sc) (mem_view w) r (mem_view w')"
    by simp
next
  fix w sc f w'
  assume a: "mem_script_srv w (EvalScript sc) = (Failed f, w')"
  obtain r w1 where y: "exec (\<lambda>w c. mem_apply c w) (script_prog sc) (snd (next_fate w)) = (r, w1)"
    by (cases "exec (\<lambda>w c. mem_apply c w) (script_prog sc) (snd (next_fate w))")
  from mem_atomically [OF this] a
  show "mem_view w' = mem_view w \<or> (\<exists>r. atomically (script_prog sc) (mem_view w) r (mem_view w'))"
    by (auto simp: mem_script_srv_def Let_def y split: fate.splits)
qed

section \<open>The contract determines the outcome\<close>

lemma is_min_not_empty: "is_min z m s \<Longrightarrow> \<exists>m. z m \<noteq> None"
  by (auto simp: is_min_def)

lemma spec_op_unique:
  assumes "spec_op e a p r p1" "spec_op e' a p r' p2"
    and "\<And>now ttl i. a = Claim now ttl i \<Longrightarrow> e now ttl = e' now ttl"
    and "\<And>now ttl i s. a = Renew now ttl i s \<Longrightarrow> e now ttl = e' now ttl"
  shows "p1 = p2 \<and> ((\<forall>lo hi. a \<noteq> Init lo hi) \<longrightarrow> r = r')"
  using assms
  by (induction rule: spec_op.induct)
    (auto elim!: spec_opE dest: is_min_unique is_min_not_empty)

lemma expiry_same: "unat now + unat ttl < 2 ^ 64 \<Longrightarrow> lua_expiry now ttl = native_expiry now ttl"
  by (simp add: lua_expiry_def native_expiry_def unat_add_no_wrap)

section \<open>Concrete runs\<close>

fun finished :: "('c, 'r, 'a) prog \<Rightarrow> 'a option" where
  "finished (Ret a) = Some a"
| "finished (Op c k) = None"

text \<open>Slot 7 is leased to \<open>old\<close> until 100, and the clock shows 200.\<close>

definition late :: mem where
  "late = mem_empty\<lparr>clock := 200, mz := (\<lambda>_. [])(KEY_LEASES := [(''7'', 100)]),
                    ms := [key_owner ''7'' \<mapsto> ''old'']\<rparr>"

text \<open>
  Two claims sweep the same expired lease: both read the expired slots, the first takes slot 7, and
  the second then takes it away again in its own sweep.
\<close>

definition two_claims :: "string option result option list" where
  "two_claims = map finished (fst (interleave mem_srv ([0, 1] @ replicate 6 0 @ replicate 6 1)
     ([claim_slot 200 ''i-a'' 1000, claim_slot 200 ''i-b'' 1000], late)))"

lemma two_claims_run: "two_claims = [Some (Inr (Some ''7'')), Some (Inr (Some ''7''))]"
  by code_simp

text \<open>
  The sweep returns the slot to the free set before it drops the owner.  When the connection is
  lost in between, the old owner's next renewal leases a slot that is free.
\<close>

lemma show_sample_slots: "show_word (7 :: u32) = ''7''" "show_word (8 :: u32) = ''8''"
  by code_simp+

definition lost_sweep :: "string option result \<times> unit result \<times> mem" where
  "lost_sweep =
     (let x = exec mem_srv (claim_slot 200 ''i-b'' 1000)
                (late\<lparr>fates := [Works, Works, Works, Lost]\<rparr>);
          y = exec mem_srv (cmd_renew 7 ''old'' 1000) (snd x)
      in (fst x, fst y, snd y))"

lemmas mem_run_defs = exec_attempt exec_bind mem_srv_def next_fate_def Let_def late_def mem_empty_def
  claim_slot_def sweep_slot_def cmd_renew_def decode_defs redis_unit_def as_millis_def
  alist_put_def alist_drop_def alist_sorted_def zrank_def KEY_AVAILABLE_def KEY_LEASES_def key_owner_def

lemma lost_sweep_run:
  "fst (snd lost_sweep) = Inr ()"
  "map_of (mz (snd (snd lost_sweep)) KEY_AVAILABLE) ''7'' = Some 200"
  "map_of (mz (snd (snd lost_sweep)) KEY_LEASES) ''7'' = Some 1200"
  by (simp_all add: lost_sweep_def mem_run_defs show_sample_slots)

text \<open>
  A claim that has popped a slot and then loses the connection has removed the slot from the pool.
\<close>

definition lost_pop :: "string option result \<times> mem" where
  "lost_pop = exec mem_srv (claim_slot 200 ''i-b'' 1000)
     (mem_empty\<lparr>mz := (\<lambda>_. [])(KEY_AVAILABLE := [(''7'', 0)]), fates := [Works, Works, Lost]\<rparr>)"

lemma lost_pop_run:
  "mz (snd lost_pop) KEY_AVAILABLE = []" "mz (snd lost_pop) KEY_LEASES = []"
  by code_simp+

lemma late_ok: "pool_ok (pool_of (mem_view late))"
  by (auto simp: pool_ok_def late_def mem_empty_def KEY_AVAILABLE_def KEY_LEASES_def key_owner_def
      fun_eq_iff dom_def split: if_splits)

section \<open>Single commands against the in-memory service\<close>

text \<open>The late lease is renewed, and the late slot is claimed, by either tool.\<close>

lemmas mem_cli_defs = clock_read_def printed_def mem_run_defs show_sample_slots trace_attempt trace_bind
  with_ctx_def now_ms_def

lemma mem_publish [simp]:
  assumes "fates w = []"
  shows "exec mem_srv (publish_asg_change s a i) w = (Inr (), w)"
    "trace mem_srv (publish_asg_change s a i) w =
       [(Redis (PUBLISH ASG_CHANGE_CHANNEL (asg_change s a i)), Count 1)]"
  using assms
  by (simp_all add: publish_asg_change_def redis_unit_def mem_srv_def next_fate_def decode_defs with_ctx_def)

lemma mem_script_publish [simp]:
  assumes "fates w = []"
  shows "exec mem_script_srv (lua_publish_asg_change s a) w = (Inr (), w)"
    "trace mem_script_srv (lua_publish_asg_change s a) w =
       [(Redis (PUBLISH ASG_CHANGE_CHANNEL (asg_change s a None)), Count 1)]"
  using assms
  by (simp_all add: lua_publish_asg_change_def redis_unit_def mem_script_srv_def mem_srv_def
      next_fate_def decode_defs with_ctx_def)

lemma late_renews:
  "cli_does native_cli mem_srv (Renew 200 1000 ''old'' 7) late (Accepted True)
     (snd (exec mem_srv (cmd_renew 7 ''old'' 1000) late))"
  by (simp add: native_cli_def mem_cli_defs)

lemma late_renews_lua:
  "cli_does lua_cli mem_script_srv (Renew 200 1000 ''old'' 7) late (Accepted True)
     (snd (exec mem_script_srv (lua_cmd_renew 7 ''old'' 1000) late))"
  by (simp add: lua_cli_def lua_cmd_renew_def mem_script_srv_def lua_renew_def lua_do_def
      script_reply_def mem_cli_defs)

lemma late_claims:
  "cli_does native_cli mem_srv (Claim 200 1000 ''i-b'') late (Slot (Some ''7''))
     (snd (exec mem_srv (cmd_claim ''i-b'' 1000) late))"
  by (simp add: native_cli_def cmd_claim_def mem_cli_defs)

lemma late_claims_lua:
  "cli_does lua_cli mem_script_srv (Claim 200 1000 ''i-b'') late (Slot (Some ''7''))
     (snd (exec mem_script_srv (lua_cmd_claim ''i-b'' 1000) late))"
  by (simp add: lua_cli_def lua_cmd_claim_def mem_script_srv_def lua_claim_def lua_sweep_def lua_do_def
      script_reply_def mem_cli_defs)

text \<open>Slot 8 is free besides: it goes first, then slot 7.\<close>

definition two_slots :: mem where
  "two_slots = late\<lparr>mz := (mz late)(KEY_AVAILABLE := [(''8'', 5)])\<rparr>"

definition after_first :: mem where
  "after_first = snd (exec mem_script_srv (lua_cmd_claim ''i-a'' 1000) two_slots)"

lemmas mem_lua_defs = lua_cli_def lua_cmd_claim_def mem_script_srv_def lua_claim_def lua_sweep_def
  lua_do_def script_reply_def two_slots_def mem_cli_defs

lemma first_claim:
  "cli_does lua_cli mem_script_srv (Claim 200 1000 ''i-a'') two_slots (Slot (Some ''8'')) after_first"
  unfolding after_first_def by (simp add: mem_lua_defs)

lemma second_claim:
  "cli_does lua_cli mem_script_srv (Claim 200 1000 ''i-b'') after_first (Slot (Some ''7''))
     (snd (exec mem_script_srv (lua_cmd_claim ''i-b'' 1000) after_first))"
  unfolding after_first_def by (simp add: mem_lua_defs)

lemma two_slots_ok: "pool_ok (pool_of (mem_view two_slots))"
  by (auto simp: pool_ok_def two_slots_def late_def mem_empty_def KEY_AVAILABLE_def KEY_LEASES_def
      key_owner_def fun_eq_iff dom_def split: if_splits)

text \<open>Before the lease of slot 7 has run out, a claim takes slot 8.\<close>

definition early :: mem where
  "early = two_slots\<lparr>clock := 50\<rparr>"

lemma early_claims:
  "cli_does native_cli mem_srv (Claim 50 1000 ''i-b'') early (Slot (Some ''8''))
     (snd (exec mem_srv (cmd_claim ''i-b'' 1000) early))"
  by (simp add: native_cli_def cmd_claim_def early_def two_slots_def mem_cli_defs)

lemma early_view: "mem_view early = mem_view two_slots"
  by (simp add: early_def mem_view_def)

lemma two_slots_lease:
  "lease_at (pool_of (mem_view two_slots)) ''7'' = Some 100"
  "owner_at (pool_of (mem_view two_slots)) ''7'' = Some ''old''"
  by (simp_all add: two_slots_def late_def mem_empty_def KEY_AVAILABLE_def KEY_LEASES_def)

text \<open>Leases that are renewed: the claimant of slot 8 asks for more time.\<close>

definition after_renewal :: mem where
  "after_renewal = snd (exec mem_script_srv (lua_cmd_renew 8 ''i-a'' 5000) after_first)"

definition early_held :: mem where
  "early_held = snd (exec mem_srv (cmd_claim ''i-b'' 1000) early)"

lemma after_first_is:
  "after_first = late\<lparr>mz := (mz late)(KEY_AVAILABLE := [(''7'', 200)], KEY_LEASES := [(''8'', 1200)]),
     ms := (ms late)(key_owner ''7'' := None, key_owner ''8'' := Some ''i-a'')\<rparr>"
  unfolding after_first_def by (simp add: mem_lua_defs)

lemmas mem_renew_defs = lua_cmd_renew_def lua_renew_def mem_lua_defs

lemma first_renewal:
  "cli_does lua_cli mem_script_srv (Renew 200 5000 ''i-a'' 8) after_first (Accepted True) after_renewal"
  unfolding after_renewal_def after_first_is by (simp add: mem_renew_defs)

lemma after_renewal_is:
  "after_renewal = late\<lparr>mz := (mz late)(KEY_AVAILABLE := [(''7'', 200)], KEY_LEASES := [(''8'', 5200)]),
     ms := (ms late)(key_owner ''7'' := None, key_owner ''8'' := Some ''i-a'')\<rparr>"
  unfolding after_renewal_def after_first_is by (simp add: mem_renew_defs)

lemma claim_after_renewal:
  "cli_does lua_cli mem_script_srv (Claim 200 1000 ''i-b'') after_renewal (Slot (Some ''7''))
     (snd (exec mem_script_srv (lua_cmd_claim ''i-b'' 1000) after_renewal))"
  unfolding after_renewal_is by (simp add: mem_lua_defs)

lemma early_held_lease:
  "lease_at (pool_of (mem_view early_held)) ''8'' = Some 1050"
  "owner_at (pool_of (mem_view early_held)) ''8'' = Some ''i-b''"
  by (simp_all add: early_held_def cmd_claim_def early_def two_slots_def mem_cli_defs)

lemma early_held_ok: "pool_ok (pool_of (mem_view early_held))"
proof -
  have "op_run (cli_does native_cli mem_srv) early [(Claim 50 1000 ''i-b'', Slot (Some ''8''))] early_held"
    using early_claims by (simp add: early_held_def del: cli_does.simps)
  from slot_pool.keeps_ok [OF mem.native_pool this] show ?thesis
    using two_slots_ok by (simp add: early_view)
qed

lemma early_held_renews:
  "cli_does native_cli mem_srv (Renew 50 2000 ''i-b'' 8) early_held (Accepted True)
     (snd (exec mem_srv (cmd_renew 8 ''i-b'' 2000) early_held))"
  by (simp add: early_held_def native_cli_def cmd_claim_def early_def two_slots_def mem_cli_defs)

lemma renewal_runs:
  "op_run (cli_does native_cli mem_srv) early_held [(Renew 50 2000 ''i-b'' 8, Accepted True)]
     (snd (exec mem_srv (cmd_renew 8 ''i-b'' 2000) early_held))"
  "op_run (cli_does lua_cli mem_script_srv) after_first [(Renew 200 5000 ''i-a'' 8, Accepted True)] after_renewal"
  using early_held_renews first_renewal by (simp_all del: cli_does.simps)

text \<open>The renewal script asks for the owner only: a lease that has run out is renewed.\<close>

lemma late_renewed_lua:
  "exec mem_script_srv (lua_cmd_renew 7 ''old'' 1000) late =
     (Inr (), late\<lparr>mz := (mz late)(KEY_LEASES := [(''7'', 1200)])\<rparr>)"
  by (simp add: lua_cmd_renew_def mem_script_srv_def lua_renew_def lua_do_def script_reply_def
      mem_cli_defs)

text \<open>One tick of the heartbeat of the late lease.\<close>

definition late_heartbeat :: heartbeat where
  "late_heartbeat = \<lparr>hb_slot = 7, hb_instance = ''old'', hb_ttl_ms = 1000, hb_interval = 5,
     hb_retry_attempts = 3, hb_retry_delay_ms = 10\<rparr>"

lemma late_heartbeat_trace:
  "trace mem_srv (cmd_heartbeat 1 late_heartbeat) late =
     [(RegisterSigterm, Done), (RedisConnect, Done), (Redis (GET (key_owner ''7'')), Bulk (Some ''old'')),
      (NowMs, Millis 200), (Redis (ZADD KEY_LEASES 1200 ''7''), Count 1),
      (SleepOrTerm 5, Failed TypeMismatch)]"
  by (simp add: cmd_heartbeat_def renew_with_retry.simps late_heartbeat_def mem_cli_defs)

end
