(* ===== verification/Xml.thy ===== *)
theory Xml
  imports Prelude
begin

text \<open>
  The XML helpers of \<open>aerocore/src/aws/mod.rs\<close>: \<open>extract_balanced\<close>, \<open>extract_scalar\<close> and
  \<open>extract_all_scalars\<close>, and \<open>count_items\<close> of \<open>aeroplug/src/attach.rs\<close>.  Byte positions into the
  haystack are modelled by the suffix that starts there.  The lemmas show that the scanner
  returns exactly the content of the first element, whatever elements of the same name it nests.
\<close>

section \<open>The scanners\<close>

definition open_tag :: "string \<Rightarrow> string" where
  "open_tag tag = ''<'' @ tag @ ''>''"

definition close_tag :: "string \<Rightarrow> string" where
  "close_tag tag = ''</'' @ tag @ ''>''"

lemma tag_lengths [simp]:
  "0 < length (open_tag tag)" "0 < length (close_tag tag)" "open_tag tag \<noteq> []" "close_tag tag \<noteq> []"
  by (simp_all add: open_tag_def close_tag_def)

lemma tag_length:
  "length (open_tag tag) = length tag + 2" "length (close_tag tag) = length tag + 3"
  by (simp_all add: open_tag_def close_tag_def)

text \<open>
  The loop of \<open>extract_balanced\<close>.  \<open>s\<close> is \<open>haystack[pos..]\<close> and \<open>off\<close> is \<open>pos - content_start\<close>; the
  result is \<open>c - content_start\<close> for the matching closing tag at \<open>c\<close>.
\<close>

function balanced_scan :: "string \<Rightarrow> string \<Rightarrow> nat \<Rightarrow> nat \<Rightarrow> nat option" where
  "balanced_scan tag s depth off =
     (case (find_sub (open_tag tag) s, find_sub (close_tag tag) s) of
        (Some i, Some c) \<Rightarrow>
          if i < c
          then balanced_scan tag (drop (i + length (open_tag tag)) s) (depth + 1)
                 (off + i + length (open_tag tag))
          else if depth - 1 = 0 then Some (off + c)
          else balanced_scan tag (drop (c + length (close_tag tag)) s) (depth - 1)
                 (off + c + length (close_tag tag))
      | (None, Some c) \<Rightarrow>
          if depth - 1 = 0 then Some (off + c)
          else balanced_scan tag (drop (c + length (close_tag tag)) s) (depth - 1)
                 (off + c + length (close_tag tag))
      | _ \<Rightarrow> None)"
  by pat_completeness auto
termination
  by (relation "measure (\<lambda>(tag, s, depth, off). length s)")
    (auto simp: tag_length dest!: find_sub_bound find_sub_bound [OF sym])

declare balanced_scan.simps [simp del]

definition extract_balanced :: "string \<Rightarrow> string \<Rightarrow> string option" where
  "extract_balanced haystack tag =
     (case find_sub (open_tag tag) haystack of
        None \<Rightarrow> None
      | Some i \<Rightarrow>
          let rest = drop (i + length (open_tag tag)) haystack
          in map_option (\<lambda>n. take n rest) (balanced_scan tag rest 1 0))"

definition extract_scalar :: "string \<Rightarrow> string \<Rightarrow> string option" where
  "extract_scalar haystack tag =
     (case find_sub (open_tag tag) haystack of
        None \<Rightarrow> None
      | Some i \<Rightarrow>
          let rest = drop (i + length (open_tag tag)) haystack
          in map_option (\<lambda>n. trim (take n rest)) (find_sub (close_tag tag) rest))"

function extract_all_scalars :: "string \<Rightarrow> string \<Rightarrow> string list" where
  "extract_all_scalars haystack tag =
     (case find_sub (open_tag tag) haystack of
        None \<Rightarrow> []
      | Some i \<Rightarrow>
          let rest = drop (i + length (open_tag tag)) haystack
          in case find_sub (close_tag tag) rest of
               None \<Rightarrow> []
             | Some n \<Rightarrow> trim (take n rest) #
                 extract_all_scalars (drop (n + length (close_tag tag)) rest) tag)"
  by pat_completeness auto
termination
  by (relation "measure (\<lambda>(haystack, tag). length haystack)")
    (auto simp: tag_length dest!: find_sub_bound find_sub_bound [OF sym])

declare extract_all_scalars.simps [simp del]

text \<open>What remains after the first \<open>tag\<close> element whose content is \<open>inner\<close>.\<close>

definition after_element :: "string \<Rightarrow> string \<Rightarrow> string \<Rightarrow> string" where
  "after_element haystack tag inner =
     (case find_sub (open_tag tag) haystack of
        None \<Rightarrow> []
      | Some i \<Rightarrow> drop (i + length (open_tag tag) + length inner + length (close_tag tag)) haystack)"

lemma after_element_shorter:
  "extract_balanced h tag = Some inner \<Longrightarrow> length (after_element h tag inner) < length h"
  by (auto simp: extract_balanced_def after_element_def Let_def tag_length
      dest!: find_sub_bound split: option.splits)

text \<open>The loop of \<open>count_items\<close>, and the function.\<close>

function count_elements :: "string \<Rightarrow> nat" where
  "count_elements remaining =
     (case extract_balanced remaining ''item'' of
        None \<Rightarrow> 0
      | Some inner \<Rightarrow> Suc (count_elements (after_element remaining ''item'' inner)))"
  by pat_completeness auto
termination
  by (relation "measure length") (auto simp: after_element_shorter)

declare count_elements.simps [simp del]

definition count_items :: "string \<Rightarrow> nat" where
  "count_items xml =
     (case extract_balanced xml ''networkInterfaceSet'' of
        None \<Rightarrow> 0
      | Some set_xml \<Rightarrow> count_elements set_xml)"

section \<open>Occurrences of tags\<close>

text \<open>A tag name is plain when it has no angle bracket and does not start with a slash.\<close>

definition plain_tag :: "string \<Rightarrow> bool" where
  "plain_tag tag \<longleftrightarrow> tag \<noteq> [] \<and> CHR ''<'' \<notin> set tag \<and> CHR ''>'' \<notin> set tag \<and> hd tag \<noteq> CHR ''/''"

definition tag_free :: "string \<Rightarrow> string \<Rightarrow> bool" where
  "tag_free tag x \<longleftrightarrow> \<not> contains x (open_tag tag) \<and> \<not> contains x (close_tag tag)"

text \<open>
  An occurrence of a pattern that has its only \<open><\<close> at the front cannot straddle the start of a
  tag: it lies in the text before, or it starts at the tag or later.
\<close>

lemma starts_with_append_lt:
  assumes "CHR ''<'' \<notin> set q" and "starts_with (x @ CHR ''<'' # r) (CHR ''<'' # q)" and "x \<noteq> []"
  shows "starts_with x (CHR ''<'' # q)"
proof -
  obtain z where z: "x @ CHR ''<'' # r = CHR ''<'' # q @ z"
    using assms(2) by (auto simp: starts_with_iff)
  have "length (CHR ''<'' # q) \<le> length x"
  proof (rule ccontr)
    assume "\<not> ?thesis"
    then have len: "length x \<le> length q" by simp
    have "(CHR ''<'' # q @ z) ! length x = CHR ''<''"
      using z by (metis nth_append_length)
    moreover obtain k where k: "length x = Suc k" using \<open>x \<noteq> []\<close> by (cases x) auto
    ultimately have "q ! k = CHR ''<''" using len by (simp add: nth_append)
    with assms(1) k len show False by (metis Suc_le_lessD nth_mem)
  qed
  then have "x = CHR ''<'' # q @ drop (length (CHR ''<'' # q)) x"
    using z by (metis append_Cons append_eq_conv_conj append_take_drop_id take_all_iff take_append
        length_append diff_is_0_eq' take0 append_Nil2)
  then show ?thesis by (metis append_Cons starts_with_iff)
qed

lemma find_sub_append_lt:
  assumes "CHR ''<'' \<notin> set q" and "\<not> contains x (CHR ''<'' # q)"
  shows "find_sub (CHR ''<'' # q) (x @ CHR ''<'' # r) =
    map_option ((+) (length x)) (find_sub (CHR ''<'' # q) (CHR ''<'' # r))"
  using assms(2)
proof (induction x)
  case Nil
  then show ?case by (simp add: option.map_ident)
next
  case (Cons a x)
  have nf: "find_sub (CHR ''<'' # q) (a # x) = None" using Cons.prems by (simp add: contains_def)
  then have "\<not> starts_with (a # x) (CHR ''<'' # q)" and "\<not> contains x (CHR ''<'' # q)"
    by (auto simp: contains_def split: if_splits)
  moreover from this(1) have "\<not> starts_with ((a # x) @ CHR ''<'' # r) (CHR ''<'' # q)"
    using starts_with_append_lt [OF assms(1)] by blast
  ultimately show ?case
    using Cons.IH by (simp add: option.map_comp comp_def)
qed

lemma open_tag_alt: "open_tag tag = CHR ''<'' # (tag @ ''>'')"
  by (simp add: open_tag_def)

lemma close_tag_alt: "close_tag tag = CHR ''<'' # (''/'' @ tag @ ''>'')"
  by (simp add: close_tag_def)

lemma find_close_at_open:
  assumes "plain_tag tag"
  shows "find_sub (close_tag tag) (open_tag tag @ r) \<noteq> Some 0"
proof -
  have "\<not> starts_with (open_tag tag @ r) (close_tag tag)"
    using assms by (cases tag) (auto simp: open_tag_def close_tag_def starts_with_iff plain_tag_def)
  then show ?thesis by (cases "open_tag tag @ r") (auto simp: open_tag_def)
qed

lemma find_open_at_close:
  assumes "plain_tag tag"
  shows "find_sub (open_tag tag) (close_tag tag @ r) \<noteq> Some 0"
proof -
  have "\<not> starts_with (close_tag tag @ r) (open_tag tag)"
    using assms by (cases tag) (auto simp: open_tag_def close_tag_def starts_with_iff plain_tag_def)
  then show ?thesis by (cases "close_tag tag @ r") (auto simp: close_tag_def)
qed

lemma find_open_after:
  assumes "plain_tag tag" "\<not> contains x (open_tag tag)"
  shows "find_sub (open_tag tag) (x @ open_tag tag @ r) = Some (length x)"
  using find_sub_append_lt [of "tag @ ''>''" x "tag @ ''>'' @ r"] assms find_sub_here [of "open_tag tag" r]
  by (simp add: open_tag_alt plain_tag_def)

lemma find_close_after:
  assumes "plain_tag tag" "\<not> contains x (close_tag tag)"
  shows "find_sub (close_tag tag) (x @ close_tag tag @ r) = Some (length x)"
  using find_sub_append_lt [of "''/'' @ tag @ ''>''" x "''/'' @ tag @ ''>'' @ r"] assms
    find_sub_here [of "close_tag tag" r]
  by (simp add: close_tag_alt plain_tag_def)

lemma find_close_before_open:
  assumes "plain_tag tag" "\<not> contains x (close_tag tag)"
    "find_sub (close_tag tag) (x @ open_tag tag @ r) = Some c"
  shows "length x < c"
proof -
  have "find_sub (close_tag tag) (x @ open_tag tag @ r) =
      map_option ((+) (length x)) (find_sub (close_tag tag) (open_tag tag @ r))"
    using find_sub_append_lt [of "''/'' @ tag @ ''>''" x "tag @ ''>'' @ r"] assms(1,2)
    by (simp add: close_tag_alt open_tag_alt plain_tag_def)
  then have "map_option ((+) (length x)) (find_sub (close_tag tag) (open_tag tag @ r)) = Some c"
    using assms(3) by simp
  then obtain d where "find_sub (close_tag tag) (open_tag tag @ r) = Some d" "c = length x + d"
    by auto
  moreover from this have "d \<noteq> 0" using find_close_at_open [OF assms(1)] by metis
  ultimately show ?thesis by simp
qed

lemma find_open_before_close:
  assumes "plain_tag tag" "\<not> contains x (open_tag tag)"
    "find_sub (open_tag tag) (x @ close_tag tag @ r) = Some i"
  shows "length x < i"
proof -
  have "find_sub (open_tag tag) (x @ close_tag tag @ r) =
      map_option ((+) (length x)) (find_sub (open_tag tag) (close_tag tag @ r))"
    using find_sub_append_lt [of "tag @ ''>''" x "''/'' @ tag @ ''>'' @ r"] assms(1,2)
    by (simp add: close_tag_alt open_tag_alt plain_tag_def)
  then have "map_option ((+) (length x)) (find_sub (open_tag tag) (close_tag tag @ r)) = Some i"
    using assms(3) by simp
  then obtain d where "find_sub (open_tag tag) (close_tag tag @ r) = Some d" "i = length x + d"
    by auto
  moreover from this have "d \<noteq> 0" using find_open_at_close [OF assms(1)] by metis
  ultimately show ?thesis by simp
qed

section \<open>The scanner on nested elements\<close>

text \<open>
  The texts in which the tags of one name are balanced: no tag of that name, or a balanced
  element between such texts.
\<close>

inductive balanced_in :: "string \<Rightarrow> string \<Rightarrow> bool" for tag where
  balanced_text: "tag_free tag x \<Longrightarrow> balanced_in tag x"
| balanced_nest: "tag_free tag x \<Longrightarrow> balanced_in tag y \<Longrightarrow> balanced_in tag z \<Longrightarrow>
    balanced_in tag (x @ open_tag tag @ y @ close_tag tag @ z)"

lemma scan_open:
  assumes "plain_tag tag" "tag_free tag x" "contains r (close_tag tag)"
  shows "balanced_scan tag (x @ open_tag tag @ r) d off =
    balanced_scan tag r (d + 1) (off + length x + length (open_tag tag))"
proof -
  let ?s = "x @ open_tag tag @ r"
  have o: "find_sub (open_tag tag) ?s = Some (length x)"
    using assms by (simp add: find_open_after tag_free_def)
  have "find_sub (close_tag tag) ?s \<noteq> None"
  proof -
    obtain u v where "r = u @ close_tag tag @ v"
      using assms(3) by (auto simp: contains_def find_sub_None)
    then have "?s = (x @ open_tag tag @ u) @ close_tag tag @ v" by simp
    then show ?thesis by (metis find_sub_None)
  qed
  then obtain c where c: "find_sub (close_tag tag) ?s = Some c" by auto
  have "length x < c"
    using find_close_before_open [OF assms(1) _ c] assms(2) by (simp add: tag_free_def)
  then show ?thesis
    by (subst balanced_scan.simps) (simp add: o c)
qed

lemma scan_close:
  assumes "plain_tag tag" "tag_free tag x"
  shows "balanced_scan tag (x @ close_tag tag @ r) d off =
    (if d - 1 = 0 then Some (off + length x)
     else balanced_scan tag r (d - 1) (off + length x + length (close_tag tag)))"
proof -
  let ?s = "x @ close_tag tag @ r"
  have c: "find_sub (close_tag tag) ?s = Some (length x)"
    using assms by (simp add: find_close_after tag_free_def)
  have "\<And>i. find_sub (open_tag tag) ?s = Some i \<Longrightarrow> \<not> i < length x"
    using find_open_before_close [OF assms(1)] assms(2) by (fastforce simp: tag_free_def)
  then show ?thesis
    by (subst balanced_scan.simps) (auto simp: c split: option.splits)
qed

lemma contains_mid: "contains (u @ p @ v) p"
  by (auto simp: contains_def find_sub_None)

lemma scan_balanced:
  assumes "plain_tag tag" "balanced_in tag c" "0 < d"
  shows "balanced_scan tag (c @ close_tag tag @ r) d off =
    (if d = 1 then Some (off + length c)
     else balanced_scan tag r (d - 1) (off + length c + length (close_tag tag)))"
  using assms(2,3)
proof (induction arbitrary: r d off)
  case (balanced_text x)
  then show ?case using scan_close [OF assms(1)] by (auto split: if_splits)
next
  case (balanced_nest x y z)
  let ?r = "z @ close_tag tag @ r"
  have "contains (y @ close_tag tag @ ?r) (close_tag tag)" by (rule contains_mid)
  then have "balanced_scan tag ((x @ open_tag tag @ y @ close_tag tag @ z) @ close_tag tag @ r) d off
      = balanced_scan tag (y @ close_tag tag @ ?r) (d + 1) (off + length x + length (open_tag tag))"
    using scan_open [OF assms(1) balanced_nest.hyps(1)] by simp
  also have "\<dots> = balanced_scan tag ?r d
      (off + length x + length (open_tag tag) + length y + length (close_tag tag))"
    using balanced_nest.IH(1) [of "d + 1"] balanced_nest.prems by simp
  also have "\<dots> = (if d = 1 then Some (off + length (x @ open_tag tag @ y @ close_tag tag @ z))
     else balanced_scan tag r (d - 1)
       (off + length (x @ open_tag tag @ y @ close_tag tag @ z) + length (close_tag tag)))"
    using balanced_nest.IH(2) [OF balanced_nest.prems] by (simp add: add.assoc)
  finally show ?case .
qed

lemma extract_balanced_element:
  assumes "plain_tag tag" "\<not> contains pre (open_tag tag)" "balanced_in tag c"
  shows "extract_balanced (pre @ open_tag tag @ c @ close_tag tag @ post) tag = Some c"
  using find_open_after [OF assms(1,2), of "c @ close_tag tag @ post"]
    scan_balanced [OF assms(1,3), of 1 post 0]
  by (simp add: extract_balanced_def)

lemma after_element_eq:
  assumes "plain_tag tag" "\<not> contains pre (open_tag tag)"
  shows "after_element (pre @ open_tag tag @ c @ close_tag tag @ post) tag c = post"
  using find_open_after [OF assms, of "c @ close_tag tag @ post"]
  by (simp add: after_element_def)

lemma extract_scalar_element:
  assumes "plain_tag tag" "\<not> contains pre (open_tag tag)" "CHR ''<'' \<notin> set v"
  shows "extract_scalar (pre @ open_tag tag @ v @ close_tag tag @ post) tag = Some (trim v)"
proof -
  have lt: "CHR ''<'' \<in> set (close_tag tag)" by (simp add: close_tag_def)
  have "\<not> contains v (close_tag tag)"
  proof
    assume "contains v (close_tag tag)"
    then obtain u w where "v = u @ close_tag tag @ w"
      by (auto simp: contains_def find_sub_None)
    with lt assms(3) show False by simp
  qed
  then show ?thesis
    using find_open_after [OF assms(1,2), of "v @ close_tag tag @ post"]
      find_close_after [OF assms(1), of v post]
    by (simp add: extract_scalar_def)
qed

lemma extract_balanced_None: "\<not> contains h (open_tag tag) \<Longrightarrow> extract_balanced h tag = None"
  by (simp add: extract_balanced_def contains_def)

section \<open>Counting the items of a set\<close>

text \<open>An item with the text that precedes it, and a list of such items with the text after them.\<close>

definition render_item :: "string \<times> string \<Rightarrow> string" where
  "render_item x = fst x @ open_tag ''item'' @ snd x @ close_tag ''item''"

definition render_items :: "(string \<times> string) list \<Rightarrow> string \<Rightarrow> string" where
  "render_items xs post = concat (map render_item xs) @ post"

definition item_ok :: "string \<times> string \<Rightarrow> bool" where
  "item_ok x \<longleftrightarrow> \<not> contains (fst x) (open_tag ''item'') \<and> balanced_in ''item'' (snd x)"

lemma plain_item [simp]: "plain_tag ''item''" "plain_tag ''networkInterfaceSet''"
  by (simp_all add: plain_tag_def)

lemma count_elements_items:
  assumes "list_all item_ok xs" "\<not> contains post (open_tag ''item'')"
  shows "count_elements (render_items xs post) = length xs"
  using assms(1)
proof (induction xs)
  case Nil
  then show ?case
    by (subst count_elements.simps) (simp add: render_items_def extract_balanced_None assms(2))
next
  case (Cons x xs)
  let ?h = "fst x @ open_tag ''item'' @ snd x @ close_tag ''item'' @ render_items xs post"
  have ok: "\<not> contains (fst x) (open_tag ''item'')" "balanced_in ''item'' (snd x)"
    using Cons.prems by (simp_all add: item_ok_def)
  have h: "render_items (x # xs) post = ?h"
    by (simp add: render_items_def render_item_def)
  have "extract_balanced ?h ''item'' = Some (snd x)"
    using ok by (simp add: extract_balanced_element)
  moreover have "after_element ?h ''item'' (snd x) = render_items xs post"
    using ok by (simp add: after_element_eq)
  ultimately show ?case
    using Cons by (subst count_elements.simps) (simp add: h)
qed

end
