(* ===== verification/Aws.thy ===== *)
theory Aws
  imports Effects Xml
begin

text \<open>
  \<open>aerocore/src/aws/mod.rs\<close>: the credentials and their expiry, the instance metadata service,
  SigV4 signing and the signed Query API call.  SHA-256, HMAC, hexadecimal and URL encoding, JSON
  and RFC 3339 parsing are library code: they are the fields of \<open>libs\<close>, a parameter.  Times are
  milliseconds since the epoch (\<open>int\<close>); the formatted dates are parameters.
\<close>

section \<open>Library parameters\<close>

record libs =
  sha256 :: "string \<Rightarrow> string"
  hmac :: "string \<Rightarrow> string \<Rightarrow> string"
  hex_encode :: "string \<Rightarrow> string"
  urlencode :: "(string \<times> string) list \<Rightarrow> string result"

definition sha256_hex :: "libs \<Rightarrow> string \<Rightarrow> string" where
  "sha256_hex L d = hex_encode L (sha256 L d)"

definition hmac_sha256 :: "libs \<Rightarrow> string \<Rightarrow> string \<Rightarrow> string" where
  "hmac_sha256 L k d = hmac L k d"

section \<open>Credentials\<close>

record aws_credentials =
  access_key_id :: string
  secret_access_key :: string
  session_token :: "string option"
  expiration :: "int option"

text \<open>
  \<open>is_expiring_soon\<close>.  A \<open>std::time::Duration\<close> that does not fit a \<open>chrono::Duration\<close> (more than
  \<open>i64::MAX\<close> milliseconds) is replaced by zero.
\<close>

definition chrono_from_std :: "nat \<Rightarrow> int" where
  "chrono_from_std threshold = (if int threshold \<le> 2 ^ 63 - 1 then int threshold else 0)"

definition is_expiring_soon :: "aws_credentials \<Rightarrow> int \<Rightarrow> nat \<Rightarrow> bool" where
  "is_expiring_soon c now threshold =
     (case expiration c of
        Some ex \<Rightarrow> ex - now < chrono_from_std threshold
      | None \<Rightarrow> False)"

section \<open>Instance metadata\<close>

text \<open>The HTTP exchange is one command; \<open>fetch_imds_path\<close> trims the answer.\<close>

definition fetch_imds_token :: "string rio" where
  "fetch_imds_token = ctx ''IMDS token request failed'' (call ImdsToken (as_text LibFault))"

definition fetch_imds_path :: "string \<Rightarrow> string \<Rightarrow> string rio" where
  "fetch_imds_path token path =
     ctx (''Failed to fetch IMDS path '' @ path)
       (attempt (call (ImdsPath token path) (as_text LibFault)) (\<lambda>s. Ret (Inr (trim s))))"

definition fetch_imds_instance_id :: "string rio" where
  "fetch_imds_instance_id = attempt fetch_imds_token (\<lambda>token. fetch_imds_path token ''instance-id'')"

record imds_credentials =
  imds_access_key_id :: string
  imds_secret_access_key :: string
  imds_token :: "string option"
  imds_expiration :: string

definition fetch_imds_credentials ::
    "(string \<Rightarrow> imds_credentials result) \<Rightarrow> (string \<Rightarrow> int option) \<Rightarrow> aws_credentials rio" where
  "fetch_imds_credentials from_json parse_rfc3339 =
     attempt fetch_imds_token (\<lambda>token.
     attempt (ctx ''Failed to fetch IAM role name''
       (fetch_imds_path token ''iam/security-credentials/'')) (\<lambda>role_name.
     attempt (ctx ''Failed to fetch IAM credentials''
       (fetch_imds_path token (''iam/security-credentials/'' @ role_name))) (\<lambda>creds_json.
     Ret (case from_json creds_json of
         Inl e \<Rightarrow> Inl (Context ''Failed to parse IMDS credentials JSON'' e)
       | Inr c \<Rightarrow> Inr \<lparr> access_key_id = imds_access_key_id c,
            secret_access_key = imds_secret_access_key c,
            session_token = imds_token c,
            expiration = parse_rfc3339 (imds_expiration c) \<rparr>))))"

section \<open>SigV4 signing\<close>

text \<open>A time stamp (\<open>%Y%m%dT%H%M%SZ\<close>) or date (\<open>%Y%m%d\<close>), formatted by the date library.\<close>

type_synonym stamp = string

type_synonym host = string

type_synonym region = string

record sigv4_result =
  authorization :: string
  x_amz_date :: string

text \<open>The headers that are signed, in the order of \<open>headers.sort_by\<close>.\<close>

definition sigv4_headers :: "string \<Rightarrow> string \<Rightarrow> string option \<Rightarrow> (string \<times> string) list" where
  "sigv4_headers host amz_date token =
     sort_key fst
       ([(''content-type'', ''application/x-www-form-urlencoded''), (''host'', host),
         (''x-amz-date'', amz_date)] @
        (case token of None \<Rightarrow> [] | Some t \<Rightarrow> [(''x-amz-security-token'', t)]))"

definition canonical_headers :: "(string \<times> string) list \<Rightarrow> string" where
  "canonical_headers hs = concat (map (\<lambda>(k, v). k @ '':'' @ v @ [newline]) hs)"

fun join :: "string \<Rightarrow> string list \<Rightarrow> string" where
  "join sep [] = []"
| "join sep [x] = x"
| "join sep (x # y # ys) = x @ sep @ join sep (y # ys)"

definition signed_headers :: "(string \<times> string) list \<Rightarrow> string" where
  "signed_headers hs = join '';'' (map fst hs)"

definition canonical_request ::
    "libs \<Rightarrow> string \<Rightarrow> string \<Rightarrow> string \<Rightarrow> (string \<times> string) list \<Rightarrow> string" where
  "canonical_request L meth path body hs =
     meth @ [newline] @ path @ [newline, newline] @ canonical_headers hs @ [newline] @
     signed_headers hs @ [newline] @ sha256_hex L body"

definition credential_scope :: "string \<Rightarrow> string \<Rightarrow> string \<Rightarrow> string" where
  "credential_scope date_stamp region service =
     date_stamp @ ''/'' @ region @ ''/'' @ service @ ''/aws4_request''"

definition signing_key :: "libs \<Rightarrow> string \<Rightarrow> string \<Rightarrow> string \<Rightarrow> string \<Rightarrow> string" where
  "signing_key L secret date_stamp region service =
     (let k_date = hmac_sha256 L (''AWS4'' @ secret) date_stamp;
          k_region = hmac_sha256 L k_date region;
          k_service = hmac_sha256 L k_region service
      in hmac_sha256 L k_service ''aws4_request'')"

definition sigv4_sign ::
    "libs \<Rightarrow> stamp \<Rightarrow> stamp \<Rightarrow> string \<Rightarrow> host \<Rightarrow> string \<Rightarrow> string \<Rightarrow> region \<Rightarrow> string \<Rightarrow>
     string \<Rightarrow> string \<Rightarrow> string option \<Rightarrow> sigv4_result" where
  "sigv4_sign L amz_date date_stamp meth host path body service region key_id secret token =
     (let hs = sigv4_headers host amz_date token;
          scope = credential_scope date_stamp region service;
          string_to_sign = ''AWS4-HMAC-SHA256'' @ [newline] @ amz_date @ [newline] @ scope @
            [newline] @ sha256_hex L (canonical_request L meth path body hs);
          signature = hex_encode L
            (hmac_sha256 L (signing_key L secret date_stamp region service) string_to_sign)
      in \<lparr> authorization = ''AWS4-HMAC-SHA256 Credential='' @ key_id @ ''/'' @ scope @
             '', SignedHeaders='' @ signed_headers hs @ '', Signature='' @ signature,
           x_amz_date = amz_date \<rparr>)"

section \<open>The Query API call\<close>

definition is_success :: "nat \<Rightarrow> bool" where
  "is_success status \<longleftrightarrow> 200 \<le> status \<and> status < 300"

definition as_http :: "reply \<Rightarrow> (nat \<times> string) result" where
  "as_http r = (case r of Http st b \<Rightarrow> Inr (st, b) | _ \<Rightarrow> bad r LibFault)"

lemma as_http_Inr: "(as_http r = Inr x) = (r = Http (fst x) (snd x))"
  by (cases r; cases x; auto simp: as_http_def bad_def)

definition aws_query ::
    "libs \<Rightarrow> stamp \<Rightarrow> stamp \<Rightarrow> host \<Rightarrow> string \<Rightarrow> region \<Rightarrow> aws_credentials \<Rightarrow>
     (string \<times> string) list \<Rightarrow> string rio" where
  "aws_query L amz_date date_stamp host service region creds params =
     (case with_ctx ''Failed to URL-encode request parameters'' (urlencode L params) of
        Inl e \<Rightarrow> Ret (Inl e)
      | Inr body \<Rightarrow>
          let sig = sigv4_sign L amz_date date_stamp ''POST'' host ''/'' body service region
                      (access_key_id creds) (secret_access_key creds) (session_token creds);
              headers = [(''Content-Type'', ''application/x-www-form-urlencoded''),
                         (''x-amz-date'', x_amz_date sig), (''Authorization'', authorization sig)] @
                (case session_token creds of None \<Rightarrow> [] | Some t \<Rightarrow> [(''x-amz-security-token'', t)])
          in attempt (ctx ''HTTP request failed''
               (call (HttpPost (''https://'' @ host @ ''/'') headers body) as_http))
             (\<lambda>(status, text).
               if \<not> is_success status
               then Ret (Inl (Bail (''AWS API error ('' @ show_nat status @ ''): '' @ text)))
               else Ret (Inr text)))"

lemma sigv4_header_names:
  "map fst (sigv4_headers host d t) =
     [''content-type'', ''host'', ''x-amz-date''] @
     (if t = None then [] else [''x-amz-security-token''])"
  by (cases t) (simp_all add: sigv4_headers_def)

lemma sigv4_headers_sorted: "sorted (map fst (sigv4_headers host d t))"
  by (simp only: sigv4_headers_def sorted_sort_key)

lemma runs_aws_query:
  assumes "runs (aws_query L d s host service region creds ps) t (Inr text)"
  shows "\<exists>hs body status. urlencode L ps = Inr body \<and> is_success status \<and>
    t = [(HttpPost (''https://'' @ host @ ''/'') hs body, Http status text)]"
  using assms
  by (auto simp: aws_query_def Let_def runs_attempt_iff runs_ctx runs_call as_http_Inr
      split: sum.splits prod.splits if_splits dest!: sym [of "Inr _"])

end
