(* ===== verification/Slot_Network.thy ===== *)
theory Slot_Network
  imports Aws
begin

text \<open>
  \<open>aerocore/src/slot_network.rs\<close>: the arithmetic between slot numbers and backend addresses, and
  its discovery from the instance metadata.  An \<open>Ipv4Addr\<close> is its 32-bit value; \<open>u32\<close> addition
  wraps, as in the release profile.  The textual form of addresses (standard library) is modelled
  by \<open>show_ip\<close> and \<open>parse_ip\<close>.  The locale \<open>slot_addressing\<close> is the contract the rest of the
  system relies on: within the slots in use, the mapping to addresses can be undone.
\<close>

section \<open>IPv4 addresses\<close>

type_synonym ipv4 = u32

definition octet :: "ipv4 \<Rightarrow> nat \<Rightarrow> nat" where
  "octet ip k = unat ip div 256 ^ k mod 256"

definition show_ip :: "ipv4 \<Rightarrow> string" where
  "show_ip ip = show_nat (octet ip 3) @ ''.'' @ show_nat (octet ip 2) @ ''.'' @
     show_nat (octet ip 1) @ ''.'' @ show_nat (octet ip 0)"

definition all_digits :: "string \<Rightarrow> bool" where
  "all_digits s \<longleftrightarrow> list_all (\<lambda>c. digit_val 10 c \<noteq> None) s"

text \<open>An octet: one to three digits, no leading zero, at most 255.\<close>

definition parse_octet :: "string \<Rightarrow> nat option" where
  "parse_octet s =
     (if s = [] \<or> 3 < length s \<or> \<not> all_digits s \<or> (hd s = CHR ''0'' \<and> 1 < length s) then None
      else case digits_val 10 0 s of
             None \<Rightarrow> None
           | Some v \<Rightarrow> if v \<le> 255 then Some v else None)"

definition parse_ip :: "string \<Rightarrow> ipv4 option" where
  "parse_ip s =
     (case map parse_octet (splits (\<lambda>c. c = CHR ''.'') s) of
        [Some a, Some b, Some c, Some d] \<Rightarrow>
          Some (of_nat (((a * 256 + b) * 256 + c) * 256 + d))
      | _ \<Rightarrow> None)"

lemma digit_val_10: "48 \<le> (of_char c :: nat) \<Longrightarrow> of_char c \<le> (57 :: nat) \<Longrightarrow> digit_val 10 c \<noteq> None"
  by (simp add: digit_val_def Let_def)

lemma all_digits_show_nat: "all_digits (show_nat n)"
  unfolding all_digits_def list_all_iff using set_show_nat digit_val_10 by blast

lemma length_show_nat: "n < 1000 \<Longrightarrow> length (show_nat n) \<le> 3"
proof -
  assume "n < 1000"
  then have "n div 10 < 100" "n div 10 div 10 < 10" by auto
  then show ?thesis
    by (simp add: show_nat.simps [of n] show_nat.simps [of "n div 10"]
        show_nat.simps [of "n div 10 div 10"] del: div_mult2_eq)
qed

lemma hd_show_nat: "hd (show_nat n) = CHR ''0'' \<Longrightarrow> n = 0"
proof (induction n rule: show_nat.induct)
  case (1 n)
  show ?case
  proof (cases "n < 10")
    case True
    with 1 have "(of_char (digit_char n) :: nat) = of_char (CHR ''0'')"
      by (simp add: show_nat.simps [of n])
    with True show ?thesis by (simp add: of_char_digit_char)
  next
    case False
    have "hd (show_nat n) = hd (show_nat (n div 10))"
      using False by (subst show_nat.simps) simp
    with 1 False have "n div 10 = 0" by simp
    with False show ?thesis by simp
  qed
qed

lemma parse_octet_show: "n < 256 \<Longrightarrow> parse_octet (show_nat n) = Some n"
proof -
  assume n: "n < 256"
  have "\<not> (hd (show_nat n) = CHR ''0'' \<and> 1 < length (show_nat n))"
    using hd_show_nat [of n] by (auto simp: show_nat.simps [of 0])
  then show ?thesis
    using n length_show_nat [of n]
    by (simp add: parse_octet_def all_digits_show_nat digits_val_show_nat not_less)
qed

lemma octets_sum:
  "((octet ip 3 * 256 + octet ip 2) * 256 + octet ip 1) * 256 + octet ip 0 = unat ip"
proof -
  have "unat ip < 2 ^ 32" using unat_lt_pow [of ip] by simp
  then have "unat ip div 256 ^ 3 < 256" by (simp add: less_mult_imp_div_less)
  then have o3: "octet ip 3 = unat ip div 256 div 256 div 256"
    using div_mult2_eq [of "unat ip" 256 256] div_mult2_eq [of "unat ip" "256 * 256" 256]
    by (simp add: octet_def power3_eq_cube)
  have o2: "octet ip 2 = unat ip div 256 div 256 mod 256"
    using div_mult2_eq [of "unat ip" 256 256] by (simp add: octet_def power2_eq_square)
  have o1: "octet ip 1 = unat ip div 256 mod 256" and o0: "octet ip 0 = unat ip mod 256"
    by (simp_all add: octet_def)
  show ?thesis unfolding o0 o1 o2 o3 by presburger
qed

lemma dot_not_in: "CHR ''.'' \<notin> set (show_nat n)"
  by (rule show_nat_no_char) simp

lemma splits_show_ip:
  "splits (\<lambda>c. c = CHR ''.'') (show_ip ip) =
     [show_nat (octet ip 3), show_nat (octet ip 2), show_nat (octet ip 1), show_nat (octet ip 0)]"
proof -
  have nd: "\<And>x n. x \<in> set (show_nat n) \<Longrightarrow> x \<noteq> CHR ''.''" using dot_not_in by blast
  show ?thesis
    by (simp add: show_ip_def splits_append nd splits_none)
qed

lemma parse_show_ip: "parse_ip (show_ip ip) = Some ip"
proof -
  have "octet ip k < 256" for k by (simp add: octet_def)
  then show ?thesis
    using octets_sum [of ip]
    by (simp add: parse_ip_def splits_show_ip parse_octet_show)
qed

lemma show_ip_inj: "show_ip a = show_ip b \<longleftrightarrow> a = b"
  by (metis option.inject parse_show_ip)

section \<open>The slot network\<close>

record slot_network =
  base :: ipv4
  offset :: u32
  prefix_len :: u8

definition slot_network_new :: "ipv4 \<Rightarrow> u32 \<Rightarrow> u8 \<Rightarrow> slot_network" where
  "slot_network_new b ofs p = \<lparr> base = b, offset = ofs, prefix_len = p \<rparr>"

definition ip_for_slot :: "slot_network \<Rightarrow> u32 \<Rightarrow> ipv4" where
  "ip_for_slot net slot = base net + offset net + slot"

definition slot_for_ip :: "slot_network \<Rightarrow> ipv4 \<Rightarrow> u32 option" where
  "slot_for_ip net ip = checked_sub ip (base net + offset net)"

text \<open>The slots whose address does not run past the end of the address space.\<close>

definition slot_in_range :: "slot_network \<Rightarrow> u32 \<Rightarrow> bool" where
  "slot_in_range net slot \<longleftrightarrow> unat (base net + offset net) + unat slot < 2 ^ 32"

lemma slot_for_ip_for_slot:
  "slot_in_range net slot \<Longrightarrow> slot_for_ip net (ip_for_slot net slot) = Some slot"
  unfolding slot_for_ip_def ip_for_slot_def checked_sub_def slot_in_range_def
  by (subst word_le_nat_alt) (simp add: unat_add_no_wrap)

lemma slot_for_ip_SomeD: "slot_for_ip net ip = Some slot \<Longrightarrow> ip_for_slot net slot = ip \<and> slot_in_range net slot"
proof -
  assume "slot_for_ip net ip = Some slot"
  then have le: "base net + offset net \<le> ip" and s: "slot = ip - (base net + offset net)"
    by (auto simp: slot_for_ip_def checked_sub_def split: if_splits)
  from le have "unat slot = unat ip - unat (base net + offset net)"
    by (simp add: s unat_sub)
  then have "unat (base net + offset net) + unat slot = unat ip"
    using le by (simp add: word_le_nat_alt)
  then have "slot_in_range net slot"
    using unat_lt_pow [of ip] by (simp add: slot_in_range_def)
  then show ?thesis by (simp add: ip_for_slot_def s)
qed

lemma slot_for_ip_None: "slot_for_ip net ip = None \<longleftrightarrow> ip < base net + offset net"
  by (auto simp: slot_for_ip_def checked_sub_def not_le)

section \<open>The addressing contract\<close>

locale slot_addressing =
  fixes to_ip :: "u32 \<Rightarrow> ipv4" and of_ip :: "ipv4 \<Rightarrow> u32 option" and usable :: "u32 \<Rightarrow> bool"
  assumes of_to: "usable s \<Longrightarrow> of_ip (to_ip s) = Some s"
    and to_of: "of_ip i = Some s \<Longrightarrow> to_ip s = i \<and> usable s"
begin

lemma to_ip_inj: "usable s \<Longrightarrow> usable t \<Longrightarrow> to_ip s = to_ip t \<Longrightarrow> s = t"
  by (metis of_to option.inject)

lemma of_ip_iff: "usable s \<Longrightarrow> of_ip i = Some s \<longleftrightarrow> i = to_ip s"
  using of_to to_of by auto

lemma file_name_inj:
  "usable s \<Longrightarrow> usable t \<Longrightarrow> show_ip (to_ip s) = show_ip (to_ip t) \<Longrightarrow> s = t"
  by (auto simp: show_ip_inj dest: to_ip_inj)

text \<open>
  Joining a list of slot-keyed values on addresses, the way the snapshot joins leases: later
  entries win, and the entry found for the address of a slot belongs to that slot.
\<close>

lemma join_on_address:
  assumes "\<forall>x \<in> set xs. usable (k x)" "usable s"
    "map_of (rev (map (\<lambda>x. (to_ip (k x), x)) xs)) (to_ip s) = Some y"
  shows "y \<in> set xs \<and> k y = s"
proof -
  have "(to_ip s, y) \<in> set (map (\<lambda>x. (to_ip (k x), x)) xs)"
    using map_of_SomeD [OF assms(3)] by simp
  then have "y \<in> set xs" "to_ip (k y) = to_ip s" by auto
  with assms show ?thesis using to_ip_inj by blast
qed

end

interpretation sn: slot_addressing "ip_for_slot net" "slot_for_ip net" "slot_in_range net" for net
  by unfold_locales (simp_all add: slot_for_ip_for_slot slot_for_ip_SomeD)

section \<open>Discovery from the instance metadata\<close>

definition trim_end_slash :: "string \<Rightarrow> string" where
  "trim_end_slash s = rev (dropWhile (\<lambda>c. c = CHR ''/'') (rev s))"

definition mac_lines :: "string \<Rightarrow> string list" where
  "mac_lines raw = map (\<lambda>s. trim (trim_end_slash s)) (lines raw)"

text \<open>The search for the interface with device number 1; a failed lookup reads as empty.\<close>

fun find_eth1 :: "string \<Rightarrow> string list \<Rightarrow> string option io" where
  "find_eth1 token [] = Ret None"
| "find_eth1 token (mac # macs) =
     (if mac = [] then find_eth1 token macs
      else bind (fetch_imds_path token (''network/interfaces/macs/'' @ mac @ ''/device-number''))
        (\<lambda>dev. if trim (case dev of Inl _ \<Rightarrow> [] | Inr d \<Rightarrow> d) = ''1'' then Ret (Some mac)
               else find_eth1 token macs))"

definition parse_cidr :: "string \<Rightarrow> (ipv4 \<times> u8) result" where
  "parse_cidr cidr =
     (case split_once (CHR ''/'') cidr of
        None \<Rightarrow> Inl (Bail (''IMDS returned invalid CIDR: '' @ cidr))
      | Some (base_str, prefix_str) \<Rightarrow>
          (case parse_ip base_str of
             None \<Rightarrow> Inl (Bail (''Invalid subnet base IP: '' @ base_str))
           | Some b \<Rightarrow>
               (case parse_u8 prefix_str of
                  None \<Rightarrow> Inl (Bail (''Invalid prefix length: '' @ prefix_str))
                | Some p \<Rightarrow> Inr (b, p))))"

definition from_imds :: "slot_network rio" where
  "from_imds =
     attempt fetch_imds_token (\<lambda>token.
     attempt (fetch_imds_path token ''network/interfaces/macs/'') (\<lambda>macs_raw.
     bind (find_eth1 token (mac_lines macs_raw)) (\<lambda>eth1_mac.
     case eth1_mac of
       None \<Rightarrow> Ret (Inl (Bail ''No eth1 (device index 1) found in IMDS''))
     | Some mac \<Rightarrow>
         attempt (ctx ''Failed to read eth1 subnet CIDR from IMDS''
           (fetch_imds_path token (''network/interfaces/macs/'' @ mac @ ''/subnet-ipv4-cidr-block'')))
         (\<lambda>cidr_raw.
         attempt (Ret (parse_cidr (trim cidr_raw))) (\<lambda>(b, p).
         attempt (ctx ''Instance tag aeroftp-slot-offset not found''
           (fetch_imds_path token ''tags/instance/aeroftp-slot-offset'')) (\<lambda>offset_raw.
         Ret (case parse_u32 (trim offset_raw) of
             None \<Rightarrow> Inl (Bail (''Invalid aeroftp-slot-offset value: '' @ offset_raw))
           | Some ofs \<Rightarrow> Inr (slot_network_new b ofs p))))))))"

lemma parse_cidr_render:
  "p < 256 \<Longrightarrow> parse_cidr (show_ip b @ ''/'' @ show_nat p) = Inr (b, of_nat p)"
proof -
  assume p: "p < 256"
  have "CHR ''/'' \<notin> set (show_ip b)" by (simp add: show_ip_def show_nat_no_char)
  then have "split_once (CHR ''/'') (show_ip b @ CHR ''/'' # show_nat p) = Some (show_ip b, show_nat p)"
    by (rule split_once_append)
  then show ?thesis
    using p parse_radix_show_nat [of p "2 ^ 8"] by (simp add: parse_cidr_def parse_show_ip parse_u8_def)
qed

end
