(* ===== verification/Asg.thy ===== *)
theory Asg
  imports Aws
begin

text \<open>
  \<open>aerocore/src/asg/mod.rs\<close>: the Auto Scaling Group calls and the parser of the
  \<open>DescribeAutoScalingGroups\<close> answer; \<open>aeroscale/src/snapshot/asg.rs\<close>: the reduction of that answer
  to the group limits and the sorted instance list.  Capacities are \<open>i64\<close>, read as \<open>int\<close>: no code
  computes with them but one increment that is guarded by a strict comparison.
\<close>

section \<open>Types\<close>

record raw_instance =
  ri_instance_id :: string
  ri_availability_zone :: string
  ri_lifecycle_state :: string
  ri_health_status :: string

record asg_group =
  g_name :: string
  g_desired_capacity :: int
  g_min_size :: int
  g_max_size :: int
  g_instances :: "raw_instance list"

section \<open>Parsing DescribeAutoScalingGroups\<close>

definition or_else :: "'a option \<Rightarrow> 'a \<Rightarrow> 'a" where
  "or_else x d = (case x of None \<Rightarrow> d | Some a \<Rightarrow> a)"

definition parse_i64_tag :: "string \<Rightarrow> string \<Rightarrow> int" where
  "parse_i64_tag h tag = or_else (Option.bind (extract_scalar h tag) parse_i64) 0"

definition parse_instance :: "string \<Rightarrow> raw_instance" where
  "parse_instance inst_xml =
     \<lparr> ri_instance_id = or_else (extract_scalar inst_xml ''InstanceId'') ''(unknown)'',
       ri_availability_zone = or_else (extract_scalar inst_xml ''AvailabilityZone'') [],
       ri_lifecycle_state = or_else (extract_scalar inst_xml ''LifecycleState'') [],
       ri_health_status = or_else (extract_scalar inst_xml ''HealthStatus'') [] \<rparr>"

function parse_instances :: "string \<Rightarrow> raw_instance list" where
  "parse_instances inst_rem =
     (case extract_balanced inst_rem ''member'' of
        None \<Rightarrow> []
      | Some inst_xml \<Rightarrow>
          parse_instance inst_xml # parse_instances (after_element inst_rem ''member'' inst_xml))"
  by pat_completeness auto
termination
  by (relation "measure length") (auto simp: after_element_shorter)

declare parse_instances.simps [simp del]

definition parse_group :: "string \<Rightarrow> string \<Rightarrow> asg_group" where
  "parse_group name group_xml =
     \<lparr> g_name = name,
       g_desired_capacity = parse_i64_tag group_xml ''DesiredCapacity'',
       g_min_size = parse_i64_tag group_xml ''MinSize'',
       g_max_size = parse_i64_tag group_xml ''MaxSize'',
       g_instances = (case extract_balanced group_xml ''Instances'' of
           None \<Rightarrow> [] | Some block \<Rightarrow> parse_instances block) \<rparr>"

function parse_asg_describe :: "string \<Rightarrow> asg_group list" where
  "parse_asg_describe remaining =
     (case extract_balanced remaining ''member'' of
        None \<Rightarrow> []
      | Some group_xml \<Rightarrow>
          let rest = after_element remaining ''member'' group_xml
          in case extract_scalar group_xml ''AutoScalingGroupName'' of
               None \<Rightarrow> parse_asg_describe rest
             | Some name \<Rightarrow> parse_group name group_xml # parse_asg_describe rest)"
  by pat_completeness auto
termination
  by (relation "measure length") (auto simp: after_element_shorter)

declare parse_asg_describe.simps [simp del]

section \<open>API calls\<close>

definition asg_host :: "string \<Rightarrow> string" where
  "asg_host region = ''autoscaling.'' @ region @ ''.amazonaws.com''"

definition aws_call :: "string \<Rightarrow> string \<Rightarrow> string \<Rightarrow> (string \<times> string) list \<Rightarrow> string rio" where
  "aws_call host service region ps = call (AwsQuery host service region ps) (as_text LibFault)"

definition describe :: "string \<Rightarrow> string \<Rightarrow> asg_group list rio" where
  "describe region asg_name =
     attempt (aws_call (asg_host region) ''autoscaling'' region
       [(''Action'', ''DescribeAutoScalingGroups''), (''Version'', ''2011-01-01''),
        (''AutoScalingGroupNames.member.1'', asg_name)])
     (\<lambda>xml. Ret (Inr (parse_asg_describe xml)))"

definition set_desired_params :: "string \<Rightarrow> u32 \<Rightarrow> (string \<times> string) list" where
  "set_desired_params asg_name desired =
     [(''Action'', ''SetDesiredCapacity''), (''Version'', ''2011-01-01''),
      (''AutoScalingGroupName'', asg_name), (''DesiredCapacity'', show_word desired),
      (''HonorCooldown'', ''false'')]"

definition set_desired :: "string \<Rightarrow> string \<Rightarrow> u32 \<Rightarrow> unit rio" where
  "set_desired region asg_name desired =
     attempt (aws_call (asg_host region) ''autoscaling'' region (set_desired_params asg_name desired))
     (\<lambda>xml. Ret (if contains xml ''SetDesiredCapacityResponse'' then Inr ()
                else Inl (Bail (''Unexpected response from SetDesiredCapacity:'' @ [newline] @ xml))))"

definition terminate_params :: "string \<Rightarrow> bool \<Rightarrow> (string \<times> string) list" where
  "terminate_params instance_id decrement =
     [(''Action'', ''TerminateInstanceInAutoScalingGroup''), (''Version'', ''2011-01-01''),
      (''InstanceId'', instance_id),
      (''ShouldDecrementDesiredCapacity'', if decrement then ''true'' else ''false'')]"

definition asg_terminate_instance :: "string \<Rightarrow> string \<Rightarrow> bool \<Rightarrow> unit rio" where
  "asg_terminate_instance region instance_id decrement =
     attempt (aws_call (asg_host region) ''autoscaling'' region
       (terminate_params instance_id decrement))
     (\<lambda>xml. Ret (if contains xml ''TerminateInstanceInAutoScalingGroupResponse'' then Inr ()
                else Inl (Bail (''Unexpected response from TerminateInstanceInAutoScalingGroup:''
                  @ [newline] @ xml))))"

text \<open>The two mutating calls as commands, for the statements about what a component issues.\<close>

definition is_terminate :: "string \<Rightarrow> cmd \<Rightarrow> bool" where
  "is_terminate iid c \<longleftrightarrow> (\<exists>h s r d. c = AwsQuery h s r (terminate_params iid d))"

lemma emits_aws_call [simp]: "emits P (aws_call h s r ps) = P (AwsQuery h s r ps)"
  by (simp add: aws_call_def)

lemma emits_describe [simp]:
  "emits P (describe region name) = P (AwsQuery (asg_host region) ''autoscaling'' region
     [(''Action'', ''DescribeAutoScalingGroups''), (''Version'', ''2011-01-01''),
      (''AutoScalingGroupNames.member.1'', name)])"
  by (simp add: describe_def attempt_def aws_call_def call_def split: sum.splits)

lemma emits_set_desired [simp]:
  "emits P (set_desired region name d) =
     P (AwsQuery (asg_host region) ''autoscaling'' region (set_desired_params name d))"
  by (simp add: set_desired_def attempt_def aws_call_def call_def split: sum.splits)

lemma emits_asg_terminate [simp]:
  "emits P (asg_terminate_instance region iid d) =
     P (AwsQuery (asg_host region) ''autoscaling'' region (terminate_params iid d))"
  by (simp add: asg_terminate_instance_def attempt_def aws_call_def call_def split: sum.splits)

section \<open>The snapshot's view\<close>

record asg_group_info =
  gi_name :: string
  desired_capacity :: int
  min_size :: int
  max_size :: int

record asg_instance =
  instance_id :: string
  lifecycle_state :: string
  health_status :: string

definition would_violate_min :: "asg_group_info \<Rightarrow> bool" where
  "would_violate_min g \<longleftrightarrow> desired_capacity g \<le> min_size g"

definition is_in_service :: "asg_instance \<Rightarrow> bool" where
  "is_in_service i \<longleftrightarrow> lifecycle_state i = ''InService''"

definition group_info :: "asg_group \<Rightarrow> asg_group_info" where
  "group_info g = \<lparr> gi_name = g_name g, desired_capacity = g_desired_capacity g,
     min_size = g_min_size g, max_size = g_max_size g \<rparr>"

definition to_instance :: "raw_instance \<Rightarrow> asg_instance" where
  "to_instance i = \<lparr> instance_id = ri_instance_id i, lifecycle_state = ri_lifecycle_state i,
     health_status = ri_health_status i \<rparr>"

definition asg_view :: "asg_group list \<Rightarrow> asg_group_info option \<times> asg_instance list" where
  "asg_view groups =
     (case groups of [] \<Rightarrow> None | g # _ \<Rightarrow> Some (group_info g),
      sort_key instance_id (map to_instance (concat (map g_instances groups))))"

definition asg_read_all :: "string \<Rightarrow> string \<Rightarrow> (asg_group_info option \<times> asg_instance list) rio" where
  "asg_read_all region asg_name = attempt (describe region asg_name) (\<lambda>groups. Ret (Inr (asg_view groups)))"

lemma asg_view_sorted: "sorted (map instance_id (snd (asg_view gs)))"
  by (simp add: asg_view_def)

lemma asg_view_set:
  "set (snd (asg_view gs)) = to_instance ` (\<Union>g \<in> set gs. set (g_instances g))"
  by (simp add: asg_view_def)

lemma emits_asg_read_all: "(\<And>h s r ps. starts_with (aws_action ps) ''Describe'' \<Longrightarrow>
    P (AwsQuery h s r ps)) \<Longrightarrow> emits P (asg_read_all region name)"
  unfolding asg_read_all_def
  by (rule emits_attemptI) (simp_all add: aws_action_def starts_with_def)

end
