(* ===== verification/Snapshot.thy ===== *)
theory Snapshot
  imports Slot_Network Asg Redis_Pool
begin

text \<open>
  \<open>aeroscale/src/snapshot/\<close> and \<open>aeroscale/src/vrrp.rs\<close>: the read-only view of the system that the
  daemon acts on.  Weight files, Redis leases with the owner cache, the ASG and the IPVS table are
  read and joined by address.  The UTC time stamp is not modelled; the printed
  tables are in the theory Tables.
\<close>

section \<open>Backend states\<close>

datatype backend_state = Active | Draining | Disabled | Unknown string

definition from_weight_str :: "string \<Rightarrow> backend_state" where
  "from_weight_str s =
     (let t = trim s in
      if t = ''0'' then Active
      else if t = ''-1'' then Draining
      else if t = ''-2147483648'' then Disabled
      else Unknown t)"

fun label :: "backend_state \<Rightarrow> string" where
  "label Active = ''active''"
| "label Draining = ''draining''"
| "label Disabled = ''disabled''"
| "label (Unknown _) = ''unknown''"

fun colour :: "backend_state \<Rightarrow> string" where
  "colour Active = CHR 0x1B # ''[32m''"
| "colour Draining = CHR 0x1B # ''[33m''"
| "colour Disabled = CHR 0x1B # ''[90m''"
| "colour (Unknown _) = CHR 0x1B # ''[31m''"

lemma from_weight_str_trim [simp]: "from_weight_str (trim s) = from_weight_str s"
  by (simp add: from_weight_str_def)

section \<open>Leases\<close>

record slot_lease =
  sl_slot :: u32
  sl_owner :: string
  sl_expires_ms :: u64

definition remaining_ms :: "slot_lease \<Rightarrow> u64 \<Rightarrow> u64" where
  "remaining_ms l now = (if sl_expires_ms l > now then sl_expires_ms l - now else 0)"

definition is_expired :: "slot_lease \<Rightarrow> bool io" where
  "is_expired l = bind now_ms (\<lambda>now. Ret (sl_expires_ms l \<le> now))"

definition OWNER_MISSING :: string where "OWNER_MISSING = ''(missing)''"
definition OWNER_UNKNOWN :: string where "OWNER_UNKNOWN = ''(unknown)''"

type_synonym owner_cache = "u32 \<Rightarrow> string option"

text \<open>The three outcomes of the owner lookup.\<close>

definition resolve_owner :: "u32 \<Rightarrow> string option result \<Rightarrow> owner_cache \<Rightarrow> string \<times> owner_cache" where
  "resolve_owner slot r cache =
     (case r of
        Inr (Some i) \<Rightarrow> (i, cache(slot \<mapsto> i))
      | Inr None \<Rightarrow> (OWNER_MISSING, cache(slot := None))
      | Inl e \<Rightarrow> (case cache slot of Some c \<Rightarrow> (c, cache) | None \<Rightarrow> (OWNER_UNKNOWN, cache)))"

text \<open>The slot that a member of the lease list names: \<open>slot_str.parse().unwrap_or(0)\<close>.\<close>

definition member_slot :: "string \<Rightarrow> u32" where
  "member_slot m = or_else (parse_u32 m) 0"

definition read_lease ::
    "string \<times> nat \<Rightarrow> slot_lease list \<times> owner_cache \<Rightarrow> (slot_lease list \<times> owner_cache) io" where
  "read_lease = (\<lambda>(slot_str, expiry_score) (leases, cache).
     let slot = member_slot slot_str in
     bind (call (Redis (GET (key_owner slot_str))) as_bulk) (\<lambda>r.
     let (owner, cache') = resolve_owner slot r cache in
     Ret (leases @ [\<lparr>sl_slot = slot, sl_owner = owner, sl_expires_ms = score_u64 expiry_score\<rparr>], cache')))"

definition leases_read_all :: "owner_cache \<Rightarrow> (slot_lease list result \<times> owner_cache) io" where
  "leases_read_all cache =
     bind (ctx ''ZRANGE slots:leases WITHSCORES failed'' (call (Redis (ZRANGE KEY_LEASES)) as_scored))
     (\<lambda>x. case x of
        Inl e \<Rightarrow> Ret (Inl e, cache)
      | Inr raw \<Rightarrow>
          bind now_ms (\<lambda>now.
          bind (for_each read_lease raw ([], cache)) (\<lambda>(leases, cache').
          Ret (Inr (sort_key sl_slot leases), cache'))))"

section \<open>Weight files\<close>

record weight_entry =
  we_ip :: ipv4
  we_state :: backend_state

definition weight_file_ip :: "string \<Rightarrow> ipv4 option" where
  "weight_file_ip name =
     Option.bind (Option.bind (strip_prefix ''backend-'' name) (strip_suffix ''.weight'')) parse_ip"

definition weights_read_all :: "string \<Rightarrow> weight_entry list rio" where
  "weights_read_all weights_dir =
     attempt (ctx (''Cannot read weights directory: '' @ weights_dir)
       (call (ReadDir weights_dir) as_entries)) (\<lambda>dir.
     attempt (for_dir (\<lambda>name entries.
         case weight_file_ip name of
           None \<Rightarrow> Ret (Inr entries)
         | Some ip \<Rightarrow>
             attempt (ctx (''Cannot read weight file: '' @ weights_dir @ ''/'' @ name)
               (call (ReadFile (weights_dir @ ''/'' @ name)) (as_text LibFault))) (\<lambda>raw.
             Ret (Inr (entries @ [\<lparr>we_ip = ip, we_state = from_weight_str (trim raw)\<rparr>]))))
       dir []) (\<lambda>entries.
     Ret (Inr (sort_key we_ip entries))))"

section \<open>The IPVS table\<close>

record ipvs_backend =
  iv_ip :: ipv4
  iv_active :: u32
  iv_inactive :: u32

definition parse_hex_ip :: "string \<Rightarrow> ipv4 option" where
  "parse_hex_ip hex = map_option of_nat (parse_radix 16 (2 ^ 32) hex)"

definition parse_ipvs_line :: "string \<Rightarrow> ipvs_backend option" where
  "parse_ipvs_line line =
     (let trimmed = trim line in
      if \<not> starts_with trimmed ''->'' then None
      else
        let parts = split_whitespace trimmed in
        if length parts < 6 then None
        else case split_once (CHR '':'') (parts ! 1) of
               None \<Rightarrow> None
             | Some (hex_ip, hex_port) \<Rightarrow>
                 (case parse_hex_ip hex_ip of
                    None \<Rightarrow> None
                  | Some ip \<Rightarrow> Some \<lparr>iv_ip = ip, iv_active = or_else (parse_u32 (parts ! 4)) 0,
                                    iv_inactive = or_else (parse_u32 (parts ! 5)) 0\<rparr>))"

definition parse_ipvs :: "string \<Rightarrow> ipvs_backend list" where
  "parse_ipvs content = sort_key iv_ip (List.map_filter parse_ipvs_line (lines content))"

definition ipvs_read_all :: "ipvs_backend list rio" where
  "ipvs_read_all =
     bind (call (ReadFile ''/proc/net/ip_vs'') (as_text LibFault)) (\<lambda>x.
     Ret (Inr (case x of Inl e \<Rightarrow> [] | Inr content \<Rightarrow> parse_ipvs content)))"

section \<open>The snapshot\<close>

record backend_status =
  bs_ip :: ipv4
  bs_slot :: "u32 option"
  bs_state :: backend_state
  bs_ipvs :: "ipvs_backend option"
  bs_lease :: "slot_lease option"

record snapshot =
  backends :: "backend_status list"
  leases :: "slot_lease list"
  asg :: "asg_instance list"
  asg_group :: "asg_group_info option"
  ipvs :: "ipvs_backend list"
  taken_at :: nat

definition ip_to_lease :: "slot_network \<Rightarrow> slot_lease list \<Rightarrow> ipv4 \<Rightarrow> slot_lease option" where
  "ip_to_lease net ls = map_of (rev (map (\<lambda>l. (ip_for_slot net (sl_slot l), l)) ls))"

definition join_backend ::
    "slot_network \<Rightarrow> slot_lease list \<Rightarrow> ipvs_backend list \<Rightarrow> weight_entry \<Rightarrow> backend_status" where
  "join_backend net ls ivs w =
     \<lparr>bs_ip = we_ip w, bs_slot = slot_for_ip net (we_ip w), bs_state = we_state w,
      bs_ipvs = List.find (\<lambda>i. iv_ip i = we_ip w) ivs, bs_lease = ip_to_lease net ls (we_ip w)\<rparr>"

definition collect ::
    "string \<Rightarrow> string \<Rightarrow> string \<Rightarrow> slot_network \<Rightarrow> owner_cache \<Rightarrow> (snapshot result \<times> owner_cache) io" where
  "collect weights_dir region asg_name net cache =
     bind (weights_read_all weights_dir) (\<lambda>x. case x of
       Inl e \<Rightarrow> Ret (Inl e, cache)
     | Inr weight_entries \<Rightarrow>
         bind (leases_read_all cache) (\<lambda>(y, cache'). case y of
           Inl e \<Rightarrow> Ret (Inl e, cache')
         | Inr lease_list \<Rightarrow>
             bind (asg_read_all region asg_name) (\<lambda>g.
             let (group, instances) = (case g of Inl e \<Rightarrow> (None, []) | Inr v \<Rightarrow> v) in
             bind ipvs_read_all (\<lambda>i.
             let ipvs_backends = (case i of Inl e \<Rightarrow> [] | Inr v \<Rightarrow> v) in
             bind instant_now (\<lambda>t.
             Ret (Inr \<lparr>backends = map (join_backend net lease_list ipvs_backends) weight_entries,
                       leases = lease_list, asg = instances, asg_group = group,
                       ipvs = ipvs_backends, taken_at = t\<rparr>, cache'))))))"

text \<open>The numbers of the summary line.\<close>

definition summary :: "snapshot \<Rightarrow> nat \<times> nat \<times> nat \<times> nat \<times> nat \<times> u32" where
  "summary s =
     (let active_count = length (filter (\<lambda>b. bs_state b = Active) (backends s));
          draining_count = length (filter (\<lambda>b. bs_state b = Draining) (backends s))
      in (active_count, draining_count, length (backends s) - (active_count + draining_count),
          length (leases s), length (filter is_in_service (asg s)), sum_list (map iv_active (ipvs s))))"

section \<open>VRRP role\<close>

definition is_master :: "ipv4 \<Rightarrow> bool io" where
  "is_master vip_inside =
     bind (call IpAddrShow (as_text LibFault)) (\<lambda>x.
     Ret (case x of Inl e \<Rightarrow> False | Inr stdout \<Rightarrow> contains stdout (show_ip vip_inside)))"

section \<open>What a snapshot is\<close>

lemma weights_reads: "emits (\<lambda>c. \<not> mutates c) (weights_read_all d)"
  unfolding weights_read_all_def
  by (auto intro!: emits_attemptI emits_for_dir split: option.splits)

text \<open>The leases that are read are, up to their owners, the members that Redis lists, with their scores.\<close>

lemma read_lease_adds:
  assumes "runs (read_lease x (ls, c)) t (ls', c')"
  shows "\<exists>o'. ls' = ls @ [\<lparr>sl_slot = member_slot (fst x), sl_owner = o', sl_expires_ms = score_u64 (snd x)\<rparr>]"
  using assms by (auto simp: read_lease_def runs_bind_iff Let_def split_beta)

lemma read_leases_members:
  "runs (for_each read_lease raw (ls, c)) t (ls', c') \<Longrightarrow>
   map (\<lambda>l. (sl_slot l, sl_expires_ms l)) ls' =
   map (\<lambda>l. (sl_slot l, sl_expires_ms l)) ls @ map (\<lambda>(m, e). (member_slot m, score_u64 e)) raw"
proof (induction raw arbitrary: ls c t)
  case (Cons x raw)
  obtain t1 t2 ls1 c1 where "runs (read_lease x (ls, c)) t1 (ls1, c1)"
      and r: "runs (for_each read_lease raw (ls1, c1)) t2 (ls', c')"
    using Cons.prems by (auto elim!: runs_bindE)
  then show ?case using Cons.IH [OF r] by (auto dest!: read_lease_adds simp: split_beta)
qed simp

lemma leases_read_members:
  assumes "runs (leases_read_all cache) t (x, c)"
  shows "\<exists>r. (Redis (ZRANGE KEY_LEASES), r) \<in> set t \<and>
    (case x of
       Inl e \<Rightarrow> \<forall>raw. r \<noteq> Scored raw
     | Inr ls \<Rightarrow> \<exists>raw. r = Scored raw \<and>
         (\<lambda>l. (sl_slot l, sl_expires_ms l)) ` set ls = (\<lambda>(m, e). (member_slot m, score_u64 e)) ` set raw)"
proof -
  obtain y t1 t2 where t: "t = t1 @ t2"
    and r1: "runs (ctx ''ZRANGE slots:leases WITHSCORES failed'' (call (Redis (ZRANGE KEY_LEASES)) as_scored)) t1 y"
    and r2: "runs (case y of Inl e \<Rightarrow> Ret (Inl e, cache)
      | Inr raw \<Rightarrow> bind now_ms (\<lambda>now. bind (for_each read_lease raw ([], cache)) (\<lambda>(leases, cache').
          Ret (Inr (sort_key sl_slot leases), cache')))) t2 (x, c)"
    using assms unfolding leases_read_all_def by (rule runs_bindE)
  from r1 obtain r where r: "t1 = [(Redis (ZRANGE KEY_LEASES), r)]" and y: "y = with_ctx ''ZRANGE slots:leases WITHSCORES failed'' (as_scored r)"
    by (auto simp: runs_ctx runs_call)
  show ?thesis
  proof (cases "\<exists>raw. r = Scored raw")
    case False
    then have "\<exists>e. y = Inl e" using y by (cases r) (simp_all add: as_scored_def bad_def)
    then show ?thesis using r r2 t False by auto
  next
    case True
    then obtain raw where raw: "r = Scored raw" ..
    then have "y = Inr raw" using y by (simp add: as_scored_def)
    then obtain v ls0 where v: "runs (for_each read_lease raw ([], cache)) v (ls0, c)"
        and x: "x = Inr (sort_key sl_slot ls0)"
      using r2 by (auto elim!: runs_bindE)
    from read_leases_members [OF v]
    have "map (\<lambda>l. (sl_slot l, sl_expires_ms l)) ls0 = map (\<lambda>(m, e). (member_slot m, score_u64 e)) raw" by simp
    from arg_cong [OF this, of set] show ?thesis using r raw x t by auto
  qed
qed

lemma leases_reads: "emits (\<lambda>c. \<not> mutates c) (leases_read_all cache)"
  unfolding leases_read_all_def read_lease_def
  by (auto intro!: emits_bindI emits_for_each split: sum.splits prod.splits simp: Let_def)

lemma ipvs_reads: "emits (\<lambda>c. \<not> mutates c) ipvs_read_all"
  unfolding ipvs_read_all_def by (auto intro!: emits_bindI)

lemma asg_reads: "emits (\<lambda>c. \<not> mutates c) (asg_read_all r n)"
  by (rule emits_asg_read_all) simp

lemma collect_reads: "emits (\<lambda>c. \<not> mutates c) (collect wd r n net cache)"
  unfolding collect_def Let_def
  by (intro emits_bindI weights_reads)
    (auto intro!: emits_bindI leases_reads asg_reads ipvs_reads split: sum.splits prod.splits)

text \<open>
  The lease that a backend is joined with belongs to the backend's slot, and the sentinel owners
  never enter the cache.
\<close>

lemma join_lease_slot:
  assumes "\<forall>l \<in> set ls. slot_in_range net (sl_slot l)"
    and "bs_lease (join_backend net ls ivs w) = Some l"
  shows "l \<in> set ls \<and> bs_slot (join_backend net ls ivs w) = Some (sl_slot l)"
proof -
  have "ip_to_lease net ls (we_ip w) = Some l" using assms(2) by (simp add: join_backend_def)
  then have m: "map_of (rev (map (\<lambda>l. (ip_for_slot net (sl_slot l), l)) ls)) (we_ip w) = Some l"
    by (simp add: ip_to_lease_def)
  then have "(we_ip w, l) \<in> set (rev (map (\<lambda>l. (ip_for_slot net (sl_slot l), l)) ls))"
    by (rule map_of_SomeD)
  then have l: "l \<in> set ls" "we_ip w = ip_for_slot net (sl_slot l)" by auto
  with assms(1) show ?thesis by (simp add: join_backend_def slot_for_ip_for_slot)
qed

text \<open>A usable slot that is leased shows its lease on the backend of its address.\<close>

lemma join_lease_found:
  assumes "l \<in> set ls" "\<forall>x \<in> set ls. slot_in_range net (sl_slot x)" "distinct (map sl_slot ls)"
    and "we_ip w = ip_for_slot net (sl_slot l)"
  shows "bs_lease (join_backend net ls ivs w) = Some l"
proof -
  let ?m = "map (\<lambda>l. (ip_for_slot net (sl_slot l), l)) ls"
  have "inj_on (ip_for_slot net) (sl_slot ` set ls)"
    using assms(2) by (auto simp: inj_on_def dest: sn.to_ip_inj)
  then have "distinct (map fst ?m)"
    using assms(3) by (simp add: distinct_map comp_def inj_on_def)
  then have "distinct (map fst (rev ?m))" by (simp only: rev_map [symmetric] distinct_rev)
  then have "map_of (rev ?m) (we_ip w) = Some l"
    using assms(1,4) by (intro map_of_is_SomeI) auto
  then show ?thesis by (simp add: join_backend_def ip_to_lease_def)
qed

lemma returns_leases:
  "returns (\<lambda>(x, cache'). case x of Inl e \<Rightarrow> cache' = cache | Inr ls \<Rightarrow> sorted (map sl_slot ls))
     (leases_read_all cache)"
  unfolding leases_read_all_def
  by (rule returns_bindI) (auto intro!: returns_bindI split: sum.splits prod.splits)

text \<open>The owner reported for a lease is the stored one, the cached one, or a sentinel.\<close>

lemma resolve_owner_cases:
  "fst (resolve_owner slot r cache) =
     (case r of Inr (Some i) \<Rightarrow> i | Inr None \<Rightarrow> OWNER_MISSING | Inl e \<Rightarrow> or_else (cache slot) OWNER_UNKNOWN)"
  by (auto simp: resolve_owner_def or_else_def split: sum.splits option.splits)

lemma summary_partition:
  "summary s = (a, d, x, l, i, c) \<Longrightarrow>
   a + d + x = length (backends s) \<and>
   x = length (filter (\<lambda>b. bs_state b \<noteq> Active \<and> bs_state b \<noteq> Draining) (backends s))"
proof -
  let ?A = "\<lambda>b. bs_state b = Active" and ?D = "\<lambda>b. bs_state b = Draining"
  have "length (filter ?A bs) + length (filter ?D bs)
      + length (filter (\<lambda>b. \<not> ?A b \<and> \<not> ?D b) bs) = length bs" for bs :: "backend_status list"
    by (induction bs) auto
  from this [of "backends s"] show "summary s = (a, d, x, l, i, c) \<Longrightarrow> ?thesis"
    by (auto simp: summary_def Let_def)
qed

end
