(* ===== verification/Cleanup.thy ===== *)
theory Cleanup
  imports Snapshot
begin

text \<open>
  \<open>aeroscale/src/cleanup/mod.rs\<close>: the cleanup pass of the master, and the two actions it shares with
  the other parts of the daemon, \<open>write_weight\<close> and \<open>terminate_instance\<close>.  The orphan timers are
  kept across passes; instants are nanoseconds.
\<close>

section \<open>Actions\<close>

definition WEIGHT_ACTIVE :: string where "WEIGHT_ACTIVE = ''0''"
definition WEIGHT_DRAINING :: string where "WEIGHT_DRAINING = ''-1''"
definition WEIGHT_DISABLED :: string where "WEIGHT_DISABLED = ''-2147483648''"

lemma weights_distinct [simp]:
  "WEIGHT_ACTIVE \<noteq> WEIGHT_DRAINING" "WEIGHT_ACTIVE \<noteq> WEIGHT_DISABLED" "WEIGHT_DRAINING \<noteq> WEIGHT_DISABLED"
  "WEIGHT_DRAINING \<noteq> WEIGHT_ACTIVE" "WEIGHT_DISABLED \<noteq> WEIGHT_ACTIVE" "WEIGHT_DISABLED \<noteq> WEIGHT_DRAINING"
  by (simp_all add: WEIGHT_ACTIVE_def WEIGHT_DRAINING_def WEIGHT_DISABLED_def)

definition weight_path :: "string \<Rightarrow> ipv4 \<Rightarrow> string" where
  "weight_path weights_dir ip = weights_dir @ ''/backend-'' @ show_ip ip @ ''.weight''"

definition write_weight :: "string \<Rightarrow> ipv4 \<Rightarrow> string \<Rightarrow> bool \<Rightarrow> unit rio" where
  "write_weight weights_dir ip value dry_run =
     (let path = weight_path weights_dir ip in
      if dry_run then Ret (Inr ())
      else ctx (''Cannot write weight file: '' @ path) (call (WriteFile path value) (as_unit LibFault)))"

definition release_slot :: "u32 \<Rightarrow> string \<Rightarrow> bool \<Rightarrow> unit rio" where
  "release_slot slot owner dry_run =
     (let slot_str = show_word slot in
      if dry_run then Ret (Inr ())
      else
        bind now_ms (\<lambda>now.
        attempt (ctx ''DEL owner failed'' (redis_unit (DEL (key_owner slot_str)))) (\<lambda>_.
        attempt (ctx ''ZREM leases failed'' (redis_unit (ZREM KEY_LEASES slot_str))) (\<lambda>_.
        attempt (ctx ''ZADD available failed'' (redis_unit (ZADD KEY_AVAILABLE (unat now) slot_str))) (\<lambda>_.
        Ret (Inr ()))))))"

definition terminate_instance :: "string \<Rightarrow> string \<Rightarrow> bool \<Rightarrow> bool \<Rightarrow> unit rio" where
  "terminate_instance iid region dry_run decrement =
     (if dry_run then Ret (Inr ()) else asg_terminate_instance region iid decrement)"

section \<open>Section 2.1: active leases\<close>

record cleanup_env =
  ce_weights_dir :: string
  ce_region :: string
  ce_dry_run :: bool
  ce_decrement :: bool

definition serves :: "backend_status \<Rightarrow> u32 \<Rightarrow> bool" where
  "serves b slot \<longleftrightarrow> map_option sl_slot (bs_lease b) = Some slot"

definition backend_of_slot :: "snapshot \<Rightarrow> u32 \<Rightarrow> backend_status option" where
  "backend_of_slot s slot =
     List.find (\<lambda>b. serves b slot) (backends s)"

definition active_conn :: "backend_status \<Rightarrow> u32" where
  "active_conn b = (case bs_ipvs b of None \<Rightarrow> 0 | Some i \<Rightarrow> iv_active i)"

definition group_at_min :: "snapshot \<Rightarrow> bool" where
  "group_at_min s = (case asg_group s of None \<Rightarrow> False | Some g \<Rightarrow> would_violate_min g)"

definition handle_lease ::
    "cleanup_env \<Rightarrow> string list \<Rightarrow> snapshot \<Rightarrow> slot_lease \<Rightarrow> unit rio" where
  "handle_lease env asg_ids s l =
     (let slot = sl_slot l; owner = sl_owner l; in_asg = (owner \<in> set asg_ids);
          backend = backend_of_slot s slot;
          wd = ce_weights_dir env; dry = ce_dry_run env
      in
      if owner = OWNER_MISSING then Ret (Inr ())
      else if owner = OWNER_UNKNOWN then Ret (Inr ())
      else if \<not> in_asg then
        attempt (release_slot slot owner dry) (\<lambda>_.
        case backend of
          None \<Rightarrow> Ret (Inr ())
        | Some b \<Rightarrow> write_weight wd (bs_ip b) WEIGHT_DISABLED dry)
      else
        case backend of
          None \<Rightarrow> Ret (Inr ())
        | Some b \<Rightarrow>
            (case bs_state b of
               Active \<Rightarrow> Ret (Inr ())
             | Draining \<Rightarrow>
                 if active_conn b = 0 then
                   (if group_at_min s then Ret (Inr ())
                    else
                      attempt (write_weight wd (bs_ip b) WEIGHT_DISABLED dry) (\<lambda>_.
                      terminate_instance owner (ce_region env) dry (ce_decrement env)))
                 else Ret (Inr ())
             | Disabled \<Rightarrow>
                 bind (is_expired l) (\<lambda>ex.
                 if ex then Ret (Inr ()) else write_weight wd (bs_ip b) WEIGHT_ACTIVE dry)
             | Unknown v \<Rightarrow> Ret (Inr ())))"

definition in_service_ids :: "snapshot \<Rightarrow> string list" where
  "in_service_ids s = map instance_id (filter is_in_service (asg s))"

text \<open>The guard against an ASG answer that cannot be trusted.\<close>

definition asg_plausible :: "snapshot \<Rightarrow> bool" where
  "asg_plausible s \<longleftrightarrow> asg_group s \<noteq> None \<and> \<not> (in_service_ids s = [] \<and> leases s \<noteq> [])"

definition section_21 :: "cleanup_env \<Rightarrow> snapshot \<Rightarrow> unit io" where
  "section_21 env s =
     (let asg_ids = in_service_ids s in
      if asg_group s = None then Ret ()
      else if asg_ids = [] \<and> leases s \<noteq> [] then Ret ()
      else for_each (\<lambda>l _. bind (handle_lease env asg_ids s l) (\<lambda>_. Ret ())) (leases s) ())"

section \<open>Section 2.2: instances without a lease\<close>

type_synonym orphans = "string \<Rightarrow> nat option"

definition elapsed_secs :: "nat \<Rightarrow> nat \<Rightarrow> nat" where
  "elapsed_secs first now = (now - first) div 10 ^ 9"

definition orphan_step ::
    "cleanup_env \<Rightarrow> string list \<Rightarrow> u64 \<Rightarrow> asg_instance \<Rightarrow> orphans \<times> string set \<Rightarrow> (orphans \<times> string set) io" where
  "orphan_step env leased_owners grace inst st =
     (let (seen, still) = st; i = instance_id inst in
      if i \<in> set leased_owners then Ret (seen(i := None), still)
      else case seen i of
        None \<Rightarrow> bind instant_now (\<lambda>t. Ret (seen(i \<mapsto> t), insert i still))
      | Some first_seen \<Rightarrow>
          bind instant_now (\<lambda>t.
          if elapsed_secs first_seen t < unat grace then Ret (seen, insert i still)
          else
            bind (terminate_instance i (ce_region env) (ce_dry_run env) False) (\<lambda>_.
            Ret (seen(i := None), insert i still - {i}))))"

definition section_22 :: "cleanup_env \<Rightarrow> u64 \<Rightarrow> snapshot \<Rightarrow> orphans \<Rightarrow> orphans io" where
  "section_22 env grace s seen =
     (let leased_owners = map sl_owner (leases s) in
      bind (for_each (orphan_step env leased_owners grace) (filter is_in_service (asg s)) (seen, {}))
      (\<lambda>(seen', still). Ret (\<lambda>i. if i \<in> still then seen' i else None)))"

section \<open>Section 2.3: backends without a lease\<close>

definition unleased_step :: "cleanup_env \<Rightarrow> backend_status \<Rightarrow> unit io" where
  "unleased_step env b =
     (if bs_lease b \<noteq> None then Ret ()
      else case bs_state b of
        Active \<Rightarrow> bind (write_weight (ce_weights_dir env) (bs_ip b) WEIGHT_DISABLED (ce_dry_run env)) (\<lambda>_. Ret ())
      | Draining \<Rightarrow> bind (write_weight (ce_weights_dir env) (bs_ip b) WEIGHT_DISABLED (ce_dry_run env)) (\<lambda>_. Ret ())
      | Disabled \<Rightarrow> Ret ()
      | Unknown v \<Rightarrow> Ret ())"

definition section_23 :: "cleanup_env \<Rightarrow> snapshot \<Rightarrow> unit io" where
  "section_23 env s = for_each (\<lambda>b _. unleased_step env b) (backends s) ()"

definition cleanup_run ::
    "cleanup_env \<Rightarrow> bool \<Rightarrow> u64 \<Rightarrow> snapshot \<Rightarrow> orphans \<Rightarrow> (unit result \<times> orphans) io" where
  "cleanup_run env master grace s seen =
     (if \<not> master then Ret (Inr (), seen)
      else
        bind (section_21 env s) (\<lambda>_.
        bind (section_22 env grace s seen) (\<lambda>seen'.
        bind (section_23 env s) (\<lambda>_.
        Ret (Inr (), seen')))))"

section \<open>What a pass may change\<close>

text \<open>
  The mutating commands that a pass may issue, each with the facts of the snapshot that justify it.
\<close>

inductive justified :: "cleanup_env \<Rightarrow> u64 \<Rightarrow> snapshot \<Rightarrow> orphans \<Rightarrow> cmd \<Rightarrow> bool"
  for env grace s seen where
  reading: "\<not> mutates c \<Longrightarrow> justified env grace s seen c"
| releasing: "l \<in> set (leases s) \<Longrightarrow> asg_plausible s \<Longrightarrow> sl_owner l \<notin> set (in_service_ids s) \<Longrightarrow>
    sl_owner l \<noteq> OWNER_MISSING \<Longrightarrow> sl_owner l \<noteq> OWNER_UNKNOWN \<Longrightarrow>
    rc \<in> {DEL (key_owner (show_word (sl_slot l))), ZREM KEY_LEASES (show_word (sl_slot l))} \<union>
      {ZADD KEY_AVAILABLE n (show_word (sl_slot l)) |n. True} \<Longrightarrow>
    \<not> ce_dry_run env \<Longrightarrow> justified env grace s seen (Redis rc)"
| disabling_gone: "l \<in> set (leases s) \<Longrightarrow> asg_plausible s \<Longrightarrow> sl_owner l \<notin> set (in_service_ids s) \<Longrightarrow>
    sl_owner l \<noteq> OWNER_MISSING \<Longrightarrow> sl_owner l \<noteq> OWNER_UNKNOWN \<Longrightarrow>
    b \<in> set (backends s) \<Longrightarrow> serves b (sl_slot l) \<Longrightarrow> \<not> ce_dry_run env \<Longrightarrow>
    justified env grace s seen (WriteFile (weight_path (ce_weights_dir env) (bs_ip b)) WEIGHT_DISABLED)"
| disabling_drained: "l \<in> set (leases s) \<Longrightarrow> asg_plausible s \<Longrightarrow> sl_owner l \<in> set (in_service_ids s) \<Longrightarrow>
    b \<in> set (backends s) \<Longrightarrow> serves b (sl_slot l) \<Longrightarrow>
    bs_state b = Draining \<Longrightarrow> active_conn b = 0 \<Longrightarrow> \<not> group_at_min s \<Longrightarrow> \<not> ce_dry_run env \<Longrightarrow>
    justified env grace s seen (WriteFile (weight_path (ce_weights_dir env) (bs_ip b)) WEIGHT_DISABLED)"
| disabling_unleased: "b \<in> set (backends s) \<Longrightarrow> bs_lease b = None \<Longrightarrow> bs_state b = Active \<or> bs_state b = Draining \<Longrightarrow>
    \<not> ce_dry_run env \<Longrightarrow>
    justified env grace s seen (WriteFile (weight_path (ce_weights_dir env) (bs_ip b)) WEIGHT_DISABLED)"
| enabling: "l \<in> set (leases s) \<Longrightarrow> asg_plausible s \<Longrightarrow> sl_owner l \<in> set (in_service_ids s) \<Longrightarrow>
    b \<in> set (backends s) \<Longrightarrow> serves b (sl_slot l) \<Longrightarrow>
    bs_state b = Disabled \<Longrightarrow> \<not> ce_dry_run env \<Longrightarrow>
    justified env grace s seen (WriteFile (weight_path (ce_weights_dir env) (bs_ip b)) WEIGHT_ACTIVE)"
| terminating_drained: "l \<in> set (leases s) \<Longrightarrow> asg_plausible s \<Longrightarrow> sl_owner l \<in> set (in_service_ids s) \<Longrightarrow>
    b \<in> set (backends s) \<Longrightarrow> serves b (sl_slot l) \<Longrightarrow>
    bs_state b = Draining \<Longrightarrow> active_conn b = 0 \<Longrightarrow> \<not> group_at_min s \<Longrightarrow> \<not> ce_dry_run env \<Longrightarrow>
    justified env grace s seen (AwsQuery (asg_host (ce_region env)) ''autoscaling'' (ce_region env)
      (terminate_params (sl_owner l) (ce_decrement env)))"
| terminating_orphan: "i \<in> set (asg s) \<Longrightarrow> is_in_service i \<Longrightarrow> instance_id i \<notin> sl_owner ` set (leases s) \<Longrightarrow>
    \<not> ce_dry_run env \<Longrightarrow>
    justified env grace s seen (AwsQuery (asg_host (ce_region env)) ''autoscaling'' (ce_region env)
      (terminate_params (instance_id i) False))"

lemma emits_write_weight [simp]:
  "emits P (write_weight wd ip v dry) = (\<not> dry \<longrightarrow> P (WriteFile (weight_path wd ip) v))"
  by (simp add: write_weight_def Let_def)

lemma emits_terminate [simp]:
  "emits P (terminate_instance i r dry d) =
     (\<not> dry \<longrightarrow> P (AwsQuery (asg_host r) ''autoscaling'' r (terminate_params i d)))"
  by (simp add: terminate_instance_def)

lemma emits_release_slot:
  assumes "\<not> dry \<Longrightarrow> P NowMs"
    and "\<And>rc. \<not> dry \<Longrightarrow> rc \<in> {DEL (key_owner (show_word slot)), ZREM KEY_LEASES (show_word slot)} \<union>
      {ZADD KEY_AVAILABLE n (show_word slot) |n. True} \<Longrightarrow> P (Redis rc)"
  shows "emits P (release_slot slot owner dry)"
proof (cases dry)
  case False
  then have "P NowMs" and "P (Redis (DEL (key_owner (show_word slot))))"
    and "P (Redis (ZREM KEY_LEASES (show_word slot)))"
    and "\<And>n. P (Redis (ZADD KEY_AVAILABLE n (show_word slot)))"
    using assms by auto
  with False show ?thesis
    unfolding release_slot_def Let_def by (simp add: emits_attemptI emits_bindI)
qed (simp add: release_slot_def)

lemma emits_is_expired [simp]: "emits P (is_expired l) = P NowMs"
  by (auto simp: is_expired_def now_ms_def)

lemma backend_of_slot_SomeD:
  "backend_of_slot s slot = Some b \<Longrightarrow> b \<in> set (backends s) \<and> serves b slot"
  unfolding backend_of_slot_def by (rule find_SomeD)

lemma handle_lease_justified:
  assumes "l \<in> set (leases s)" "asg_plausible s"
  shows "emits (justified env grace s seen) (handle_lease env (in_service_ids s) s l)"
proof -
  have rd: "justified env grace s seen NowMs" by (rule reading) simp
  show ?thesis
    unfolding handle_lease_def Let_def
    using assms rd
    by (auto intro!: emits_attemptI emits_bindI emits_release_slot
        intro: releasing disabling_gone disabling_drained enabling terminating_drained
        dest!: backend_of_slot_SomeD split: option.splits backend_state.splits)
qed

lemma section_21_justified: "emits (justified env grace s seen) (section_21 env s)"
proof (cases "asg_plausible s")
  case True
  show ?thesis
    unfolding section_21_def Let_def
    by (auto intro!: emits_for_each emits_bindI handle_lease_justified True)
next
  case False
  then show ?thesis by (auto simp: section_21_def asg_plausible_def Let_def)
qed

lemma emits_instant_now_read [simp]: "justified env grace s seen NowInstant"
  by (rule reading) simp

lemma orphan_step_justified:
  assumes "i \<in> set (asg s)" "is_in_service i"
  shows "emits (justified env grace s seen0) (orphan_step env (map sl_owner (leases s)) grace i st)"
proof (cases "instance_id i \<in> sl_owner ` set (leases s)")
  case False
  then show ?thesis
    using terminating_orphan [OF assms False, of env grace seen0]
    by (auto simp: orphan_step_def Let_def split: prod.splits option.splits intro!: emits_bindI)
qed (auto simp: orphan_step_def Let_def split: prod.splits)

lemma section_22_justified: "emits (justified env grace s seen) (section_22 env grace s seen)"
  unfolding section_22_def Let_def
  by (intro emits_bindI emits_for_each) (auto intro!: orphan_step_justified split: prod.splits)

lemma section_23_justified: "emits (justified env grace s seen) (section_23 env s)"
proof -
  have "emits (justified env grace s seen) (unleased_step env b)" if "b \<in> set (backends s)" for b
    using disabling_unleased [OF that, of env grace seen]
    by (auto simp: unleased_step_def intro!: emits_bindI split: backend_state.splits)
  then show ?thesis unfolding section_23_def by (intro emits_for_each)
qed

lemma cleanup_run_justified:
  "emits (justified env grace s seen) (cleanup_run env master grace s seen)"
  unfolding cleanup_run_def
  by (auto intro!: emits_bindI section_21_justified section_22_justified section_23_justified)

inductive_cases justifiedE: "justified env grace s seen c"

lemma justified_dry: "ce_dry_run env \<Longrightarrow> justified env grace s seen c \<Longrightarrow> \<not> mutates c"
  by (auto elim: justifiedE)

section \<open>The order of a drained backend's end\<close>

text \<open>
  In every run that terminates a lease's owner, the weight file has been disabled first, and that
  write succeeded.
\<close>

lemma terminate_not_write:
  "runs (write_weight wd ip v dry) t x \<Longrightarrow> (AwsQuery h sv r ps, rp) \<notin> set t"
  by (auto simp: write_weight_def Let_def runs_ctx runs_call split: if_splits)

lemma terminate_not_release:
  assumes "runs (release_slot slot owner dry) t x"
  shows "(AwsQuery h sv r ps, rp) \<notin> set t"
proof -
  have "emits (\<lambda>c. \<nexists>h sv r ps. c = AwsQuery h sv r ps) (release_slot slot owner dry)"
    by (rule emits_release_slot) auto
  from emits_runs [OF assms this] show ?thesis by blast
qed

lemma handle_lease_terminates:
  assumes "runs (handle_lease env ids s l) t x" "(AwsQuery h sv r ps, rp) \<in> set t"
  shows "\<exists>b wr rest. backend_of_slot s (sl_slot l) = Some b \<and> bs_state b = Draining \<and>
    active_conn b = 0 \<and> \<not> group_at_min s \<and> sl_owner l \<in> set ids \<and>
    ps = terminate_params (sl_owner l) (ce_decrement env) \<and>
    t = (WriteFile (weight_path (ce_weights_dir env) (bs_ip b)) WEIGHT_DISABLED, wr) # rest \<and>
    (\<forall>f. wr \<noteq> Failed f)"
proof -
  let ?wd = "ce_weights_dir env" and ?dry = "ce_dry_run env" and ?o = "sl_owner l"
  have no: "?o \<noteq> OWNER_MISSING" "?o \<noteq> OWNER_UNKNOWN" "?o \<in> set ids"
    using assms terminate_not_write terminate_not_release
    by (auto simp: handle_lease_def Let_def elim!: runs_attemptE split: if_splits option.splits;
        blast)+
  then obtain b where b: "backend_of_slot s (sl_slot l) = Some b"
    using assms by (auto simp: handle_lease_def Let_def split: option.splits)
  have st: "bs_state b = Draining" "active_conn b = 0" "\<not> group_at_min s"
    using assms no b terminate_not_write
    by (auto simp: handle_lease_def Let_def is_expired_def now_ms_def runs_Op_iff elim!: runs_bindE
        split: if_splits backend_state.splits)
  then have r: "runs (attempt (write_weight ?wd (bs_ip b) WEIGHT_DISABLED ?dry) (\<lambda>_.
      terminate_instance ?o (ce_region env) ?dry (ce_decrement env))) t x"
    using assms(1) no b by (simp add: handle_lease_def Let_def)
  then show ?thesis
  proof (cases rule: runs_attemptE)
    case (err e)
    then show ?thesis using terminate_not_write assms(2) by blast
  next
    case (ok t1 t2 u)
    have nd: "\<not> ?dry"
      using ok assms(2) by (auto simp: write_weight_def terminate_instance_def Let_def)
    then obtain wr where w: "t1 = [(WriteFile (weight_path ?wd (bs_ip b)) WEIGHT_DISABLED, wr)]"
      "\<forall>f. wr \<noteq> Failed f"
      using ok(2) by (auto simp: write_weight_def Let_def runs_ctx runs_call) (metis decode_Inr(1))
    have "(AwsQuery h sv r ps, rp) \<in> set t2" using ok(1) w(1) assms(2) by auto
    moreover have "emits (\<lambda>c. c = AwsQuery (asg_host (ce_region env)) ''autoscaling'' (ce_region env)
        (terminate_params ?o (ce_decrement env)))
      (terminate_instance ?o (ce_region env) ?dry (ce_decrement env))" by simp
    ultimately have "ps = terminate_params ?o (ce_decrement env)"
      using emits_runs [OF ok(3)] by blast
    then show ?thesis using b st no w ok(1) by auto
  qed
qed

section \<open>The grace period\<close>

lemma orphan_step_runs:
  assumes "runs (orphan_step env owners grace i (seen, still)) t st"
    and "(AwsQuery h sv r ps, rp) \<in> set t"
  shows "\<exists>first clk. seen (instance_id i) = Some first \<and> (NowInstant, clk) \<in> set t \<and>
    unat grace \<le> elapsed_secs first (as_nanos clk) \<and> instance_id i \<notin> set owners \<and>
    ps = terminate_params (instance_id i) False"
proof (cases "seen (instance_id i)")
  case None
  then show ?thesis using assms
    by (auto simp: orphan_step_def Let_def instant_now_def runs_Op_iff elim!: runs_bindE split: if_splits)
next
  case (Some first)
  have no: "instance_id i \<notin> set owners"
    using assms by (auto simp: orphan_step_def Let_def split: if_splits)
  obtain clk t2 where t: "t = (NowInstant, clk) # t2"
    and r: "runs (if elapsed_secs first (as_nanos clk) < unat grace then Ret (seen, insert (instance_id i) still)
          else bind (terminate_instance (instance_id i) (ce_region env) (ce_dry_run env) False) (\<lambda>_.
            Ret (seen(instance_id i := None), insert (instance_id i) still - {instance_id i}))) t2 st"
    using assms(1) no Some
    by (auto simp: orphan_step_def Let_def instant_now_def runs_Op_iff elim!: runs_bindE)
  have el: "unat grace \<le> elapsed_secs first (as_nanos clk)"
    using r t assms(2) by (auto split: if_splits)
  obtain u where u: "runs (terminate_instance (instance_id i) (ce_region env) (ce_dry_run env) False) t2 u"
    using r el by (auto elim!: runs_bindE)
  have e: "emits (\<lambda>c. c = AwsQuery (asg_host (ce_region env)) ''autoscaling'' (ce_region env)
      (terminate_params (instance_id i) False))
    (terminate_instance (instance_id i) (ce_region env) (ce_dry_run env) False)" by simp
  have m: "(AwsQuery h sv r ps, rp) \<in> set t2" using t assms(2) by auto
  have "ps = terminate_params (instance_id i) False"
    using emits_runs [OF u e m] by (simp only: cmd.inject)
  then show ?thesis using Some no el t by auto
qed

lemma asg_terminate_issued:
  "runs (asg_terminate_instance region iid d) t x \<Longrightarrow>
   \<exists>rp. (AwsQuery (asg_host region) ''autoscaling'' region (terminate_params iid d), rp) \<in> set t"
  unfolding asg_terminate_instance_def aws_call_def runs_attempt_iff runs_call by auto

lemma orphan_step_due:
  assumes "runs (orphan_step env owners grace i (seen, still)) t st"
    and "instance_id i \<notin> set owners" "seen (instance_id i) = Some first" "\<not> ce_dry_run env"
    and "\<forall>clk. (NowInstant, clk) \<in> set t \<longrightarrow> unat grace \<le> elapsed_secs first (as_nanos clk)"
  shows "\<exists>rp. (AwsQuery (asg_host (ce_region env)) ''autoscaling'' (ce_region env)
      (terminate_params (instance_id i) False), rp) \<in> set t"
proof -
  obtain clk t2 where t: "t = (NowInstant, clk) # t2"
    and r: "runs (if elapsed_secs first (as_nanos clk) < unat grace then Ret (seen, insert (instance_id i) still)
          else bind (terminate_instance (instance_id i) (ce_region env) (ce_dry_run env) False) (\<lambda>_.
            Ret (seen(instance_id i := None), insert (instance_id i) still - {instance_id i}))) t2 st"
    using assms(1,2,3)
    by (auto simp: orphan_step_def Let_def instant_now_def runs_Op_iff elim!: runs_bindE)
  have "\<not> elapsed_secs first (as_nanos clk) < unat grace" using assms(5) t by auto
  then obtain t3 t4 u where "t2 = t3 @ t4"
    "runs (asg_terminate_instance (ce_region env) (instance_id i) False) t3 u"
    using r assms(4) by (auto elim!: runs_bindE simp: terminate_instance_def)
  then show ?thesis using asg_terminate_issued t by fastforce
qed

text \<open>The timers that are kept are those of instances in service without a lease.\<close>

lemma orphan_step_still:
  assumes "is_in_service i" "i \<in> set (asg s)" "owners = map sl_owner (leases s)"
    and "snd st \<subseteq> set (in_service_ids s) - sl_owner ` set (leases s)"
  shows "returns (\<lambda>st. snd st \<subseteq> set (in_service_ids s) - sl_owner ` set (leases s))
    (orphan_step env owners grace i st)"
proof -
  let ?A = "set (in_service_ids s) - sl_owner ` set (leases s)"
  have ins: "instance_id i \<in> set (in_service_ids s)"
    using assms(1,2) by (auto simp: in_service_ids_def)
  have sub: "S \<subseteq> ?A \<Longrightarrow> insert (instance_id i) S - {instance_id i} \<subseteq> ?A" for S by blast
  show ?thesis
    using assms(4) ins sub
    by (auto simp: orphan_step_def Let_def assms(3) split: prod.splits option.splits
        intro!: returns_bindI simp del: Diff_insert_absorb insert_Diff_single)
qed

lemma section_22_timers:
  "returns (\<lambda>seen'. dom seen' \<subseteq> set (in_service_ids s) - sl_owner ` set (leases s))
     (section_22 env grace s seen)"
proof -
  have "returns (\<lambda>st. snd st \<subseteq> set (in_service_ids s) - sl_owner ` set (leases s))
      (for_each (orphan_step env (map sl_owner (leases s)) grace) (filter is_in_service (asg s)) (seen, {}))"
    by (rule returns_for_each) (auto intro!: orphan_step_still)
  then show ?thesis
    unfolding section_22_def Let_def
    by (rule returns_bind) (auto split: prod.splits if_splits)
qed

section \<open>The guards\<close>

lemma section_21_guarded: "\<not> asg_plausible s \<Longrightarrow> section_21 env s = Ret ()"
  by (auto simp: section_21_def asg_plausible_def Let_def)

lemma sentinel_untouched:
  "sl_owner l = OWNER_MISSING \<or> sl_owner l = OWNER_UNKNOWN \<Longrightarrow> handle_lease env ids s l = Ret (Inr ())"
  by (auto simp: handle_lease_def Let_def)

lemma backup_idle: "cleanup_run env False grace s seen = Ret (Inr (), seen)"
  by (simp add: cleanup_run_def)

end
