(* ===== verification/Cleanup_Timers.thy ===== *)
theory Cleanup_Timers
  imports Cleanup
begin

text \<open>
  The passes of \<open>aeroscale/src/cleanup/mod.rs\<close> over their whole lists: when an instance without a
  lease is terminated, where its timer comes from, when a backend is enabled again, and what an
  untrustworthy answer of the ASG rules out.
\<close>

section \<open>Runs of a loop\<close>

text \<open>A property of the remaining elements and the state holds at each turn of the loop.\<close>

lemma for_each_turn:
  assumes "runs (for_each body xs s) t z" "J xs s"
    and "\<And>x ys s t s'. J (x # ys) s \<Longrightarrow> runs (body x s) t s' \<Longrightarrow> J ys s'"
    and "x \<in> set xs"
  shows "\<exists>ys s' t' z'. J (x # ys) s' \<and> runs (body x s') t' z' \<and> set t' \<subseteq> set t"
  using assms(1,2,4)
proof (induction xs arbitrary: s t)
  case (Cons y ys)
  obtain t1 t2 s1 where t: "t = t1 @ t2" "runs (body y s) t1 s1" "runs (for_each body ys s1) t2 z"
    using Cons.prems(1) by (auto elim: runs_bindE)
  show ?case
  proof (cases "x = y")
    case True
    have "J (x # ys) s" using Cons.prems(2) True by simp
    moreover have "runs (body x s) t1 s1" "set t1 \<subseteq> set t" using t True by auto
    ultimately show ?thesis by blast
  next
    case False
    have "J ys s1" by (rule assms(3) [OF Cons.prems(2) t(2)])
    moreover have "x \<in> set ys" using Cons.prems(3) False by simp
    ultimately obtain zs s' t' z' where "J (x # zs) s'" "runs (body x s') t' z'" "set t' \<subseteq> set t2"
      using Cons.IH [OF t(3)] by blast
    moreover from this have "set t' \<subseteq> set t" using t(1) by auto
    ultimately show ?thesis by blast
  qed
qed simp

lemma for_each_runs_in:
  assumes "runs (for_each body xs s) t z" "e \<in> set t" "J xs s"
    and "\<And>x ys s t s'. J (x # ys) s \<Longrightarrow> runs (body x s) t s' \<Longrightarrow> J ys s'"
  shows "\<exists>x ys s' t' z'. x \<in> set xs \<and> J (x # ys) s' \<and> runs (body x s') t' z' \<and> e \<in> set t' \<and>
    set t' \<subseteq> set t"
  using assms(1,2,3)
proof (induction xs arbitrary: s t)
  case (Cons y ys)
  obtain t1 t2 s1 where t: "t = t1 @ t2" "runs (body y s) t1 s1" "runs (for_each body ys s1) t2 z"
    using Cons.prems(1) by (auto elim: runs_bindE)
  show ?case
  proof (cases "e \<in> set t1")
    case True
    have "y \<in> set (y # ys)" "set t1 \<subseteq> set t" using t(1) by auto
    then show ?thesis using True Cons.prems(3) t(2) by blast
  next
    case False
    have "J ys s1" by (rule assms(4) [OF Cons.prems(3) t(2)])
    moreover have "e \<in> set t2" using False Cons.prems(2) t(1) by simp
    ultimately obtain x zs s' t' z' where "x \<in> set ys" "J (x # zs) s'" "runs (body x s') t' z'"
        "e \<in> set t'" "set t' \<subseteq> set t2"
      using Cons.IH [OF t(3)] by blast
    moreover from this have "x \<in> set (y # ys)" "set t' \<subseteq> set t" using t(1) by auto
    ultimately show ?thesis by blast
  qed
qed simp

section \<open>Orphans\<close>

text \<open>The instances still to be visited have distinct ids and untouched timers.\<close>

definition untouched :: "orphans \<Rightarrow> asg_instance list \<Rightarrow> orphans \<times> string set \<Rightarrow> bool" where
  "untouched seen xs st \<longleftrightarrow>
     distinct (map instance_id xs) \<and> (\<forall>x \<in> set xs. fst st (instance_id x) = seen (instance_id x))"

lemma orphan_step_frame:
  "runs (orphan_step env owners grace i st) t st' \<Longrightarrow> j \<noteq> instance_id i \<Longrightarrow>
   fst st' j = fst st j \<and> (j \<in> snd st' \<longleftrightarrow> j \<in> snd st)"
  by (cases st) (auto simp: orphan_step_def Let_def instant_now_def runs_Op_iff elim!: runs_bindE
      split: option.splits if_splits)

lemma untouched_step:
  assumes "untouched seen (x # ys) st" "runs (orphan_step env owners grace x st) t st'"
  shows "untouched seen ys st'"
proof -
  have "instance_id y \<noteq> instance_id x" if "y \<in> set ys" for y
    using assms(1) that by (auto simp: untouched_def image_iff)
  then show ?thesis
    using assms orphan_step_frame [OF assms(2)] by (auto simp: untouched_def)
qed

lemma untouched_start:
  "distinct (map instance_id (asg s)) \<Longrightarrow> untouched seen (filter is_in_service (asg s)) (seen, {})"
  by (simp add: untouched_def distinct_map_filter)

lemma section_22_runsE:
  assumes "runs (section_22 env grace s seen) t seen'"
  obtains st where "runs (for_each (orphan_step env (map sl_owner (leases s)) grace)
      (filter is_in_service (asg s)) (seen, {})) t st"
    "seen' = (\<lambda>i. if i \<in> snd st then fst st i else None)"
proof -
  from assms obtain t1 t2 st where t: "t = t1 @ t2" and
    r: "runs (for_each (orphan_step env (map sl_owner (leases s)) grace)
      (filter is_in_service (asg s)) (seen, {})) t1 st"
    and e: "runs (case st of (seen', still) \<Rightarrow> Ret (\<lambda>i. if i \<in> still then seen' i else None)) t2 seen'"
    unfolding section_22_def Let_def by (auto elim: runs_bindE)
  have "t2 = []" "seen' = (\<lambda>i. if i \<in> snd st then fst st i else None)"
    using e by (auto split: prod.splits)
  with r t show thesis by (intro that [of st]) auto
qed

lemma section_22_terminates:
  assumes "runs (section_22 env grace s seen) t seen'" "(AwsQuery h sv r ps, rp) \<in> set t"
    and "distinct (map instance_id (asg s))"
  shows "\<exists>i first clk. i \<in> set (asg s) \<and> is_in_service i \<and>
    instance_id i \<notin> sl_owner ` set (leases s) \<and> seen (instance_id i) = Some first \<and>
    (NowInstant, clk) \<in> set t \<and> unat grace \<le> elapsed_secs first (as_nanos clk) \<and>
    ps = terminate_params (instance_id i) False"
proof -
  have step: "\<And>x ys st t st'. untouched seen (x # ys) st \<Longrightarrow>
      runs (orphan_step env (map sl_owner (leases s)) grace x st) t st' \<Longrightarrow> untouched seen ys st'"
    by (rule untouched_step)
  obtain st where loop: "runs (for_each (orphan_step env (map sl_owner (leases s)) grace)
      (filter is_in_service (asg s)) (seen, {})) t st"
    using assms(1) by (rule section_22_runsE)
  have "\<exists>i ys st' t' z'. i \<in> set (filter is_in_service (asg s)) \<and> untouched seen (i # ys) st' \<and>
      runs (orphan_step env (map sl_owner (leases s)) grace i st') t' z' \<and>
      (AwsQuery h sv r ps, rp) \<in> set t' \<and> set t' \<subseteq> set t"
    by (rule for_each_runs_in [where J = "untouched seen", OF loop assms(2) untouched_start [OF assms(3)]])
      (rule step)
  then obtain i ys st' t' z' where i: "i \<in> set (filter is_in_service (asg s))" "untouched seen (i # ys) st'"
    "runs (orphan_step env (map sl_owner (leases s)) grace i st') t' z'"
    "(AwsQuery h sv r ps, rp) \<in> set t'" "set t' \<subseteq> set t"
    by blast
  have seen: "fst st' (instance_id i) = seen (instance_id i)"
    using i(2) by (simp add: untouched_def)
  have "runs (orphan_step env (map sl_owner (leases s)) grace i (fst st', snd st')) t' z'"
    using i(3) by simp
  from orphan_step_runs [OF this i(4)] seen i(1,5) show ?thesis by force
qed

lemma section_22_due:
  assumes "runs (section_22 env grace s seen) t seen'" "distinct (map instance_id (asg s))"
    and "i \<in> set (asg s)" "is_in_service i" "instance_id i \<notin> sl_owner ` set (leases s)"
    and "seen (instance_id i) = Some first" "\<not> ce_dry_run env"
    and "\<forall>clk. (NowInstant, clk) \<in> set t \<longrightarrow> unat grace \<le> elapsed_secs first (as_nanos clk)"
  shows "\<exists>rp. (AwsQuery (asg_host (ce_region env)) ''autoscaling'' (ce_region env)
      (terminate_params (instance_id i) False), rp) \<in> set t"
proof -
  have step: "\<And>x ys st t st'. untouched seen (x # ys) st \<Longrightarrow>
      runs (orphan_step env (map sl_owner (leases s)) grace x st) t st' \<Longrightarrow> untouched seen ys st'"
    by (rule untouched_step)
  obtain st where r: "runs (for_each (orphan_step env (map sl_owner (leases s)) grace)
      (filter is_in_service (asg s)) (seen, {})) t st"
    using assms(1) by (rule section_22_runsE)
  have "i \<in> set (filter is_in_service (asg s))" using assms(3,4) by simp
  then have "\<exists>ys st' t' z'. untouched seen (i # ys) st' \<and>
      runs (orphan_step env (map sl_owner (leases s)) grace i st') t' z' \<and> set t' \<subseteq> set t"
    by (rule for_each_turn [where J = "untouched seen", OF r untouched_start [OF assms(2)], rotated])
      (rule step)
  then obtain ys st' t' z' where i: "untouched seen (i # ys) st'"
    "runs (orphan_step env (map sl_owner (leases s)) grace i (fst st', snd st')) t' z'" "set t' \<subseteq> set t"
    by auto
  have "fst st' (instance_id i) = Some first" using i(1) assms(6) by (simp add: untouched_def)
  moreover have "instance_id i \<notin> set (map sl_owner (leases s))" using assms(5) by simp
  moreover have "\<forall>clk. (NowInstant, clk) \<in> set t' \<longrightarrow> unat grace \<le> elapsed_secs first (as_nanos clk)"
    using assms(8) i(3) by blast
  ultimately show ?thesis using orphan_step_due [OF i(2)] assms(7) i(3) by blast
qed

text \<open>A timer that is running after a pass was running before it, or was started from the clock.\<close>

lemma orphan_step_origin:
  "runs (orphan_step env owners grace i st) t st' \<Longrightarrow> fst st' j = Some v \<Longrightarrow>
   fst st j = Some v \<or> (\<exists>clk. (NowInstant, clk) \<in> set t \<and> v = as_nanos clk)"
  by (cases st) (auto simp: orphan_step_def Let_def instant_now_def runs_Op_iff elim!: runs_bindE
      split: option.splits if_splits)

lemma section_22_origin:
  assumes "runs (section_22 env grace s seen) t seen'" "seen' j = Some v"
  shows "seen j = Some v \<or> (\<exists>clk. (NowInstant, clk) \<in> set t \<and> v = as_nanos clk)"
proof -
  have loop: "runs (for_each (orphan_step env owners grace) xs st) t st' \<Longrightarrow> fst st' j = Some v \<Longrightarrow>
    fst st j = Some v \<or> (\<exists>clk. (NowInstant, clk) \<in> set t \<and> v = as_nanos clk)" for owners xs st t st'
  proof (induction xs arbitrary: st t)
    case (Cons x xs)
    obtain t1 t2 s1 where t: "t = t1 @ t2" "runs (orphan_step env owners grace x st) t1 s1"
      "runs (for_each (orphan_step env owners grace) xs s1) t2 st'"
      using Cons.prems(1) by (auto elim: runs_bindE)
    from Cons.IH [OF t(3) Cons.prems(2)] show ?case
      using orphan_step_origin [OF t(2)] unfolding t(1) by auto
  qed simp
  obtain st where "runs (for_each (orphan_step env (map sl_owner (leases s)) grace)
      (filter is_in_service (asg s)) (seen, {})) t st" "fst st j = Some v"
    using assms by (auto elim!: section_22_runsE split: if_splits)
  from loop [OF this] show ?thesis by simp
qed

section \<open>Enabling a backend again\<close>

lemma write_weight_no_other:
  assumes "runs (write_weight wd ip v dry) t x" "v \<noteq> v'"
  shows "(WriteFile p v', rp) \<in> set t \<longleftrightarrow> False"
proof -
  have "emits (\<lambda>c. c \<noteq> WriteFile p v') (write_weight wd ip v dry)" using assms(2) by auto
  from emits_runs [OF assms(1) this] show ?thesis by blast
qed

lemma release_no_file:
  assumes "runs (release_slot slot owner dry) t x"
  shows "(WriteFile p v, rp) \<in> set t \<longleftrightarrow> False"
proof -
  have "emits (\<lambda>c. c \<noteq> WriteFile p v) (release_slot slot owner dry)"
    by (rule emits_release_slot) auto
  from emits_runs [OF assms this] show ?thesis by blast
qed

lemma terminate_no_file:
  assumes "runs (terminate_instance i r dry d) t x"
  shows "(WriteFile p v, rp) \<in> set t \<longleftrightarrow> False"
proof -
  have "emits (\<lambda>c. c \<noteq> WriteFile p v) (terminate_instance i r dry d)" by simp
  from emits_runs [OF assms this] show ?thesis by blast
qed

lemma write_weight_path:
  assumes "runs (write_weight wd ip v dry) t x" "(WriteFile p v', rp) \<in> set t"
  shows "p = weight_path wd ip"
proof -
  have "emits (\<lambda>c. c = WriteFile (weight_path wd ip) v) (write_weight wd ip v dry)" by simp
  from emits_runs [OF assms(1) this assms(2)] show ?thesis by simp
qed

lemma handle_lease_enables:
  assumes "runs (handle_lease env ids s l) t x" "(WriteFile p WEIGHT_ACTIVE, rp) \<in> set t"
  shows "\<exists>b clk. backend_of_slot s (sl_slot l) = Some b \<and> bs_state b = Disabled \<and>
    sl_owner l \<in> set ids \<and> p = weight_path (ce_weights_dir env) (bs_ip b) \<and>
    (NowMs, clk) \<in> set t \<and> as_millis clk < sl_expires_ms l"
  using assms
  by (auto simp: handle_lease_def Let_def is_expired_def now_ms_def runs_Op_iff not_le
      write_weight_no_other release_no_file terminate_no_file
      split: if_splits option.splits backend_state.splits
      elim!: runs_bindE runs_attemptE dest: write_weight_path)

section \<open>The slots of departed owners\<close>

definition worked :: "reply \<Rightarrow> bool" where
  "worked r \<longleftrightarrow> (\<forall>f. r \<noteq> Failed f)"

text \<open>The three commands of a release, each of which follows when the one before has worked.\<close>

definition released :: "(cmd \<times> reply) list \<Rightarrow> string \<Rightarrow> bool" where
  "released t slot \<longleftrightarrow>
     (\<exists>r. (Redis (DEL (key_owner slot)), r) \<in> set t \<and>
       (worked r \<longrightarrow> (\<exists>r'. (Redis (ZREM KEY_LEASES slot), r') \<in> set t \<and>
         (worked r' \<longrightarrow> (\<exists>n r''. (Redis (ZADD KEY_AVAILABLE n slot), r'') \<in> set t)))))"

lemma released_mono: "released t slot \<Longrightarrow> set t \<subseteq> set u \<Longrightarrow> released u slot"
  unfolding released_def by blast

lemma runs_redis_unit:
  assumes "runs (ctx m (redis_unit c)) u y"
  shows "\<exists>r. u = [(Redis c, r)] \<and> ((\<exists>v. y = Inr v) \<longleftrightarrow> worked r)"
proof -
  obtain r where "u = [(Redis c, r)]" "y = with_ctx m (as_unit RedisFault r)"
    using assms by (auto simp: redis_unit_def runs_ctx runs_call)
  then show ?thesis by (cases r) (auto simp: as_unit_def worked_def)
qed

lemma release_slot_runs:
  assumes "runs (release_slot slot owner False) t x"
  shows "released t (show_word slot)"
proof -
  let ?s = "show_word slot"
  obtain r1 t1 where t: "t = (NowMs, r1) # t1"
    and rest: "runs (attempt (ctx ''DEL owner failed'' (redis_unit (DEL (key_owner ?s)))) (\<lambda>_.
        attempt (ctx ''ZREM leases failed'' (redis_unit (ZREM KEY_LEASES ?s))) (\<lambda>_.
        attempt (ctx ''ZADD available failed'' (redis_unit (ZADD KEY_AVAILABLE (unat (as_millis r1)) ?s))) (\<lambda>_.
        Ret (Inr ()))))) t1 x"
    using assms by (auto simp: release_slot_def Let_def now_ms_def runs_Op_iff)
  from rest show ?thesis
  proof (cases rule: runs_attemptE)
    case (err e)
    then show ?thesis using runs_redis_unit t unfolding released_def by fastforce
  next
    case (ok u1 u2 v)
    obtain r where u1: "u1 = [(Redis (DEL (key_owner ?s)), r)]" using runs_redis_unit ok(2) by blast
    from ok(3) show ?thesis
    proof (cases rule: runs_attemptE)
      case (err e)
      then show ?thesis using runs_redis_unit t u1 ok(1) unfolding released_def by fastforce
    next
      case (ok w1 w2 v)
      obtain r' where w1: "w1 = [(Redis (ZREM KEY_LEASES ?s), r')]" using runs_redis_unit ok(2) by blast
      have "\<exists>r''. (Redis (ZADD KEY_AVAILABLE (unat (as_millis r1)) ?s), r'') \<in> set w2"
        using ok(3) by (auto simp: runs_attempt_iff redis_unit_def runs_ctx runs_call)
      then show ?thesis using t u1 w1 ok(1) \<open>t1 = u1 @ u2\<close> unfolding released_def by force
    qed
  qed
qed

lemma handle_lease_releases:
  assumes "runs (handle_lease env ids s l) t x" "sl_owner l \<notin> set ids" "\<not> ce_dry_run env"
    and "sl_owner l \<noteq> OWNER_MISSING" "sl_owner l \<noteq> OWNER_UNKNOWN"
  shows "released t (show_word (sl_slot l))"
proof -
  have "runs (attempt (release_slot (sl_slot l) (sl_owner l) False) (\<lambda>_. case backend_of_slot s (sl_slot l) of
      None \<Rightarrow> Ret (Inr ()) | Some b \<Rightarrow> write_weight (ce_weights_dir env) (bs_ip b) WEIGHT_DISABLED False)) t x"
    using assms by (simp add: handle_lease_def Let_def)
  then show ?thesis
  proof (cases rule: runs_attemptE)
    case (err e)
    then show ?thesis using release_slot_runs by blast
  next
    case (ok t1 t2 u)
    then show ?thesis using released_mono [OF release_slot_runs [OF ok(2)]] by simp
  qed
qed

text \<open>A pass that can trust the ASG goes for every slot whose owner has left.\<close>

lemma departed_released:
  assumes "runs (cleanup_run env True grace s seen) t x" "asg_plausible s" "\<not> ce_dry_run env"
    and "l \<in> set (leases s)" "sl_owner l \<notin> set (in_service_ids s)"
    and "sl_owner l \<noteq> OWNER_MISSING" "sl_owner l \<noteq> OWNER_UNKNOWN"
  shows "released t (show_word (sl_slot l))"
proof -
  obtain t1 where t1: "runs (section_21 env s) t1 ()" "set t1 \<subseteq> set t"
    using assms(1) by (auto simp: cleanup_run_def elim!: runs_bindE)
  then have "runs (for_each (\<lambda>l _. bind (handle_lease env (in_service_ids s) s l) (\<lambda>_. Ret ())) (leases s) ()) t1 ()"
    using assms(2) by (auto simp: section_21_def asg_plausible_def Let_def)
  then have "\<exists>ys s' t' z'. True \<and> runs (bind (handle_lease env (in_service_ids s) s l) (\<lambda>_. Ret ())) t' z'
      \<and> set t' \<subseteq> set t1"
    using for_each_turn [where body = "\<lambda>l _. bind (handle_lease env (in_service_ids s) s l) (\<lambda>_. Ret ())"
      and J = "\<lambda>_ _. True" and x = l and xs = "leases s"] assms(4) by simp
  then obtain t2 y where "runs (bind (handle_lease env (in_service_ids s) s l) (\<lambda>_. Ret ())) t2 y" "set t2 \<subseteq> set t1"
    by auto
  then obtain x' where "runs (handle_lease env (in_service_ids s) s l) t2 x'"
    by (auto elim!: runs_bindE)
  from handle_lease_releases [OF this assms(5,3,6,7)] show ?thesis
    by (rule released_mono) (use \<open>set t2 \<subseteq> set t1\<close> t1(2) in blast)
qed

section \<open>An ASG answer that cannot be trusted\<close>

lemma implausible_no_redis:
  assumes "\<not> asg_plausible s"
  shows "emits (\<lambda>c. \<forall>rc. c = Redis rc \<longrightarrow> \<not> mutates c) (cleanup_run env master grace s seen)"
  by (rule emits_mono [OF cleanup_run_justified]) (use assms in \<open>auto elim: justifiedE\<close>)

end
