(* ===== verification/Cleanup_Pool.thy ===== *)
theory Cleanup_Pool
  imports Slot_Runs Cleanup_Timers
begin

text \<open>
  \<open>release_slot\<close> of \<open>aeroscale/src/cleanup/mod.rs\<close> against the slot pool of \<open>aeroslot\<close>: it is the
  release of the pool's contract without the check of the owner.
\<close>

context redis_service
begin

lemma release_slot_view:
  "exec srv (release_slot slot owner False) w = (Inr u, w') \<Longrightarrow>
   view w' = release_view (show_word slot) (unat (as_millis (fst (srv w NowMs)))) (view w)"
  by (auto simp: release_slot_def Let_def exec_bind exec_attempt_Inr exec_ctx_Inr redis_ok_simps
      release_view_def simp del: exec_ctx dest!: exec_redis_unit)

lemma release_slot_pool:
  "exec srv (release_slot slot owner False) w = (Inr u, w') \<Longrightarrow>
   pool_of (view w') =
     put_back {show_word slot} (unat (as_millis (fst (srv w NowMs)))) (pool_of (view w))"
  by (simp add: release_slot_view pool_release_view)

lemma release_slot_contract:
  assumes "exec srv (release_slot slot owner False) w = (Inr u, w')"
    and "owner_at (pool_of (view w)) (show_word slot) = Some owner"
  shows "spec_op x (Release (as_millis (fst (srv w NowMs))) owner slot) (pool_of (view w)) (Accepted True)
    (pool_of (view w'))"
  unfolding release_slot_pool [OF assms(1)] by (rule spec_op.released) (rule assms(2))

end

text \<open>
  The slot of a snapshot's lease is released after another instance has claimed it: the live lease
  of the new owner is lost.
\<close>

definition overtaken :: "unit result \<times> mem" where
  "overtaken = exec mem_srv (release_slot 7 ''old'' False) (snd (exec mem_srv (claim_slot 200 ''i-b'' 1000) late))"

lemma overtaken_claim:
  "lease_at (pool_of (mem_view (snd (exec mem_srv (claim_slot 200 ''i-b'' 1000) late)))) ''7'' = Some 1200"
  "owner_at (pool_of (mem_view (snd (exec mem_srv (claim_slot 200 ''i-b'' 1000) late)))) ''7'' = Some ''i-b''"
  by (simp_all add: mem_cli_defs)

lemma overtaken_run:
  "fst overtaken = Inr ()"
  "lease_at (pool_of (mem_view (snd overtaken))) ''7'' = None"
  "free_at (pool_of (mem_view (snd overtaken))) ''7'' = Some 200"
  by (simp_all add: overtaken_def release_slot_def mem_cli_defs)

end
