(* ===== verification/Scaler.thy ===== *)
theory Scaler
  imports Cleanup
begin

text \<open>
  \<open>aeroscale/src/scaler.rs\<close>: the scale-up and drain decisions.  \<open>f64\<close> values are real numbers, so
  rounding is not modelled; the conversion to \<open>u64\<close> truncates and saturates.  Instants are
  nanoseconds.  \<open>u32\<close> counters and sums wrap as in the release profile.
\<close>

section \<open>Configuration and state\<close>

record scale_config =
  hard_conn_threshold :: u32
  slope_low_floor :: u32
  slope_threshold_conn_per_min :: real
  bw_threshold_bps_per_backend :: u64
  drain_threshold :: u32
  scale_up_hysteresis_cycles :: u32
  drain_hysteresis_cycles :: u32
  scale_up_cooldown_secs :: u64
  drain_cooldown_secs :: u64
  max_concurrent_draining :: u32

record iface_snapshot =
  rx_bytes :: u64
  if_at :: nat

record scaler_state =
  scale_up_cycles :: u32
  drain_cycles :: u32
  drain_candidate :: "ipv4 option"
  last_scale_up :: "nat option"
  last_drain :: "nat option"
  slope_samples :: "(nat \<times> u32) list"
  bw_prev :: "iface_snapshot option"
  bw_smoothed :: real
  bw_raw_bps :: u64

definition scaler_default :: scaler_state where
  "scaler_default = \<lparr>scale_up_cycles = 0, drain_cycles = 0, drain_candidate = None,
     last_scale_up = None, last_drain = None, slope_samples = [], bw_prev = None,
     bw_smoothed = 0, bw_raw_bps = 0\<rparr>"

definition BW_EMA_ALPHA :: real where "BW_EMA_ALPHA = 6 / 10"

definition f64_to_u64 :: "real \<Rightarrow> u64" where
  "f64_to_u64 x = word_of_nat (min (nat \<lfloor>x\<rfloor>) (2 ^ 64 - 1))"

section \<open>Measurements\<close>

definition sessions_from_ipvs :: "u32 \<Rightarrow> u32" where
  "sessions_from_ipvs connections = connections div 2"

definition as_secs :: "nat \<Rightarrow> real" where
  "as_secs ns = real ns / 10 ^ 9"

text \<open>The finite difference of one lag; \<open>None\<close> when the lag is skipped.\<close>

definition lag_slope :: "(nat \<times> u32) list \<Rightarrow> u32 \<Rightarrow> nat \<Rightarrow> nat \<Rightarrow> real option" where
  "lag_slope samples now_sessions now lag =
     (let (t_past, sessions_past) = samples ! (length samples - lag) in
      if now < t_past then None
      else
        let dt_secs = as_secs (now - t_past) in
        if dt_secs < 1 / 10 then None
        else Some ((real (unat now_sessions) - real (unat sessions_past)) / dt_secs * 60))"

definition compute_smoothed_slope :: "(nat \<times> u32) list \<Rightarrow> u32 \<Rightarrow> nat \<Rightarrow> real option" where
  "compute_smoothed_slope samples now_sessions now =
     (if samples = [] then None
      else
        let max_lags = min (length samples) 6;
            slopes = List.map_filter (lag_slope samples now_sessions now) [1..<Suc max_lags]
        in if slopes = [] then None else Some (sum_list slopes / real (length slopes)))"

fun parse_iface_rx_bytes_in :: "string \<Rightarrow> string list \<Rightarrow> u64 option" where
  "parse_iface_rx_bytes_in iface [] = None"
| "parse_iface_rx_bytes_in iface (line # ls) =
     (case Option.bind (strip_prefix iface (trim_start line)) (strip_prefix '':'') of
        None \<Rightarrow> parse_iface_rx_bytes_in iface ls
      | Some rest \<Rightarrow> (case split_whitespace rest of [] \<Rightarrow> None | w # _ \<Rightarrow> parse_u64 w))"

definition parse_iface_rx_bytes :: "string \<Rightarrow> string \<Rightarrow> u64 option" where
  "parse_iface_rx_bytes content iface = parse_iface_rx_bytes_in iface (lines content)"

definition read_iface_snapshot :: "iface_snapshot rio" where
  "read_iface_snapshot =
     attempt (ctx ''failed to read /proc/net/dev'' (call (ReadFile ''/proc/net/dev'') (as_text LibFault)))
     (\<lambda>content.
     bind instant_now (\<lambda>t.
     Ret (case parse_iface_rx_bytes content ''eth0'' of
            None \<Rightarrow> Inl (Bail ''interface eth0 not found in /proc/net/dev'')
          | Some n \<Rightarrow> Inr \<lparr>rx_bytes = n, if_at = t\<rparr>)))"

text \<open>The new bandwidth estimate after one reading.\<close>

definition update_bandwidth :: "iface_snapshot \<Rightarrow> scaler_state \<Rightarrow> scaler_state" where
  "update_bandwidth current st =
     (let st' =
        (case bw_prev st of
           None \<Rightarrow> st
         | Some prev \<Rightarrow>
             if if_at current < if_at prev then st
             else
               let dt_secs = as_secs (if_at current - if_at prev) in
               if dt_secs > 1 / 10 \<and> rx_bytes current \<ge> rx_bytes prev then
                 (let raw_bps = real (unat (rx_bytes current - rx_bytes prev)) / dt_secs in
                  st\<lparr>bw_raw_bps := f64_to_u64 raw_bps,
                     bw_smoothed := BW_EMA_ALPHA * raw_bps + (1 - BW_EMA_ALPHA) * bw_smoothed st\<rparr>)
               else st)
      in st'\<lparr>bw_prev := Some current\<rparr>)"

definition push_sample :: "nat \<Rightarrow> u32 \<Rightarrow> scaler_state \<Rightarrow> scaler_state" where
  "push_sample now avg st =
     (let samples = slope_samples st @ [(now, avg)]
      in st\<lparr>slope_samples := if 7 < length samples then tl samples else samples\<rparr>)"

section \<open>Scale-up\<close>

definition bw_per_backend :: "scaler_state \<Rightarrow> u32 \<Rightarrow> u64 option" where
  "bw_per_backend st active_count =
     (if active_count > 0 \<and> bw_smoothed st > 0
      then Some (f64_to_u64 (bw_smoothed st) div ucast active_count) else None)"

definition hard_trigger :: "scale_config \<Rightarrow> u32 \<Rightarrow> bool" where
  "hard_trigger cfg avg \<longleftrightarrow> hard_conn_threshold cfg \<le> avg"

definition slope_trigger :: "scale_config \<Rightarrow> u32 \<Rightarrow> real option \<Rightarrow> bool" where
  "slope_trigger cfg avg slope \<longleftrightarrow> slope_low_floor cfg \<le> avg \<and>
     (case slope of None \<Rightarrow> False | Some s \<Rightarrow> slope_threshold_conn_per_min cfg \<le> s)"

definition bw_trigger :: "scale_config \<Rightarrow> u32 \<Rightarrow> u64 option \<Rightarrow> bool" where
  "bw_trigger cfg avg bw \<longleftrightarrow>
     (case bw of None \<Rightarrow> False
      | Some b \<Rightarrow> bw_threshold_bps_per_backend cfg \<le> b \<and> slope_low_floor cfg \<le> avg)"

text \<open>The hysteresis counter after the triggers; \<open>None\<close> when no trigger fires.\<close>

definition count_triggers :: "scale_config \<Rightarrow> bool \<Rightarrow> bool \<Rightarrow> u32 \<Rightarrow> u32 option" where
  "count_triggers cfg hard soft cycles =
     (if hard then Some (scale_up_hysteresis_cycles cfg)
      else if soft then Some (cycles + 1)
      else None)"

text \<open>\<open>last.elapsed().as_secs() < cooldown\<close>; without a last action there is no cooldown.\<close>

definition cooling :: "nat option \<Rightarrow> u64 \<Rightarrow> bool io" where
  "cooling last_act cooldown =
     (case last_act of
        None \<Rightarrow> Ret False
      | Some t0 \<Rightarrow> bind instant_now (\<lambda>t. Ret (elapsed_secs t0 t < unat cooldown)))"

definition scale_up_act ::
    "string \<Rightarrow> string \<Rightarrow> bool \<Rightarrow> asg_group_info \<Rightarrow> scale_config \<Rightarrow> scaler_state \<Rightarrow> scaler_state io" where
  "scale_up_act asg_name region dry grp cfg st =
     (if max_size grp \<le> desired_capacity grp then Ret st
      else
        bind (cooling (last_scale_up st) (scale_up_cooldown_secs cfg)) (\<lambda>wait.
        if wait then Ret st
        else
          let new_desired = word_of_int (desired_capacity grp + 1) in
          bind (if dry then Ret (Inr ()) else set_desired region asg_name new_desired) (\<lambda>x.
          case x of
            Inl e \<Rightarrow> Ret st
          | Inr u \<Rightarrow> bind instant_now (\<lambda>t. Ret (st\<lparr>scale_up_cycles := 0, last_scale_up := Some t\<rparr>)))))"

definition evaluate_scale_up ::
    "snapshot \<Rightarrow> scale_config \<Rightarrow> u32 \<Rightarrow> u32 \<Rightarrow> string \<Rightarrow> string \<Rightarrow> bool \<Rightarrow> scaler_state \<Rightarrow> scaler_state io" where
  "evaluate_scale_up s cfg avg_sessions active_count asg_name region dry st =
     (case asg_group s of
        None \<Rightarrow> Ret st
      | Some grp \<Rightarrow>
          bind instant_now (\<lambda>now.
          bind read_iface_snapshot (\<lambda>r.
          let st = (case r of Inl e \<Rightarrow> st | Inr current \<Rightarrow> update_bandwidth current st);
              slope = compute_smoothed_slope (slope_samples st) avg_sessions now;
              st = push_sample now avg_sessions st;
              hard = hard_trigger cfg avg_sessions;
              soft = (slope_trigger cfg avg_sessions slope \<or>
                      bw_trigger cfg avg_sessions (bw_per_backend st active_count))
          in
          case count_triggers cfg hard soft (scale_up_cycles st) of
            None \<Rightarrow> Ret (st\<lparr>scale_up_cycles := 0\<rparr>)
          | Some cycles \<Rightarrow>
              let st = st\<lparr>scale_up_cycles := cycles\<rparr> in
              if cycles < scale_up_hysteresis_cycles cfg then Ret st
              else scale_up_act asg_name region dry grp cfg st)))"

section \<open>Drain\<close>

definition backend_sessions :: "backend_status \<Rightarrow> u32" where
  "backend_sessions b = sessions_from_ipvs (active_conn b)"

definition draining_count :: "snapshot \<Rightarrow> u32" where
  "draining_count s = word_of_nat (length (filter (\<lambda>b. bs_state b = Draining) (backends s)))"

definition total_sessions :: "backend_status list \<Rightarrow> u32" where
  "total_sessions active = sum_list (map backend_sessions active)"

definition drain_choice :: "backend_status list \<Rightarrow> u32 \<Rightarrow> backend_status option" where
  "drain_choice active draining =
     (let sorted = sort_key backend_sessions active; least = hd sorted in
      if backend_sessions least = 0 then Some least
      else if draining = 0 then Some (last sorted)
      else None)"

text \<open>From the cooldown on: pick a candidate and write its weight.\<close>

definition drain_act ::
    "snapshot \<Rightarrow> backend_status list \<Rightarrow> scale_config \<Rightarrow> string \<Rightarrow> bool \<Rightarrow> scaler_state \<Rightarrow> scaler_state io" where
  "drain_act s active cfg weights_dir dry st =
     bind (cooling (last_drain st) (drain_cooldown_secs cfg)) (\<lambda>wait.
     if wait then Ret st
     else case drain_choice active (draining_count s) of
       None \<Rightarrow> Ret st
     | Some candidate \<Rightarrow>
         bind (if dry then Ret (Inr ())
               else write_weight weights_dir (bs_ip candidate) WEIGHT_DRAINING dry) (\<lambda>x.
         case x of
           Inl e \<Rightarrow> Ret st
         | Inr u \<Rightarrow> bind instant_now (\<lambda>t.
             Ret (st\<lparr>drain_cycles := 0, drain_candidate := None, last_drain := Some t\<rparr>))))"

definition evaluate_drain ::
    "snapshot \<Rightarrow> backend_status list \<Rightarrow> scale_config \<Rightarrow> string \<Rightarrow> bool \<Rightarrow> scaler_state \<Rightarrow> scaler_state io" where
  "evaluate_drain s active cfg weights_dir dry st =
     (case asg_group s of
        None \<Rightarrow> Ret st
      | Some grp \<Rightarrow>
          let active_count = word_of_nat (length active) :: u32 in
          if active_count \<le> 1 then Ret (st\<lparr>drain_cycles := 0, drain_candidate := None\<rparr>)
          else if desired_capacity grp \<le> min_size grp then
            Ret (st\<lparr>drain_cycles := 0, drain_candidate := None\<rparr>)
          else if max_concurrent_draining cfg \<le> draining_count s then Ret st
          else if drain_threshold cfg \<le> total_sessions active div active_count then
            Ret (st\<lparr>drain_cycles := 0\<rparr>)
          else
            let st = st\<lparr>drain_cycles := drain_cycles st + 1\<rparr> in
            if drain_cycles st < drain_hysteresis_cycles cfg then Ret st
            else drain_act s active cfg weights_dir dry st)"

section \<open>One pass\<close>

definition participates :: "backend_status \<Rightarrow> bool io" where
  "participates b =
     (if bs_state b \<noteq> Active then Ret False
      else case bs_lease b of
        None \<Rightarrow> Ret False
      | Some l \<Rightarrow> bind (is_expired l) (\<lambda>ex. Ret (\<not> ex \<and> bs_ipvs b \<noteq> None)))"

text \<open>\<open>(total_sessions + active_count - 1) / active_count\<close>\<close>

definition ceiling_average :: "backend_status list \<Rightarrow> u32" where
  "ceiling_average active =
     (let n = word_of_nat (length active) in (total_sessions active + n - 1) div n)"

definition scaler_run ::
    "snapshot \<Rightarrow> scale_config \<Rightarrow> string \<Rightarrow> string \<Rightarrow> string \<Rightarrow> bool \<Rightarrow> scaler_state \<Rightarrow> scaler_state io" where
  "scaler_run s cfg asg_name region weights_dir dry st =
     bind (filter_io participates (backends s)) (\<lambda>active.
     let active_count = word_of_nat (length active) :: u32 in
     if active_count = 0 then
       Ret (st\<lparr>scale_up_cycles := 0, drain_cycles := 0, drain_candidate := None\<rparr>)
     else
       bind (evaluate_scale_up s cfg (ceiling_average active) active_count asg_name region dry st) (\<lambda>st.
       evaluate_drain s active cfg weights_dir dry st))"

section \<open>Measurements: what they compute\<close>

lemma sessions_le: "unat (sessions_from_ipvs c) = unat c div 2"
  by (simp add: sessions_from_ipvs_def unat_div)

text \<open>On a load that changes at a constant rate, the slope is that rate.\<close>

lemma lag_slope_affine:
  assumes "\<forall>(t, n) \<in> set samples. t \<le> now \<longrightarrow>
      real (unat now_sessions) - real (unat n) = r / 60 * as_secs (now - t)"
    and "lag_slope samples now_sessions now k = Some x" "0 < k" "k \<le> length samples"
  shows "x = r"
proof -
  obtain t n where tn: "samples ! (length samples - k) = (t, n)" by force
  then have "(t, n) \<in> set samples" using assms(3,4) by (metis diff_less nth_mem less_le_trans)
  then show ?thesis
    using assms(1,2) tn by (auto simp: lag_slope_def Let_def split: if_splits)
qed

lemma sum_list_const: "\<forall>x \<in> set xs. x = (r :: real) \<Longrightarrow> sum_list xs = r * real (length xs)"
  by (induction xs) (auto simp: algebra_simps)

lemma slope_affine:
  assumes "\<forall>(t, n) \<in> set samples. t \<le> now \<longrightarrow>
      real (unat now_sessions) - real (unat n) = r / 60 * as_secs (now - t)"
    and "compute_smoothed_slope samples now_sessions now = Some s"
  shows "s = r"
proof -
  let ?sl = "List.map_filter (lag_slope samples now_sessions now) [1..<Suc (min (length samples) 6)]"
  have ne: "?sl \<noteq> []" and s: "s = sum_list ?sl / real (length ?sl)"
    using assms(2) by (auto simp: compute_smoothed_slope_def Let_def split: if_splits)
  have "x = r" if x: "x \<in> set ?sl" for x
  proof -
    obtain k where "k \<in> set [1..<Suc (min (length samples) 6)]"
      and k: "lag_slope samples now_sessions now k = Some x"
      using x unfolding set_map_filter by blast
    then have "0 < k" "k \<le> length samples" by auto
    with k show ?thesis by (intro lag_slope_affine [OF assms(1)])
  qed
  then have "sum_list ?sl = r * real (length ?sl)" by (intro sum_list_const) blast
  with ne s show ?thesis by simp
qed

text \<open>With one sample at least a tenth of a second old, a slope is reported.\<close>

lemma slope_reported:
  assumes "samples = xs @ [(t, n)]" "t + 10 ^ 8 \<le> now"
  shows "compute_smoothed_slope samples now_sessions now \<noteq> None"
proof -
  obtain y where y: "lag_slope samples now_sessions now 1 = Some y"
    using assms by (auto simp: lag_slope_def as_secs_def Let_def)
  have "(1 :: nat) \<in> set [1..<Suc (min (length samples) 6)]"
    using assms(1) by (simp del: upt_Suc)
  then have "y \<in> set (List.map_filter (lag_slope samples now_sessions now) [1..<Suc (min (length samples) 6)])"
    using y unfolding set_map_filter by blast
  then have "List.map_filter (lag_slope samples now_sessions now) [1..<Suc (min (length samples) 6)] \<noteq> []"
    by force
  then show ?thesis using assms(1) by (simp add: compute_smoothed_slope_def Let_def)
qed

lemma push_sample_bounded:
  "length (slope_samples st) \<le> 7 \<Longrightarrow> length (slope_samples (push_sample now avg st)) \<le> 7"
  by (simp add: push_sample_def Let_def)

lemma push_sample_newest: "last (slope_samples (push_sample now avg st)) = (now, avg)"
  by (cases "slope_samples st") (auto simp: push_sample_def Let_def)

lemma update_bandwidth_prev [simp]: "bw_prev (update_bandwidth c st) = Some c"
  by (simp add: update_bandwidth_def Let_def)

lemma as_secs_nonneg [simp]: "0 \<le> as_secs n"
  by (simp add: as_secs_def)

lemma unsigned_real_nonneg [simp]: "0 \<le> (unsigned (w :: u64) :: real)"
  using of_nat_0_le_iff [of "unat w", where 'a = real] by simp

lemma update_bandwidth_nonneg:
  "0 \<le> bw_smoothed st \<Longrightarrow> 0 \<le> bw_smoothed (update_bandwidth c st)"
  by (auto simp: update_bandwidth_def BW_EMA_ALPHA_def Let_def split: option.splits
      intro!: add_nonneg_nonneg divide_nonneg_nonneg mult_nonneg_nonneg)

text \<open>A counter that went backwards leaves the estimate as it is.\<close>

lemma update_bandwidth_reset:
  "bw_prev st = Some p \<Longrightarrow> rx_bytes c < rx_bytes p \<Longrightarrow>
   bw_smoothed (update_bandwidth c st) = bw_smoothed st \<and> bw_raw_bps (update_bandwidth c st) = bw_raw_bps st"
  by (auto simp: update_bandwidth_def Let_def)

lemma update_bandwidth_frame [simp]:
  "scale_up_cycles (update_bandwidth c st) = scale_up_cycles st"
  "drain_cycles (update_bandwidth c st) = drain_cycles st"
  "last_scale_up (update_bandwidth c st) = last_scale_up st"
  "last_drain (update_bandwidth c st) = last_drain st"
  "drain_candidate (update_bandwidth c st) = drain_candidate st"
  "slope_samples (update_bandwidth c st) = slope_samples st"
  by (auto simp: update_bandwidth_def Let_def split: option.splits)

lemma push_sample_frame [simp]:
  "scale_up_cycles (push_sample n a st) = scale_up_cycles st"
  "drain_cycles (push_sample n a st) = drain_cycles st"
  "last_scale_up (push_sample n a st) = last_scale_up st"
  "last_drain (push_sample n a st) = last_drain st"
  "drain_candidate (push_sample n a st) = drain_candidate st"
  "bw_smoothed (push_sample n a st) = bw_smoothed st"
  "bw_prev (push_sample n a st) = bw_prev st"
  "bw_raw_bps (push_sample n a st) = bw_raw_bps st"
  by (simp_all add: push_sample_def Let_def)

end
