(* ===== verification/Scaler_Safety.thy ===== *)
theory Scaler_Safety
  imports Scaler
begin

text \<open>
  What a scaler pass may do: the state it keeps, when it raises the desired capacity and by how much,
  and which backend it drains under which conditions.
\<close>

section \<open>The state\<close>

definition scaler_inv :: "scaler_state \<Rightarrow> bool" where
  "scaler_inv st \<longleftrightarrow> length (slope_samples st) \<le> 7 \<and> 0 \<le> bw_smoothed st \<and> drain_candidate st = None"

lemma scaler_inv_default: "scaler_inv scaler_default"
  by (simp add: scaler_inv_def scaler_default_def)

lemma scaler_inv_frame [simp]:
  "scaler_inv (st\<lparr>scale_up_cycles := c\<rparr>) = scaler_inv st"
  "scaler_inv (st\<lparr>last_scale_up := l\<rparr>) = scaler_inv st"
  "scaler_inv (st\<lparr>drain_cycles := c\<rparr>) = scaler_inv st"
  "scaler_inv (st\<lparr>last_drain := l\<rparr>) = scaler_inv st"
  by (simp_all add: scaler_inv_def)

lemma scaler_inv_no_candidate: "scaler_inv st \<Longrightarrow> scaler_inv (st\<lparr>drain_candidate := None\<rparr>)"
  by (simp add: scaler_inv_def)

lemma scaler_inv_bandwidth: "scaler_inv st \<Longrightarrow> scaler_inv (update_bandwidth c st)"
  by (simp add: scaler_inv_def update_bandwidth_nonneg)

lemma scaler_inv_sample: "scaler_inv st \<Longrightarrow> scaler_inv (push_sample n a st)"
  by (simp add: scaler_inv_def push_sample_bounded)

lemmas scaler_inv_intros = scaler_inv_no_candidate scaler_inv_bandwidth scaler_inv_sample

lemma returns_scale_up_act:
  "scaler_inv st \<Longrightarrow> returns scaler_inv (scale_up_act n r dry g cfg st)"
  by (auto simp: scale_up_act_def Let_def intro!: returns_bindI split: sum.splits)

lemma returns_evaluate_scale_up:
  "scaler_inv st \<Longrightarrow> returns scaler_inv (evaluate_scale_up s cfg avg n nm r dry st)"
  unfolding evaluate_scale_up_def Let_def
  by (auto intro!: returns_bindI returns_scale_up_act scaler_inv_intros split: option.splits sum.splits)

lemma returns_evaluate_drain:
  "scaler_inv st \<Longrightarrow> returns scaler_inv (evaluate_drain s active cfg wd dry st)"
  unfolding evaluate_drain_def drain_act_def Let_def
  by (auto intro!: returns_bindI scaler_inv_no_candidate split: option.splits sum.splits)

lemma returns_scaler_run:
  "scaler_inv st \<Longrightarrow> returns scaler_inv (scaler_run s cfg nm r wd dry st)"
  unfolding scaler_run_def Let_def
  by (rule returns_bindI)
    (auto intro!: returns_bind [OF returns_evaluate_scale_up] returns_evaluate_drain
      scaler_inv_no_candidate)

section \<open>The hysteresis counter\<close>

definition next_cycles :: "scale_config \<Rightarrow> u32 \<Rightarrow> bool \<Rightarrow> u32" where
  "next_cycles cfg c soft = (case count_triggers cfg False soft c of None \<Rightarrow> 0 | Some k \<Rightarrow> k)"

text \<open>Without the hard ceiling, the counter is the number of trailing passes that fired.\<close>

lemma cycles_trailing:
  "length softs < 2 ^ 32 \<Longrightarrow>
   unat (foldl (next_cycles cfg) 0 softs) = length (takeWhile (\<lambda>b. b) (rev softs))"
proof (induction softs rule: rev_induct)
  case (snoc b bs)
  have "length (takeWhile (\<lambda>b. b) (rev bs)) \<le> length bs"
    by (metis length_rev length_takeWhile_le)
  with snoc show ?case
    by (auto simp: next_cycles_def count_triggers_def unat_word_ariths)
qed simp

section \<open>Scaling up\<close>

definition cooled :: "nat option \<Rightarrow> u64 \<Rightarrow> (cmd \<times> reply) list \<Rightarrow> bool" where
  "cooled last_act cd t \<longleftrightarrow>
     (case last_act of None \<Rightarrow> True
      | Some t0 \<Rightarrow> \<exists>clk. (NowInstant, clk) \<in> set t \<and> unat cd \<le> elapsed_secs t0 (as_nanos clk))"

lemma cooling_runs: "runs (cooling last_act cd) t False \<Longrightarrow> cooled last_act cd t"
  by (auto simp: cooling_def cooled_def instant_now_def runs_Op_iff not_less split: option.splits
      elim!: runs_bindE)

lemma cooled_append: "cooled l cd t \<Longrightarrow> cooled l cd (t1 @ t @ t2)"
  by (auto simp: cooled_def split: option.splits)

lemma cooling_trace: "runs (cooling l cd) t b \<Longrightarrow> (c, r) \<in> set t \<Longrightarrow> c = NowInstant"
  by (auto simp: cooling_def instant_now_def runs_Op_iff split: option.splits elim!: runs_bindE)

lemma set_desired_trace:
  assumes "runs (set_desired region nm d) t x" "(c, r) \<in> set t"
  shows "c = AwsQuery (asg_host region) ''autoscaling'' region (set_desired_params nm d)"
proof -
  have "emits (\<lambda>c. c = AwsQuery (asg_host region) ''autoscaling'' region (set_desired_params nm d))
      (set_desired region nm d)" by simp
  from emits_runs [OF assms(1) this assms(2)] show ?thesis .
qed

lemma instant_trace: "runs instant_now t x \<Longrightarrow> \<exists>r. t = [(NowInstant, r)] \<and> x = as_nanos r"
  by (auto simp: instant_now_def runs_Op_iff)

text \<open>An action of \<open>scale_up_act\<close>: one more instance, below the maximum, after the cooldown.\<close>

lemma scale_up_act_runs:
  assumes "runs (scale_up_act nm region dry g cfg st) t st'" "(AwsQuery h sv r ps, rp) \<in> set t"
  shows "desired_capacity g < max_size g \<and> \<not> dry \<and>
    AwsQuery h sv r ps = AwsQuery (asg_host region) ''autoscaling'' region
      (set_desired_params nm (word_of_int (desired_capacity g + 1))) \<and>
    cooled (last_scale_up st) (scale_up_cooldown_secs cfg) t"
proof -
  let ?d = "word_of_int (desired_capacity g + 1) :: u32"
  have lt: "desired_capacity g < max_size g"
    using assms by (auto simp: scale_up_act_def split: if_splits)
  obtain t1 t2 wait where t: "t = t1 @ t2"
    and c: "runs (cooling (last_scale_up st) (scale_up_cooldown_secs cfg)) t1 wait"
    and rest: "runs (if wait then Ret st else
          bind (if dry then Ret (Inr ()) else set_desired region nm ?d) (\<lambda>x.
          case x of Inl e \<Rightarrow> Ret st
          | Inr u \<Rightarrow> bind instant_now (\<lambda>t. Ret (st\<lparr>scale_up_cycles := 0, last_scale_up := Some t\<rparr>)))) t2 st'"
    using assms(1) lt unfolding scale_up_act_def Let_def by (auto elim!: runs_bindE)
  have m: "(AwsQuery h sv r ps, rp) \<in> set t2"
    using assms(2) t cooling_trace [OF c] by auto
  then have nw: "\<not> wait" using rest by auto
  obtain t3 t4 x where t2: "t2 = t3 @ t4"
    and s: "runs (if dry then Ret (Inr ()) else set_desired region nm ?d) t3 x"
    and r4: "runs (case x of Inl e \<Rightarrow> Ret st
          | Inr u \<Rightarrow> bind instant_now (\<lambda>t. Ret (st\<lparr>scale_up_cycles := 0, last_scale_up := Some t\<rparr>))) t4 st'"
    using rest nw by (auto elim!: runs_bindE)
  have "\<forall>y \<in> set t4. fst y = NowInstant"
    using r4 by (auto split: sum.splits elim!: runs_bindE dest!: instant_trace)
  then have m3: "(AwsQuery h sv r ps, rp) \<in> set t3" using m t2 by force
  then have nd: "\<not> dry" using s by (auto split: if_splits)
  have "AwsQuery h sv r ps = AwsQuery (asg_host region) ''autoscaling'' region (set_desired_params nm ?d)"
    using s nd set_desired_trace m3 by simp
  moreover have "cooled (last_scale_up st) (scale_up_cooldown_secs cfg) t"
    using cooled_append [OF cooling_runs, of _ _ t1 "[]" t2] c nw t by simp
  ultimately show ?thesis using lt nd by simp
qed

lemma read_iface_no_aws:
  assumes "runs read_iface_snapshot t x"
  shows "(AwsQuery h sv r ps, rp) \<notin> set t"
proof -
  have "emits (\<lambda>c. \<nexists>h sv r ps. c = AwsQuery h sv r ps) read_iface_snapshot"
    unfolding read_iface_snapshot_def by (auto intro!: emits_attemptI emits_bindI)
  from emits_runs [OF assms this] show ?thesis by blast
qed

text \<open>A pass up to the counter: one clock reading, the interface counters, and the triggers.\<close>

lemma evaluate_scale_up_parts:
  assumes "runs (evaluate_scale_up s cfg avg n nm region dry st) t st'" "asg_group s = Some g"
  obtains clk t2 t3 st1 soft where "t = (NowInstant, clk) # t2 @ t3"
    "\<And>h sv r ps rp. (AwsQuery h sv r ps, rp) \<notin> set t2"
    "scale_up_cycles st1 = scale_up_cycles st" "last_scale_up st1 = last_scale_up st"
    "soft \<longleftrightarrow> slope_trigger cfg avg (compute_smoothed_slope (slope_samples st) avg (as_nanos clk)) \<or>
      bw_trigger cfg avg (bw_per_backend st1 n)"
    "runs (case count_triggers cfg (hard_trigger cfg avg) soft (scale_up_cycles st) of
       None \<Rightarrow> Ret (st1\<lparr>scale_up_cycles := 0\<rparr>)
     | Some cycles \<Rightarrow>
         if cycles < scale_up_hysteresis_cycles cfg then Ret (st1\<lparr>scale_up_cycles := cycles\<rparr>)
         else scale_up_act nm region dry g cfg (st1\<lparr>scale_up_cycles := cycles\<rparr>)) t3 st'"
proof -
  obtain t1 t2 t3 now x where t: "t = t1 @ t2 @ t3" and i: "runs instant_now t1 now"
    and rd: "runs read_iface_snapshot t2 x"
    and rest: "runs (let st = (case x of Inl e \<Rightarrow> st | Inr current \<Rightarrow> update_bandwidth current st);
              slope = compute_smoothed_slope (slope_samples st) avg now;
              st = push_sample now avg st;
              hard = hard_trigger cfg avg;
              soft = (slope_trigger cfg avg slope \<or> bw_trigger cfg avg (bw_per_backend st n))
          in
          case count_triggers cfg hard soft (scale_up_cycles st) of
            None \<Rightarrow> Ret (st\<lparr>scale_up_cycles := 0\<rparr>)
          | Some cycles \<Rightarrow>
              let st = st\<lparr>scale_up_cycles := cycles\<rparr> in
              if cycles < scale_up_hysteresis_cycles cfg then Ret st
              else scale_up_act nm region dry g cfg st) t3 st'"
    using assms by (auto simp: evaluate_scale_up_def elim!: runs_bindE)
  define st0 where "st0 = (case x of Inl e \<Rightarrow> st | Inr current \<Rightarrow> update_bandwidth current st)"
  have frame: "scale_up_cycles st0 = scale_up_cycles st" "last_scale_up st0 = last_scale_up st"
      "slope_samples st0 = slope_samples st"
    by (auto simp: st0_def split: sum.splits)
  obtain clk where clk: "t1 = [(NowInstant, clk)]" "now = as_nanos clk" using instant_trace [OF i] by blast
  show thesis
    by (rule that [OF _ _ _ _ refl rest [unfolded Let_def, folded st0_def, unfolded frame push_sample_frame clk(2)]])
      (use t clk read_iface_no_aws [OF rd] in \<open>simp_all add: frame\<close>)
qed

lemma soft_needs_floor:
  "slope_trigger cfg avg x \<or> bw_trigger cfg avg y \<Longrightarrow> slope_low_floor cfg \<le> avg"
  by (auto simp: slope_trigger_def bw_trigger_def split: option.splits)

lemma evaluate_scale_up_runs:
  assumes "runs (evaluate_scale_up s cfg avg n nm region dry st) t st'"
    and "(AwsQuery h sv r ps, rp) \<in> set t"
  shows "\<exists>g. asg_group s = Some g \<and> desired_capacity g < max_size g \<and> \<not> dry \<and>
    AwsQuery h sv r ps = AwsQuery (asg_host region) ''autoscaling'' region
      (set_desired_params nm (word_of_int (desired_capacity g + 1))) \<and>
    cooled (last_scale_up st) (scale_up_cooldown_secs cfg) t \<and>
    (hard_trigger cfg avg \<or>
     slope_low_floor cfg \<le> avg \<and> scale_up_hysteresis_cycles cfg \<le> scale_up_cycles st + 1)"
proof -
  obtain g where g: "asg_group s = Some g"
    using assms by (auto simp: evaluate_scale_up_def split: option.splits)
  from assms(1) g show ?thesis
  proof (rule evaluate_scale_up_parts)
    fix clk t2 t3 st1 soft
    assume t: "t = (NowInstant, clk) # t2 @ t3" and quiet: "\<And>h sv r ps rp. (AwsQuery h sv r ps, rp) \<notin> set t2"
      and frame: "scale_up_cycles st1 = scale_up_cycles st" "last_scale_up st1 = last_scale_up st"
      and soft: "soft \<longleftrightarrow> slope_trigger cfg avg (compute_smoothed_slope (slope_samples st) avg (as_nanos clk)) \<or>
        bw_trigger cfg avg (bw_per_backend st1 n)"
      and rest: "runs (case count_triggers cfg (hard_trigger cfg avg) soft (scale_up_cycles st) of
         None \<Rightarrow> Ret (st1\<lparr>scale_up_cycles := 0\<rparr>)
       | Some cycles \<Rightarrow>
           if cycles < scale_up_hysteresis_cycles cfg then Ret (st1\<lparr>scale_up_cycles := cycles\<rparr>)
           else scale_up_act nm region dry g cfg (st1\<lparr>scale_up_cycles := cycles\<rparr>)) t3 st'"
    have m: "(AwsQuery h sv r ps, rp) \<in> set t3" using assms(2) t quiet by auto
    obtain cycles where c: "count_triggers cfg (hard_trigger cfg avg) soft (scale_up_cycles st) = Some cycles"
      and ge: "\<not> cycles < scale_up_hysteresis_cycles cfg"
      and act: "runs (scale_up_act nm region dry g cfg (st1\<lparr>scale_up_cycles := cycles\<rparr>)) t3 st'"
      using rest m by (auto split: option.splits if_splits)
    have "hard_trigger cfg avg \<or>
       slope_low_floor cfg \<le> avg \<and> scale_up_hysteresis_cycles cfg \<le> scale_up_cycles st + 1"
      using c ge soft soft_needs_floor by (auto simp: count_triggers_def not_less split: if_splits)
    moreover have "cooled (last_scale_up st) (scale_up_cooldown_secs cfg) t"
      using scale_up_act_runs [OF act m] frame(2) t
        cooled_append [of _ _ t3 "(NowInstant, clk) # t2" "[]"] by simp
    ultimately show ?thesis using scale_up_act_runs [OF act m] g by simp
  qed
qed

text \<open>
  Conversely: when the trigger fires, the group is below its maximum and every clock reading of the
  pass is past the cooldown, the request is made.
\<close>

definition ripe :: "nat option \<Rightarrow> u64 \<Rightarrow> (cmd \<times> reply) list \<Rightarrow> bool" where
  "ripe last_act cd t \<longleftrightarrow>
     (\<forall>t0 clk. last_act = Some t0 \<longrightarrow> (NowInstant, clk) \<in> set t \<longrightarrow> unat cd \<le> elapsed_secs t0 (as_nanos clk))"

lemma ripe_append [simp]: "ripe l cd (t @ t') \<longleftrightarrow> ripe l cd t \<and> ripe l cd t'"
  by (auto simp: ripe_def)

lemma ripe_cooling: "runs (cooling l cd) t wait \<Longrightarrow> ripe l cd t \<Longrightarrow> \<not> wait"
  by (cases l) (auto simp: cooling_def instant_now_def ripe_def runs_Op_iff elim!: runs_bindE)

lemma set_desired_asks:
  "runs (set_desired region nm d) t x \<Longrightarrow>
   \<exists>rp. (AwsQuery (asg_host region) ''autoscaling'' region (set_desired_params nm d), rp) \<in> set t"
  by (auto simp: set_desired_def aws_call_def runs_attempt_iff runs_call)

lemma scale_up_act_asks:
  assumes "runs (scale_up_act nm region False g cfg st) t st'" "desired_capacity g < max_size g"
    and "ripe (last_scale_up st) (scale_up_cooldown_secs cfg) t"
  shows "\<exists>rp. (AwsQuery (asg_host region) ''autoscaling'' region
    (set_desired_params nm (word_of_int (desired_capacity g + 1))), rp) \<in> set t"
proof -
  let ?d = "word_of_int (desired_capacity g + 1) :: u32"
  obtain t1 t2 wait where t: "t = t1 @ t2"
    and c: "runs (cooling (last_scale_up st) (scale_up_cooldown_secs cfg)) t1 wait"
    and rest: "runs (if wait then Ret st else
          bind (if False then Ret (Inr ()) else set_desired region nm ?d) (\<lambda>x.
          case x of Inl e \<Rightarrow> Ret st
          | Inr u \<Rightarrow> bind instant_now (\<lambda>t. Ret (st\<lparr>scale_up_cycles := 0, last_scale_up := Some t\<rparr>)))) t2 st'"
    using assms(1,2) unfolding scale_up_act_def Let_def by (auto elim!: runs_bindE)
  have "\<not> wait" using ripe_cooling [OF c] assms(3) t by simp
  then obtain t3 t4 x where "t2 = t3 @ t4" "runs (set_desired region nm ?d) t3 x"
    using rest by (auto elim!: runs_bindE)
  then show ?thesis using set_desired_asks t by fastforce
qed

lemma evaluate_scale_up_asks:
  assumes "runs (evaluate_scale_up s cfg avg n nm region False st) t st'"
    and g: "asg_group s = Some g" "desired_capacity g < max_size g"
    and ripe: "ripe (last_scale_up st) (scale_up_cooldown_secs cfg) t"
    and fires: "hard_trigger cfg avg \<or> scale_up_hysteresis_cycles cfg \<le> scale_up_cycles st + 1 \<and>
      (\<forall>clk. hd t = (NowInstant, clk) \<longrightarrow>
        slope_trigger cfg avg (compute_smoothed_slope (slope_samples st) avg (as_nanos clk)))"
  shows "\<exists>rp. (AwsQuery (asg_host region) ''autoscaling'' region
    (set_desired_params nm (word_of_int (desired_capacity g + 1))), rp) \<in> set t"
  using assms(1) g(1)
proof (rule evaluate_scale_up_parts)
  fix clk t2 t3 st1 soft
  assume t: "t = (NowInstant, clk) # t2 @ t3" and frame: "last_scale_up st1 = last_scale_up st"
    and soft: "soft \<longleftrightarrow> slope_trigger cfg avg (compute_smoothed_slope (slope_samples st) avg (as_nanos clk)) \<or>
      bw_trigger cfg avg (bw_per_backend st1 n)"
    and rest: "runs (case count_triggers cfg (hard_trigger cfg avg) soft (scale_up_cycles st) of
       None \<Rightarrow> Ret (st1\<lparr>scale_up_cycles := 0\<rparr>)
     | Some cycles \<Rightarrow>
         if cycles < scale_up_hysteresis_cycles cfg then Ret (st1\<lparr>scale_up_cycles := cycles\<rparr>)
         else scale_up_act nm region False g cfg (st1\<lparr>scale_up_cycles := cycles\<rparr>)) t3 st'"
  have "\<exists>cycles. count_triggers cfg (hard_trigger cfg avg) soft (scale_up_cycles st) = Some cycles \<and>
      \<not> cycles < scale_up_hysteresis_cycles cfg"
    using fires soft t by (auto simp: count_triggers_def not_less)
  then obtain cycles where act: "runs (scale_up_act nm region False g cfg (st1\<lparr>scale_up_cycles := cycles\<rparr>)) t3 st'"
    using rest by auto
  show ?thesis using scale_up_act_asks [OF act g(2)] ripe t frame by (auto simp: ripe_def)
qed

section \<open>Draining\<close>

lemma draining_wrap: "(1 :: u32) < word_of_nat k \<Longrightarrow> 2 \<le> k"
proof (rule ccontr)
  assume a: "(1 :: u32) < word_of_nat k" and "\<not> 2 \<le> k"
  then have "k = 0 \<or> k = 1" by linarith
  then show False using a by (elim disjE) simp_all
qed

lemma drain_choice_props:
  assumes "drain_choice active d = Some b" "active \<noteq> []"
  shows "b \<in> set active \<and>
    (backend_sessions b = 0 \<or>
     d = 0 \<and> (\<forall>x \<in> set active. backend_sessions x \<le> backend_sessions b \<and> backend_sessions x \<noteq> 0))"
proof -
  let ?so = "sort_key backend_sessions active"
  have ne: "?so \<noteq> []" using assms(2) by (metis length_0_conv length_sort)
  have h: "hd ?so \<in> set active" "last ?so \<in> set active"
    using ne hd_in_set [OF ne] last_in_set [OF ne] by simp_all
  have least: "\<forall>x \<in> set active. backend_sessions (hd ?so) \<le> backend_sessions x"
    by (intro ballI hd_sort_key_le)
  have most: "\<forall>x \<in> set active. backend_sessions x \<le> backend_sessions (last ?so)"
    by (intro ballI last_sort_key_ge)
  show ?thesis
  proof (cases "backend_sessions (hd ?so) = 0")
    case True
    then show ?thesis using assms(1) h by (auto simp: drain_choice_def Let_def)
  next
    case False
    then have "b = last ?so" "d = 0" using assms(1) by (auto simp: drain_choice_def Let_def split: if_splits)
    moreover have "\<forall>x \<in> set active. backend_sessions x \<noteq> 0"
      using least False by (metis word_le_0_iff)
    ultimately show ?thesis using h most by auto
  qed
qed

lemma write_weight_trace:
  "runs (write_weight wd ip v dry) t x \<Longrightarrow> (c, r) \<in> set t \<Longrightarrow>
   c = WriteFile (weight_path wd ip) v \<and> \<not> dry"
  by (auto simp: write_weight_def Let_def runs_ctx runs_call split: if_splits)

text \<open>
  A drain is started for one participating backend only when at least two take part, the group is
  above its minimum, fewer than the allowed number are draining, the average is below the threshold
  for the required number of passes, and the cooldown is over.
\<close>

lemma evaluate_drain_runs:
  assumes "runs (evaluate_drain s active cfg wd dry st) t st'" "(WriteFile path v, rp) \<in> set t"
  shows "\<exists>g b. asg_group s = Some g \<and> min_size g < desired_capacity g \<and> 2 \<le> length active \<and>
    draining_count s < max_concurrent_draining cfg \<and>
    total_sessions active div word_of_nat (length active) < drain_threshold cfg \<and>
    drain_hysteresis_cycles cfg \<le> drain_cycles st + 1 \<and>
    cooled (last_drain st) (drain_cooldown_secs cfg) t \<and> \<not> dry \<and>
    b \<in> set active \<and> path = weight_path wd (bs_ip b) \<and> v = WEIGHT_DRAINING \<and>
    (backend_sessions b = 0 \<or>
     draining_count s = 0 \<and> (\<forall>x \<in> set active. backend_sessions x \<le> backend_sessions b))"
proof -
  obtain g where g: "asg_group s = Some g"
    using assms by (auto simp: evaluate_drain_def split: option.splits)
  let ?n = "word_of_nat (length active) :: u32"
  define st1 where "st1 = st\<lparr>drain_cycles := drain_cycles st + 1\<rparr>"
  have guards: "\<not> ?n \<le> 1" "min_size g < desired_capacity g"
      "draining_count s < max_concurrent_draining cfg"
      "total_sessions active div ?n < drain_threshold cfg"
      "drain_hysteresis_cycles cfg \<le> drain_cycles st + 1"
    using assms g by (auto simp: evaluate_drain_def Let_def not_le not_less split: if_splits)
  then have neg: "\<not> desired_capacity g \<le> min_size g"
      "\<not> max_concurrent_draining cfg \<le> draining_count s"
      "\<not> drain_threshold cfg \<le> total_sessions active div ?n"
      "\<not> drain_cycles st + 1 < drain_hysteresis_cycles cfg"
    by (simp_all add: not_le not_less)
  have r: "runs (drain_act s active cfg wd dry st1) t st'"
    using assms(1) unfolding evaluate_drain_def st1_def by (simp add: Let_def g guards(1) neg)
  obtain t1 t2 wait where t: "t = t1 @ t2"
    and c: "runs (cooling (last_drain st1) (drain_cooldown_secs cfg)) t1 wait"
    and r2: "runs (if wait then Ret st1
      else case drain_choice active (draining_count s) of
        None \<Rightarrow> Ret st1
      | Some candidate \<Rightarrow>
          bind (if dry then Ret (Inr ()) else write_weight wd (bs_ip candidate) WEIGHT_DRAINING dry) (\<lambda>x.
          case x of
            Inl e \<Rightarrow> Ret st1
          | Inr u \<Rightarrow> bind instant_now (\<lambda>t.
              Ret (st1\<lparr>drain_cycles := 0, drain_candidate := None, last_drain := Some t\<rparr>)))) t2 st'"
    using r unfolding drain_act_def by (rule runs_bindE)
  have m: "(WriteFile path v, rp) \<in> set t2"
    using assms(2) t cooling_trace [OF c] by auto
  obtain b where b: "drain_choice active (draining_count s) = Some b" and nw: "\<not> wait"
    using r2 m by (auto split: if_splits option.splits)
  obtain t3 t4 x where t2: "t2 = t3 @ t4"
    and w: "runs (if dry then Ret (Inr ()) else write_weight wd (bs_ip b) WEIGHT_DRAINING dry) t3 x"
    and r4: "runs (case x of
            Inl e \<Rightarrow> Ret st1
          | Inr u \<Rightarrow> bind instant_now (\<lambda>t.
              Ret (st1\<lparr>drain_cycles := 0, drain_candidate := None, last_drain := Some t\<rparr>))) t4 st'"
    using r2 b nw by (auto elim!: runs_bindE)
  have "\<forall>y \<in> set t4. fst y = NowInstant"
    using r4 by (auto split: sum.splits elim!: runs_bindE dest!: instant_trace)
  then have m3: "(WriteFile path v, rp) \<in> set t3" using m t2 by force
  have "\<not> dry" using w m3 by (auto split: if_splits)
  then have "runs (write_weight wd (bs_ip b) WEIGHT_DRAINING dry) t3 x" using w by simp
  from write_weight_trace [OF this m3]
  have w': "path = weight_path wd (bs_ip b)" "v = WEIGHT_DRAINING" "\<not> dry" by simp_all
  have two: "2 \<le> length active" using guards(1) by (intro draining_wrap) (simp add: not_le)
  then have "active \<noteq> []" by auto
  note ch = drain_choice_props [OF b this]
  have "cooled (last_drain st) (drain_cooldown_secs cfg) t"
    using cooled_append [OF cooling_runs, of _ _ t1 "[]" t2] c nw t by (simp add: st1_def)
  then show ?thesis using g guards w' two ch by auto
qed

text \<open>Conversely, when all this holds, the chosen backend is drained.\<close>

lemma write_weight_writes:
  "runs (write_weight wd ip v False) t x \<Longrightarrow> \<exists>rp. (WriteFile (weight_path wd ip) v, rp) \<in> set t"
  by (auto simp: write_weight_def Let_def runs_ctx runs_call)

lemma evaluate_drain_writes:
  assumes "runs (evaluate_drain s active cfg wd False st) t st'"
    and g: "asg_group s = Some g" "min_size g < desired_capacity g"
    and n: "2 \<le> length active" "length active < 2 ^ 32"
    and low: "draining_count s < max_concurrent_draining cfg"
      "total_sessions active div word_of_nat (length active) < drain_threshold cfg"
      "drain_hysteresis_cycles cfg \<le> drain_cycles st + 1"
    and ripe: "ripe (last_drain st) (drain_cooldown_secs cfg) t"
    and b: "drain_choice active (draining_count s) = Some b"
  shows "\<exists>rp. (WriteFile (weight_path wd (bs_ip b)) WEIGHT_DRAINING, rp) \<in> set t"
proof -
  define st1 where "st1 = st\<lparr>drain_cycles := drain_cycles st + 1\<rparr>"
  have "unat (word_of_nat (length active) :: u32) = length active"
    using n(2) by (simp add: unat_of_nat take_bit_eq_mod)
  then have n': "\<not> (word_of_nat (length active) :: u32) \<le> 1"
    using n(1) by (simp add: word_le_nat_alt)
  have neg: "\<not> desired_capacity g \<le> min_size g"
      "\<not> max_concurrent_draining cfg \<le> draining_count s"
      "\<not> drain_threshold cfg \<le> total_sessions active div word_of_nat (length active)"
      "\<not> drain_cycles st + 1 < drain_hysteresis_cycles cfg"
    using g(2) low by (simp_all add: not_le not_less)
  have r: "runs (drain_act s active cfg wd False st1) t st'"
    using assms(1) unfolding evaluate_drain_def st1_def by (simp add: Let_def g(1) n' neg)
  obtain t1 t2 wait where t: "t = t1 @ t2"
    and c: "runs (cooling (last_drain st1) (drain_cooldown_secs cfg)) t1 wait"
    and r2: "runs (if wait then Ret st1
      else case drain_choice active (draining_count s) of
        None \<Rightarrow> Ret st1
      | Some candidate \<Rightarrow>
          bind (if False then Ret (Inr ()) else write_weight wd (bs_ip candidate) WEIGHT_DRAINING False) (\<lambda>x.
          case x of
            Inl e \<Rightarrow> Ret st1
          | Inr u \<Rightarrow> bind instant_now (\<lambda>t.
              Ret (st1\<lparr>drain_cycles := 0, drain_candidate := None, last_drain := Some t\<rparr>)))) t2 st'"
    using r unfolding drain_act_def by (rule runs_bindE)
  have "\<not> wait" using ripe_cooling [OF c] ripe t by (simp add: st1_def)
  then obtain t3 t4 x where "t2 = t3 @ t4" "runs (write_weight wd (bs_ip b) WEIGHT_DRAINING False) t3 x"
    using r2 b by (auto elim!: runs_bindE)
  then show ?thesis using write_weight_writes t by fastforce
qed

text \<open>After a drain at least one active backend is left, and no drain is written without an ASG view.\<close>

lemma drain_leaves_one:
  assumes "2 \<le> length active" "distinct (map bs_ip active)" "b \<in> set active"
  shows "\<exists>x \<in> set active. bs_ip x \<noteq> bs_ip b"
proof (rule ccontr)
  assume "\<not> ?thesis"
  then have "set (map bs_ip active) \<subseteq> {bs_ip b}" by auto
  then have "card (set (map bs_ip active)) \<le> 1"
    using card_mono [of "{bs_ip b}" "set (map bs_ip active)"] by simp
  moreover have "card (set (map bs_ip active)) = length active"
    using assms(2) distinct_card by fastforce
  ultimately show False using assms(1) by simp
qed

section \<open>A whole pass\<close>

lemma participates_ok:
  "returns (\<lambda>x. x \<longrightarrow> bs_state b = Active \<and> bs_lease b \<noteq> None \<and> bs_ipvs b \<noteq> None) (participates b)"
  unfolding participates_def by (auto split: option.splits intro!: returns_bindI)

lemma participants:
  "returns (\<lambda>active. set active \<subseteq>
       {b \<in> set (backends s). bs_state b = Active \<and> bs_lease b \<noteq> None \<and> bs_ipvs b \<noteq> None})
     (filter_io participates (backends s))"
  by (rule returns_filter_io_if) (rule participates_ok)

text \<open>The mutating commands a pass may issue.\<close>

definition scaler_command :: "snapshot \<Rightarrow> string \<Rightarrow> string \<Rightarrow> string \<Rightarrow> bool \<Rightarrow> cmd \<Rightarrow> bool" where
  "scaler_command s nm region wd dry c \<longleftrightarrow> mutates c \<longrightarrow> \<not> dry \<and>
     ((\<exists>g. asg_group s = Some g \<and> desired_capacity g < max_size g \<and>
         c = AwsQuery (asg_host region) ''autoscaling'' region
           (set_desired_params nm (word_of_int (desired_capacity g + 1)))) \<or>
      (\<exists>b \<in> set (backends s). bs_state b = Active \<and> bs_lease b \<noteq> None \<and> bs_ipvs b \<noteq> None \<and>
         c = WriteFile (weight_path wd (bs_ip b)) WEIGHT_DRAINING))"

lemma scaler_command_reads [simp]:
  "scaler_command s nm region wd dry NowMs" "scaler_command s nm region wd dry NowInstant"
  "scaler_command s nm region wd dry (ReadFile p)"
  by (simp_all add: scaler_command_def)

lemma emits_cooling [simp]: "P NowInstant \<Longrightarrow> emits P (cooling l cd)"
  by (auto simp: cooling_def split: option.splits intro!: emits_bindI)

lemma emits_scale_up:
  "emits (scaler_command s nm region wd dry) (evaluate_scale_up s cfg avg n nm region dry st)"
proof (cases "asg_group s")
  case (Some g)
  have act: "emits (scaler_command s nm region wd dry) (scale_up_act nm region dry g cfg st')" for st'
    unfolding scale_up_act_def Let_def using Some
    by (auto intro!: emits_bindI split: sum.splits simp: scaler_command_def)
  show ?thesis
    unfolding evaluate_scale_up_def read_iface_snapshot_def Let_def using Some
    by (auto intro!: emits_bindI emits_attemptI act split: option.splits)
qed (simp add: evaluate_scale_up_def)

lemma emits_drain:
  assumes "set active \<subseteq> {b \<in> set (backends s). bs_state b = Active \<and> bs_lease b \<noteq> None \<and> bs_ipvs b \<noteq> None}"
  shows "emits (scaler_command s nm region wd dry) (evaluate_drain s active cfg wd dry st)"
proof -
  have wr: "scaler_command s nm region wd dry (WriteFile (weight_path wd (bs_ip b)) WEIGHT_DRAINING)"
    if "drain_choice active d = Some b" "active \<noteq> []" "\<not> dry" for b d
    using drain_choice_props [OF that(1,2)] assms that(3) by (auto simp: scaler_command_def)
  have act: "emits (scaler_command s nm region wd dry) (drain_act s active cfg wd dry st')"
    if "active \<noteq> []" for st'
    unfolding drain_act_def using wr that
    by (auto intro!: emits_bindI split: option.splits sum.splits)
  have "active \<noteq> []" if "\<not> (word_of_nat (length active) :: u32) \<le> 1" using that by auto
  then show ?thesis
    unfolding evaluate_drain_def Let_def by (auto intro!: act split: option.splits)
qed

lemma emits_participates: "emits (\<lambda>c. c = NowMs) (participates b)"
  by (auto simp: participates_def split: option.splits intro!: emits_bindI)

lemma scaler_run_commands:
  "emits (scaler_command s nm region wd dry) (scaler_run s cfg nm region wd dry st)"
  unfolding scaler_run_def Let_def
  by (rule emits_bind [OF _ participants])
    (auto intro!: emits_filter_io emits_mono [OF emits_participates] emits_bindI emits_scale_up emits_drain)

end
