(* ===== verification/Scaler_Pace.thy ===== *)
theory Scaler_Pace
  imports Scaler_Safety
begin

text \<open>
  The pace of the scaler over many passes (\<open>aeroscale/src/scaler.rs\<close>): a pass hands its state to the
  next one, and the time that is kept in it after a successful action holds back the next action
  of the same kind until the cooldown is over.
\<close>

section \<open>What one pass does to a time stamp\<close>

text \<open>No command of the log is of the kind \<open>q\<close>.\<close>

definition none_of :: "(cmd \<Rightarrow> bool) \<Rightarrow> (cmd \<times> reply) list \<Rightarrow> bool" where
  "none_of q t \<longleftrightarrow> (\<forall>(c, r) \<in> set t. \<not> q c)"

lemma none_of_simps [simp]:
  "none_of q []" "none_of q ((c, r) # t) \<longleftrightarrow> \<not> q c \<and> none_of q t"
  "none_of q (t @ u) \<longleftrightarrow> none_of q t \<and> none_of q u"
  by (auto simp: none_of_def)

lemma none_of_emits: "runs p t x \<Longrightarrow> emits (\<lambda>c. \<not> q c) p \<Longrightarrow> none_of q t"
  using emits_runs [of p t x "\<lambda>c. \<not> q c"] by (auto simp: none_of_def)

text \<open>
  A pass issues no command of the kind, and keeps the stamp; or it issues one, after a clock reading
  past the cooldown, and stamps the clock reading that follows when the answer is good.
\<close>

definition paced ::
    "(cmd \<Rightarrow> bool) \<Rightarrow> (reply \<Rightarrow> bool) \<Rightarrow> u64 \<Rightarrow> nat option \<Rightarrow> (cmd \<times> reply) list \<Rightarrow> nat option \<Rightarrow> bool" where
  "paced q good cd l t l' \<longleftrightarrow> none_of q t \<and> l' = l \<or>
     (\<exists>u c r v. t = u @ (c, r) # v \<and> q c \<and> none_of q u \<and> none_of q v \<and> cooled l cd u \<and>
        (if good r then \<exists>clk v'. v = (NowInstant, clk) # v' \<and> l' = Some (as_nanos clk) else l' = l))"

lemma paced_none: "none_of q t \<Longrightarrow> l' = l \<Longrightarrow> paced q good cd l t l'"
  by (simp add: paced_def)

lemma cooled_after: "cooled l cd u \<Longrightarrow> cooled l cd (a @ u)"
  using cooled_append [of l cd u a "[]"] by simp

lemma paced_frame:
  assumes "paced q good cd l t l'" "none_of q a" "none_of q b"
  shows "paced q good cd l (a @ t @ b) l'"
  using assms(1) unfolding paced_def
proof (elim disjE conjE exE)
  fix u c r v
  assume t: "t = u @ (c, r) # v" and rest: "q c" "none_of q u" "none_of q v" "cooled l cd u"
    and fin: "if good r then \<exists>clk v'. v = (NowInstant, clk) # v' \<and> l' = Some (as_nanos clk) else l' = l"
  have "a @ t @ b = (a @ u) @ (c, r) # (v @ b)" using t by simp
  moreover have "if good r then \<exists>clk v'. v @ b = (NowInstant, clk) # v' \<and> l' = Some (as_nanos clk) else l' = l"
    using fin by (auto split: if_splits)
  ultimately have "\<exists>u c r v. a @ t @ b = u @ (c, r) # v \<and> q c \<and> none_of q u \<and> none_of q v \<and> cooled l cd u \<and>
      (if good r then \<exists>clk v'. v = (NowInstant, clk) # v' \<and> l' = Some (as_nanos clk) else l' = l)"
    using rest assms(2,3) cooled_after [OF rest(4), of a]
    by - (rule exI [of _ "a @ u"], rule exI [of _ c], rule exI [of _ r], rule exI [of _ "v @ b"], simp)
  then show "none_of q (a @ t @ b) \<and> l' = l \<or> (\<exists>u c r v. a @ t @ b = u @ (c, r) # v \<and> q c \<and> none_of q u \<and>
      none_of q v \<and> cooled l cd u \<and>
      (if good r then \<exists>clk v'. v = (NowInstant, clk) # v' \<and> l' = Some (as_nanos clk) else l' = l))" ..
qed (use assms in simp)

section \<open>Many passes\<close>

fun chain :: "('s \<Rightarrow> 't \<Rightarrow> 's \<Rightarrow> bool) \<Rightarrow> 's \<Rightarrow> 't list \<Rightarrow> 's \<Rightarrow> bool" where
  "chain P l [] l' = (l' = l)"
| "chain P l (t # ts) l' = (\<exists>m. P l t m \<and> chain P m ts l')"

lemma chain_append: "chain P l (ts @ us) l' \<longleftrightarrow> (\<exists>m. chain P l ts m \<and> chain P m us l')"
  by (induction ts arbitrary: l) auto

lemma chain_map:
  assumes "\<And>s t s'. P s t s' \<Longrightarrow> Q (f s) t (f s')"
  shows "chain P s ts s' \<Longrightarrow> chain Q (f s) ts (f s')"
  by (induction ts arbitrary: s) (auto dest: assms)

lemma chain_keeps:
  assumes "chain (paced q good cd) l ts l'" "\<forall>t \<in> set ts. \<forall>(c, r) \<in> set t. q c \<longrightarrow> \<not> good r"
  shows "l' = l"
  using assms by (induction ts arbitrary: l) (auto simp: paced_def split: if_splits)

text \<open>Between a good action and the next request of its kind the cooldown has passed.\<close>

lemma chain_spaced:
  assumes "chain (paced q good cd) l (us @ [t] @ vs @ [t']) l'"
    and "(c, r) \<in> set t" "q c" "good r"
    and "\<forall>v \<in> set vs. \<forall>(c, r) \<in> set v. q c \<longrightarrow> \<not> good r"
    and "(c', r') \<in> set t'" "q c'"
  shows "\<exists>a clk b a' clk' b'. t = a @ (c, r) # (NowInstant, clk) # b \<and> none_of q a \<and> none_of q b \<and>
    t' = a' @ (c', r') # b' \<and> (NowInstant, clk') \<in> set a' \<and> unat cd \<le> elapsed_secs (as_nanos clk) (as_nanos clk')"
proof -
  obtain l1 l2 l3 where p: "paced q good cd l1 t l2" and k: "chain (paced q good cd) l2 vs l3"
    and p': "paced q good cd l3 t' l'"
    using assms(1) by (auto simp: chain_append)
  have "\<not> none_of q t" using assms(2,3) by (auto simp: none_of_def)
  then obtain a x y b where t: "t = a @ (x, y) # b" and n: "none_of q a" "none_of q b"
    and g: "if good y then \<exists>clk v'. b = (NowInstant, clk) # v' \<and> l2 = Some (as_nanos clk) else l2 = l1"
    using p unfolding paced_def by blast
  have xy: "x = c \<and> y = r" using t n assms(2,3) by (auto simp: none_of_def)
  then obtain clk b' where b: "b = (NowInstant, clk) # b'" "l2 = Some (as_nanos clk)" using g assms(4) by auto
  have "l3 = Some (as_nanos clk)" using chain_keeps [OF k assms(5)] b(2) by simp
  moreover have "\<not> none_of q t'" using assms(6,7) by (auto simp: none_of_def)
  ultimately obtain u c2 r2 v where t': "t' = u @ (c2, r2) # v" and n': "none_of q u" "none_of q v"
      and "cooled (Some (as_nanos clk)) cd u"
    using p' unfolding paced_def by blast
  then obtain clk' where clk: "(NowInstant, clk') \<in> set u" "unat cd \<le> elapsed_secs (as_nanos clk) (as_nanos clk')"
    by (auto simp: cooled_def)
  have eq: "c2 = c' \<and> r2 = r'" using t' n' assms(6,7) by (auto simp: none_of_def)
  show ?thesis
    by (rule exI [of _ a], rule exI [of _ clk], rule exI [of _ b'], rule exI [of _ u], rule exI [of _ clk'],
        rule exI [of _ v]) (use t t' xy b n clk eq in simp)
qed

section \<open>Scaling up\<close>

fun is_query :: "cmd \<Rightarrow> bool" where
  "is_query (AwsQuery h sv r ps) = True"
| "is_query _ = False"

text \<open>The answer that \<open>set_desired\<close> takes as a success.\<close>

definition granted :: "reply \<Rightarrow> bool" where
  "granted r \<longleftrightarrow> (\<exists>xml. r = Text xml \<and> contains xml ''SetDesiredCapacityResponse'')"

lemma set_desired_granted:
  "runs (set_desired region nm d) t x \<Longrightarrow> \<exists>c r. t = [(c, r)] \<and> is_query c \<and> (granted r \<longleftrightarrow> x = Inr ())"
  by (auto simp: set_desired_def aws_call_def granted_def as_text_def bad_def runs_attempt_iff runs_call
      split: reply.splits if_splits)

lemma cooling_quiet: "runs (cooling l cd) t b \<Longrightarrow> \<not> q NowInstant \<Longrightarrow> none_of q t"
  by (auto simp: none_of_def dest: cooling_trace)

lemma scale_up_act_paced:
  assumes "runs (scale_up_act nm region False g cfg st) t st'"
  shows "paced is_query granted (scale_up_cooldown_secs cfg) (last_scale_up st) t (last_scale_up st')"
proof (cases "max_size g \<le> desired_capacity g")
  case False
  let ?d = "word_of_int (desired_capacity g + 1) :: u32"
  obtain t1 t2 wait where t: "t = t1 @ t2"
    and c: "runs (cooling (last_scale_up st) (scale_up_cooldown_secs cfg)) t1 wait"
    and rest: "runs (if wait then Ret st else
          bind (if False then Ret (Inr ()) else set_desired region nm ?d) (\<lambda>x.
          case x of Inl e \<Rightarrow> Ret st
          | Inr u \<Rightarrow> bind instant_now (\<lambda>t. Ret (st\<lparr>scale_up_cycles := 0, last_scale_up := Some t\<rparr>)))) t2 st'"
    using assms False unfolding scale_up_act_def Let_def by (auto elim!: runs_bindE)
  have n: "none_of is_query t1" using cooling_quiet [OF c] by simp
  show ?thesis
  proof (cases wait)
    case True
    then show ?thesis using rest t n by (auto intro: paced_none)
  next
    case False
    then obtain t3 t4 x where t2: "t2 = t3 @ t4" and s: "runs (set_desired region nm ?d) t3 x"
      and fin: "runs (case x of Inl e \<Rightarrow> Ret st
          | Inr u \<Rightarrow> bind instant_now (\<lambda>t. Ret (st\<lparr>scale_up_cycles := 0, last_scale_up := Some t\<rparr>))) t4 st'"
      using rest by (auto elim!: runs_bindE)
    obtain c r where cr: "t3 = [(c, r)]" "is_query c" "granted r \<longleftrightarrow> x = Inr ()"
      using set_desired_granted [OF s] by blast
    have "cooled (last_scale_up st) (scale_up_cooldown_secs cfg) t1" using c False by (intro cooling_runs) simp
    moreover have "none_of is_query t4 \<and> (if granted r
        then \<exists>clk v'. t4 = (NowInstant, clk) # v' \<and> last_scale_up st' = Some (as_nanos clk)
        else last_scale_up st' = last_scale_up st)"
      using fin cr(3) by (cases x) (auto simp: instant_now_def runs_Op_iff)
    moreover have "t = t1 @ (c, r) # t4" using t t2 cr(1) by simp
    ultimately show ?thesis using n cr(2) unfolding paced_def by blast
  qed
qed (use assms in \<open>auto simp: scale_up_act_def intro: paced_none\<close>)

lemma evaluate_scale_up_paced:
  assumes "runs (evaluate_scale_up s cfg avg n nm region False st) t st'"
  shows "paced is_query granted (scale_up_cooldown_secs cfg) (last_scale_up st) t (last_scale_up st')"
proof (cases "asg_group s")
  case (Some g)
  from assms Some show ?thesis
  proof (rule evaluate_scale_up_parts)
    fix clk t2 t3 st1 soft
    assume t: "t = (NowInstant, clk) # t2 @ t3" and quiet: "\<And>h sv r ps rp. (AwsQuery h sv r ps, rp) \<notin> set t2"
      and frame: "last_scale_up st1 = last_scale_up st"
      and rest: "runs (case count_triggers cfg (hard_trigger cfg avg) soft (scale_up_cycles st) of
         None \<Rightarrow> Ret (st1\<lparr>scale_up_cycles := 0\<rparr>)
       | Some cycles \<Rightarrow>
           if cycles < scale_up_hysteresis_cycles cfg then Ret (st1\<lparr>scale_up_cycles := cycles\<rparr>)
           else scale_up_act nm region False g cfg (st1\<lparr>scale_up_cycles := cycles\<rparr>)) t3 st'"
    have "\<not> is_query c" if "(c, r) \<in> set t2" for c r
      using quiet that by (cases c) auto
    then have n: "none_of is_query ((NowInstant, clk) # t2)" by (auto simp: none_of_def)
    have "paced is_query granted (scale_up_cooldown_secs cfg) (last_scale_up st) t3 (last_scale_up st')"
      using rest frame by (auto intro: paced_none dest!: scale_up_act_paced split: option.splits if_splits)
    from paced_frame [OF this n, of "[]"] show ?thesis using t by simp
  qed
qed (use assms in \<open>auto simp: evaluate_scale_up_def intro: paced_none\<close>)

section \<open>Draining\<close>

fun is_weight_write :: "cmd \<Rightarrow> bool" where
  "is_weight_write (WriteFile p v) = True"
| "is_weight_write _ = False"

definition written :: "reply \<Rightarrow> bool" where
  "written r \<longleftrightarrow> (\<forall>f. r \<noteq> Failed f)"

lemma write_weight_written:
  assumes "runs (write_weight wd ip v False) t x"
  shows "\<exists>c r. t = [(c, r)] \<and> is_weight_write c \<and> (written r \<longleftrightarrow> x = Inr ())"
proof -
  obtain p m r where t: "t = [(WriteFile p v, r)]" and x: "x = with_ctx m (as_unit LibFault r)"
    using assms by (auto simp: write_weight_def Let_def runs_ctx runs_call)
  have "written r \<longleftrightarrow> x = Inr ()"
    unfolding x written_def by (cases r) (simp_all add: as_unit_def)
  then show ?thesis using t by auto
qed

lemma drain_act_paced:
  assumes "runs (drain_act s active cfg wd False st) t st'"
  shows "paced is_weight_write written (drain_cooldown_secs cfg) (last_drain st) t (last_drain st')"
proof -
  obtain t1 t2 wait where t: "t = t1 @ t2"
    and c: "runs (cooling (last_drain st) (drain_cooldown_secs cfg)) t1 wait"
    and rest: "runs (if wait then Ret st
     else case drain_choice active (draining_count s) of
       None \<Rightarrow> Ret st
     | Some candidate \<Rightarrow>
         bind (if False then Ret (Inr ()) else write_weight wd (bs_ip candidate) WEIGHT_DRAINING False) (\<lambda>x.
         case x of
           Inl e \<Rightarrow> Ret st
         | Inr u \<Rightarrow> bind instant_now (\<lambda>t.
             Ret (st\<lparr>drain_cycles := 0, drain_candidate := None, last_drain := Some t\<rparr>)))) t2 st'"
    using assms unfolding drain_act_def by (rule runs_bindE)
  have n: "none_of is_weight_write t1" using cooling_quiet [OF c] by simp
  show ?thesis
  proof (cases "wait \<or> drain_choice active (draining_count s) = None")
    case True
    then have "t2 = []" "st' = st" using rest by (auto split: option.splits)
    then show ?thesis using t n by (simp add: paced_none)
  next
    case False
    then obtain b where b: "drain_choice active (draining_count s) = Some b" "\<not> wait" by auto
    then have "runs (bind (write_weight wd (bs_ip b) WEIGHT_DRAINING False) (\<lambda>x.
         case x of Inl e \<Rightarrow> Ret st
         | Inr u \<Rightarrow> bind instant_now (\<lambda>t.
             Ret (st\<lparr>drain_cycles := 0, drain_candidate := None, last_drain := Some t\<rparr>)))) t2 st'"
      using rest by simp
    then obtain t3 t4 x where t2: "t2 = t3 @ t4" and s: "runs (write_weight wd (bs_ip b) WEIGHT_DRAINING False) t3 x"
      and fin: "runs (case x of Inl e \<Rightarrow> Ret st
         | Inr u \<Rightarrow> bind instant_now (\<lambda>t.
             Ret (st\<lparr>drain_cycles := 0, drain_candidate := None, last_drain := Some t\<rparr>))) t4 st'"
      by (rule runs_bindE)
    obtain k r where cr: "t3 = [(k, r)]" "is_weight_write k" "written r \<longleftrightarrow> x = Inr ()"
      using write_weight_written [OF s] by blast
    have "cooled (last_drain st) (drain_cooldown_secs cfg) t1" using c False by (intro cooling_runs) simp
    moreover have "none_of is_weight_write t4 \<and> (if written r
        then \<exists>clk v'. t4 = (NowInstant, clk) # v' \<and> last_drain st' = Some (as_nanos clk)
        else last_drain st' = last_drain st)"
      using fin cr(3) by (cases x) (auto simp: instant_now_def runs_Op_iff)
    moreover have "t = t1 @ (k, r) # t4" using t t2 cr(1) by simp
    ultimately show ?thesis using n cr(2) unfolding paced_def by blast
  qed
qed

lemma evaluate_drain_paced:
  assumes "runs (evaluate_drain s active cfg wd False st) t st'"
  shows "paced is_weight_write written (drain_cooldown_secs cfg) (last_drain st) t (last_drain st')"
  using assms unfolding evaluate_drain_def Let_def
  by (auto intro: paced_none dest!: drain_act_paced split: option.splits if_splits)

section \<open>The passes of one scaler\<close>

lemma scale_up_writes_nothing: "emits (\<lambda>c. \<not> is_weight_write c) (evaluate_scale_up s cfg avg n nm region dry st)"
  unfolding evaluate_scale_up_def scale_up_act_def read_iface_snapshot_def Let_def
  by (auto intro!: emits_bindI emits_attemptI split: option.splits sum.splits)

lemma drain_asks_nothing: "emits (\<lambda>c. \<not> is_query c) (evaluate_drain s active cfg wd dry st)"
  unfolding evaluate_drain_def drain_act_def write_weight_def Let_def
  by (auto intro!: emits_bindI split: option.splits sum.splits)

lemma scale_up_keeps_drain: "returns (\<lambda>st'. last_drain st' = last_drain st) (evaluate_scale_up s cfg avg n nm region dry st)"
  unfolding evaluate_scale_up_def scale_up_act_def Let_def
  by (auto intro!: returns_bindI split: option.splits sum.splits)

lemma drain_keeps_scale_up: "returns (\<lambda>st'. last_scale_up st' = last_scale_up st) (evaluate_drain s active cfg wd dry st)"
  unfolding evaluate_drain_def drain_act_def Let_def
  by (auto intro!: returns_bindI split: option.splits sum.splits)

lemma scaler_run_paced:
  assumes "runs (scaler_run s cfg nm region wd False st) t st'"
  shows "paced is_query granted (scale_up_cooldown_secs cfg) (last_scale_up st) t (last_scale_up st')"
    "paced is_weight_write written (drain_cooldown_secs cfg) (last_drain st) t (last_drain st')"
proof -
  obtain t1 t2 active where t: "t = t1 @ t2" and f: "runs (filter_io participates (backends s)) t1 active"
    and rest: "runs (if (word_of_nat (length active) :: u32) = 0 then
       Ret (st\<lparr>scale_up_cycles := 0, drain_cycles := 0, drain_candidate := None\<rparr>)
     else
       bind (evaluate_scale_up s cfg (ceiling_average active) (word_of_nat (length active)) nm region False st) (\<lambda>st.
       evaluate_drain s active cfg wd False st)) t2 st'"
    using assms unfolding scaler_run_def Let_def by (rule runs_bindE)
  have q: "none_of q t1" if "\<not> q NowMs" for q
    by (rule none_of_emits [OF f]) (use that in \<open>auto intro!: emits_filter_io emits_mono [OF emits_participates]\<close>)
  have n: "none_of is_query t1" "none_of is_weight_write t1" by (simp_all add: q)
  have "paced is_query granted (scale_up_cooldown_secs cfg) (last_scale_up st) t (last_scale_up st') \<and>
    paced is_weight_write written (drain_cooldown_secs cfg) (last_drain st) t (last_drain st')"
  proof (cases "(word_of_nat (length active) :: u32) = 0")
    case True
    then have "t2 = []" "last_scale_up st' = last_scale_up st" "last_drain st' = last_drain st" using rest by auto
    then show ?thesis using t n by (simp add: paced_none)
  next
    case False
    then obtain t3 t4 st1 where t2: "t2 = t3 @ t4"
      and up: "runs (evaluate_scale_up s cfg (ceiling_average active) (word_of_nat (length active)) nm region False st) t3 st1"
      and down: "runs (evaluate_drain s active cfg wd False st1) t4 st'"
      using rest by (auto elim!: runs_bindE)
    have k: "last_drain st1 = last_drain st" "last_scale_up st' = last_scale_up st1"
      using returns_runs [OF up scale_up_keeps_drain] returns_runs [OF down drain_keeps_scale_up] by simp_all
    have w: "none_of is_weight_write (t1 @ t3)" "none_of is_query t4"
      using n none_of_emits [OF up scale_up_writes_nothing] none_of_emits [OF down drain_asks_nothing] by simp_all
    show ?thesis
      using paced_frame [OF evaluate_scale_up_paced [OF up] n(1) w(2)]
        paced_frame [OF evaluate_drain_paced [OF down] w(1), of "[]"] t t2 k by simp
  qed
  then show "paced is_query granted (scale_up_cooldown_secs cfg) (last_scale_up st) t (last_scale_up st')"
    "paced is_weight_write written (drain_cooldown_secs cfg) (last_drain st) t (last_drain st')" by simp_all
qed

text \<open>
  The logs of the passes of one scaler outside a dry run, each on a snapshot of its own and on the
  state that the pass before has left.
\<close>

definition scaler_pass ::
    "scale_config \<Rightarrow> string \<Rightarrow> string \<Rightarrow> string \<Rightarrow> scaler_state \<Rightarrow> (cmd \<times> reply) list \<Rightarrow> scaler_state \<Rightarrow> bool" where
  "scaler_pass cfg nm region wd st t st' \<longleftrightarrow> (\<exists>s. runs (scaler_run s cfg nm region wd False st) t st')"

lemma passes_paced:
  assumes "chain (scaler_pass cfg nm region wd) st ts st'"
  shows "chain (paced is_query granted (scale_up_cooldown_secs cfg)) (last_scale_up st) ts (last_scale_up st')"
    "chain (paced is_weight_write written (drain_cooldown_secs cfg)) (last_drain st) ts (last_drain st')"
proof -
  show "chain (paced is_query granted (scale_up_cooldown_secs cfg)) (last_scale_up st) ts (last_scale_up st')"
    by (rule chain_map [where f = last_scale_up, OF _ assms]) (unfold scaler_pass_def, erule exE, rule scaler_run_paced)
  show "chain (paced is_weight_write written (drain_cooldown_secs cfg)) (last_drain st) ts (last_drain st')"
    by (rule chain_map [where f = last_drain, OF _ assms]) (unfold scaler_pass_def, erule exE, rule scaler_run_paced)
qed

end
