(* ===== verification/Files.thy ===== *)
theory Files
  imports Effects
begin

text \<open>
  Paths and files as several programs of the suite use them: \<open>Path::parent\<close>, and the idiom that
  creates the parent directory of a file before the file is written.
\<close>

text \<open>
  \<open>Path::parent\<close>: everything before the last component, without trailing slashes; \<open>None\<close> for the
  empty path and the root.  A \<open>.\<close> component inside the path is not normalised.
\<close>

definition drop_slashes :: "string \<Rightarrow> string" where
  "drop_slashes r = dropWhile (\<lambda>c. c = CHR ''/'') r"

definition path_parent :: "string \<Rightarrow> string option" where
  "path_parent path =
     (let p = drop_slashes (rev path) in
      if p = [] then None
      else
        let dir = dropWhile (\<lambda>c. c \<noteq> CHR ''/'') p in
        Some (if dir \<noteq> [] \<and> drop_slashes dir = [] then ''/'' else rev (drop_slashes dir)))"

text \<open>\<open>if let Some(dir) = path.parent() { create_dir_all(dir)? }\<close> with its error message.\<close>

definition create_parent :: "string \<Rightarrow> string \<Rightarrow> unit rio" where
  "create_parent msg path =
     (case path_parent path of
        None \<Rightarrow> Ret (Inr ())
      | Some dir \<Rightarrow> ctx (msg @ dir) (call (MakeDir dir) (as_unit LibFault)))"

text \<open>\<open>fs::write(path, content)\<close> with its error message.\<close>

definition put_file :: "string \<Rightarrow> string \<Rightarrow> string \<Rightarrow> unit rio" where
  "put_file msg path content = ctx msg (call (WriteFile path content) (as_unit LibFault))"

lemma path_parent_examples:
  "path_parent ''/etc/keepalived/vrrp.conf'' = Some ''/etc/keepalived''"
  "path_parent ''/ip'' = Some ''/''" "path_parent ''ip'' = Some []" "path_parent ''/'' = None"
  by code_simp+

lemma emits_create_parent [simp]:
  "emits P (create_parent msg path) = (\<forall>dir. path_parent path = Some dir \<longrightarrow> P (MakeDir dir))"
  by (auto simp: create_parent_def split: option.splits)

lemma emits_put_file [simp]: "emits P (put_file msg path v) = P (WriteFile path v)"
  by (simp add: put_file_def)

lemma runs_create_parent:
  "runs (create_parent msg path) t x \<Longrightarrow> \<forall>(c, r) \<in> set t. \<exists>dir. c = MakeDir dir"
  by (auto simp: create_parent_def runs_ctx runs_call split: option.splits)

lemma runs_put_file:
  "runs (put_file msg path v) t x \<longleftrightarrow>
     (\<exists>r. t = [(WriteFile path v, r)] \<and> x = with_ctx msg (as_unit LibFault r))"
  by (auto simp: put_file_def runs_ctx runs_call)

end
