(* ===== verification/Weight_Sync.thy ===== *)
theory Weight_Sync
  imports Cleanup
begin

text \<open>
  \<open>aeroscale/src/weight_sync.rs\<close>: the weight files are persisted to Redis by the master, restored or
  recomputed at start, and copied by the backup.
\<close>

section \<open>The operations\<close>

definition weight_key :: "string \<Rightarrow> string" where
  "weight_key ip_str = KEY_BACKEND_WEIGHT_PREFIX @ ip_str"

definition weight_file_name :: "string \<Rightarrow> string option" where
  "weight_file_name name = Option.bind (strip_prefix ''backend-'' name) (strip_suffix ''.weight'')"

definition entry_path :: "string \<Rightarrow> string \<Rightarrow> string" where
  "entry_path weights_dir name = weights_dir @ ''/'' @ name"

definition write_entry :: "string \<Rightarrow> string \<Rightarrow> string \<Rightarrow> unit rio" where
  "write_entry weights_dir name value =
     ctx (''Cannot write '' @ entry_path weights_dir name)
       (call (WriteFile (entry_path weights_dir name) value) (as_unit LibFault))"

definition read_weights_dir :: "string \<Rightarrow> (fault + string) list rio" where
  "read_weights_dir weights_dir =
     ctx (''Cannot read weights dir: '' @ weights_dir) (call (ReadDir weights_dir) as_entries)"

definition persist_entry :: "string \<Rightarrow> string \<Rightarrow> unit rio" where
  "persist_entry weights_dir name =
     (case weight_file_name name of
        None \<Rightarrow> Ret (Inr ())
      | Some ip_str \<Rightarrow>
          bind (call (ReadFile (entry_path weights_dir name)) (as_text LibFault)) (\<lambda>x. case x of
            Inl e \<Rightarrow> Ret (Inr ())
          | Inr content \<Rightarrow>
              ctx (''Redis SET '' @ weight_key ip_str @ '' failed'')
                (redis_unit (SET (weight_key ip_str) (trim content)))))"

definition persist :: "string \<Rightarrow> unit rio" where
  "persist weights_dir =
     attempt (read_weights_dir weights_dir) (\<lambda>dir.
     attempt (for_dir (\<lambda>name _. persist_entry weights_dir name) dir ()) (\<lambda>_.
     bind now_ms (\<lambda>now.
     ctx ''Redis SET weight timestamp failed''
       (redis_unit (SET KEY_BACKEND_WEIGHTS_TS (show_word now))))))"

definition sync_entry :: "string \<Rightarrow> string \<Rightarrow> unit rio" where
  "sync_entry weights_dir name =
     (case weight_file_name name of
        None \<Rightarrow> Ret (Inr ())
      | Some ip_str \<Rightarrow>
          bind (call (Redis (GET (weight_key ip_str))) as_bulk) (\<lambda>x. case x of
            Inr (Some redis_val) \<Rightarrow>
              bind (call (ReadFile (entry_path weights_dir name)) (as_text LibFault)) (\<lambda>d.
              let disk = (case d of Inl e \<Rightarrow> [] | Inr s \<Rightarrow> s) in
              if trim disk \<noteq> trim redis_val then write_entry weights_dir name (trim redis_val)
              else Ret (Inr ()))
          | _ \<Rightarrow> Ret (Inr ())))"

definition sync_from_redis :: "string \<Rightarrow> unit rio" where
  "sync_from_redis weights_dir =
     attempt (read_weights_dir weights_dir) (\<lambda>dir.
     for_dir (\<lambda>name _. sync_entry weights_dir name) dir ())"

definition restore_entry :: "string \<Rightarrow> string \<Rightarrow> unit rio" where
  "restore_entry weights_dir name =
     (case weight_file_name name of
        None \<Rightarrow> Ret (Inr ())
      | Some ip_str \<Rightarrow>
          bind (call (Redis (GET (weight_key ip_str))) as_bulk) (\<lambda>x. case x of
            Inr (Some val) \<Rightarrow> write_entry weights_dir name (trim val)
          | _ \<Rightarrow> Ret (Inr ())))"

definition restore_from_redis :: "string \<Rightarrow> unit rio" where
  "restore_from_redis weights_dir =
     attempt (call (ReadDir weights_dir) as_entries) (\<lambda>dir.
     for_dir (\<lambda>name _. restore_entry weights_dir name) dir ())"

definition lease_weight :: "ipv4 list \<Rightarrow> ipv4 \<Rightarrow> string" where
  "lease_weight live_ips ip = (if ip \<in> set live_ips then WEIGHT_ACTIVE else WEIGHT_DISABLED)"

definition compute_entry :: "string \<Rightarrow> ipv4 list \<Rightarrow> string \<Rightarrow> unit rio" where
  "compute_entry weights_dir live_ips name =
     (case weight_file_ip name of
        None \<Rightarrow> Ret (Inr ())
      | Some ip \<Rightarrow> write_entry weights_dir name (lease_weight live_ips ip))"

definition compute_from_leases :: "string \<Rightarrow> slot_network \<Rightarrow> unit rio" where
  "compute_from_leases weights_dir net =
     bind (leases_read_all (\<lambda>_. None)) (\<lambda>(x, _).
     let lease_list = (case x of Inl e \<Rightarrow> [] | Inr ls \<Rightarrow> ls) in
     bind (filter_io (\<lambda>l. bind (is_expired l) (\<lambda>ex. Ret (\<not> ex))) lease_list) (\<lambda>live.
     let live_ips = map (\<lambda>l. ip_for_slot net (sl_slot l)) live in
     attempt (call (ReadDir weights_dir) as_entries) (\<lambda>dir.
     for_dir (\<lambda>name _. compute_entry weights_dir live_ips name) dir ())))"

text \<open>Whether the stored time stamp is younger than the limit.\<close>

definition weights_fresh :: "u64 \<Rightarrow> u64 \<Rightarrow> string option \<Rightarrow> bool" where
  "weights_fresh now ttl_secs ts =
     (case Option.bind ts parse_u64 of
        None \<Rightarrow> False
      | Some stored \<Rightarrow> saturating_sub now stored div 1000 < ttl_secs)"

definition weight_init :: "string \<Rightarrow> slot_network \<Rightarrow> u64 \<Rightarrow> unit rio" where
  "weight_init weights_dir net ttl_secs =
     bind now_ms (\<lambda>now.
     bind (call (Redis (GET KEY_BACKEND_WEIGHTS_TS)) as_bulk) (\<lambda>x.
     let ts = (case x of Inl e \<Rightarrow> None | Inr v \<Rightarrow> v) in
     if weights_fresh now ttl_secs ts then restore_from_redis weights_dir
     else compute_from_leases weights_dir net))"

section \<open>What they write\<close>

lemma emits_write_entry [simp]:
  "emits P (write_entry wd n v) = P (WriteFile (entry_path wd n) v)"
  by (simp add: write_entry_def)

lemma emits_read_weights_dir [simp]: "emits P (read_weights_dir wd) = P (ReadDir wd)"
  by (simp add: read_weights_dir_def)

lemma weights_fresh_iff:
  "weights_fresh now ttl (Some (show_word (stored :: u64))) \<longleftrightarrow>
   (unat now - unat stored) div 1000 < unat ttl"
  by (simp add: weights_fresh_def parse_u64_show word_less_nat_alt unat_div unat_saturating_sub)

lemma ttl_zero_recomputes: "\<not> weights_fresh now 0 ts"
  by (auto simp: weights_fresh_def split: option.splits)

text \<open>Computing from leases writes no weight but active for a live lease and disabled otherwise.\<close>

definition lease_write :: "string \<Rightarrow> cmd \<Rightarrow> bool" where
  "lease_write wd c \<longleftrightarrow> mutates c \<longrightarrow>
     (\<exists>name ip v. weight_file_ip name = Some ip \<and> c = WriteFile (entry_path wd name) v \<and>
       (v = WEIGHT_ACTIVE \<or> v = WEIGHT_DISABLED))"

lemma lease_write_reads: "\<not> mutates c \<Longrightarrow> lease_write wd c"
  by (simp add: lease_write_def)

lemma lease_write_simps [simp]: "lease_write wd NowMs" "lease_write wd (ReadDir d)"
  by (simp_all add: lease_write_def)

lemma lease_write_entry:
  "weight_file_ip name = Some ip \<Longrightarrow> lease_write wd (WriteFile (entry_path wd name) (lease_weight live ip))"
  by (auto simp: lease_write_def lease_weight_def)

lemma compute_entry_writes: "emits (lease_write wd) (compute_entry wd live name)"
  by (auto simp: compute_entry_def lease_write_entry split: option.splits)

lemma leases_read_lease_write: "emits (lease_write wd) (leases_read_all cache)"
  by (rule emits_mono [OF leases_reads lease_write_reads])

lemma compute_writes: "emits (lease_write wd) (compute_from_leases wd net)"
  unfolding compute_from_leases_def Let_def
  by (auto intro!: emits_bindI emits_attemptI emits_for_dir emits_filter_io
      leases_read_lease_write compute_entry_writes split: prod.splits)

text \<open>When the loop over the directory ends well, every weight file has been written.\<close>

lemma write_entry_runs: "runs (write_entry wd n v) t x \<Longrightarrow> \<exists>r. t = [(WriteFile (entry_path wd n) v, r)]"
  by (auto simp: write_entry_def runs_ctx runs_call)

lemma compute_entries_all:
  assumes "runs (for_dir (\<lambda>name _. compute_entry wd live name) es u) t (Inr u')"
    and "Inr name \<in> set es" "weight_file_ip name = Some ip"
  shows "\<exists>r. (WriteFile (entry_path wd name) (lease_weight live ip), r) \<in> set t"
  using assms
proof (induction es arbitrary: t u)
  case (Cons e es)
  obtain t1 t2 u1 where t: "t = t1 @ t2"
    and h: "runs (attempt (next_entry e) (\<lambda>n. compute_entry wd live n)) t1 (Inr u1)"
    and r: "runs (for_dir (\<lambda>name _. compute_entry wd live name) es u1) t2 (Inr u')"
    using Cons.prems(1) unfolding for_dir_def for_try.simps by (auto elim: runs_attemptE)
  show ?case
  proof (cases "e = Inr name")
    case True
    then have "runs (compute_entry wd live name) t1 (Inr u1)"
      using h by (auto simp: next_entry_def runs_attempt_iff)
    then show ?thesis using Cons.prems(3) t by (auto simp: compute_entry_def dest!: write_entry_runs)
  next
    case False
    then show ?thesis using Cons.IH [OF r] Cons.prems(2,3) t by auto
  qed
qed simp

text \<open>
  The backup writes a file only with the master's value, and only when the file differs from it.
\<close>

lemma sync_entry_runs:
  assumes "runs (sync_entry wd name) t x" "(WriteFile p v, rp) \<in> set t"
  shows "\<exists>ip_str val disk. weight_file_name name = Some ip_str \<and> p = entry_path wd name \<and> v = trim val \<and>
    (Redis (GET (weight_key ip_str)), Bulk (Some val)) \<in> set t \<and>
    (ReadFile p, disk) \<in> set t \<and> (\<forall>s. disk = Text s \<longrightarrow> trim s \<noteq> trim val)"
proof -
  obtain ip_str where n: "weight_file_name name = Some ip_str"
    using assms by (auto simp: sync_entry_def split: option.splits)
  from assms(1) n obtain t1 t2 y where t': "t = t1 @ t2"
    and c: "runs (call (Redis (GET (weight_key ip_str))) as_bulk) t1 y"
    and r2': "runs (case y of
            Inr (Some redis_val) \<Rightarrow>
              bind (call (ReadFile (entry_path wd name)) (as_text LibFault)) (\<lambda>d.
              let disk = (case d of Inl e \<Rightarrow> [] | Inr s \<Rightarrow> s) in
              if trim disk \<noteq> trim redis_val then write_entry wd name (trim redis_val)
              else Ret (Inr ()))
          | _ \<Rightarrow> Ret (Inr ())) t2 x"
    unfolding sync_entry_def by (simp only: option.case) (rule runs_bindE)
  from c obtain r where y: "y = as_bulk r" and t: "t = (Redis (GET (weight_key ip_str)), r) # t2"
    using t' by (auto simp: runs_call)
  note r2 = r2' [unfolded y]
  obtain val where b: "as_bulk r = Inr (Some val)"
    using r2 assms(2) t by (auto split: sum.splits option.splits)
  then have r: "r = Bulk (Some val)" by (simp add: decode_Inr)
  from r2 b obtain t2' t3 z where t2': "t2 = t2' @ t3"
    and c2: "runs (call (ReadFile (entry_path wd name)) (as_text LibFault)) t2' z"
    and r3': "runs (let disk = (case z of Inl e \<Rightarrow> [] | Inr s \<Rightarrow> s) in
              if trim disk \<noteq> trim val then write_entry wd name (trim val) else Ret (Inr ())) t3 x"
    by (simp only: sum.case option.case) (rule runs_bindE)
  from c2 obtain d where z: "z = as_text LibFault d" and t2: "t2 = (ReadFile (entry_path wd name), d) # t3"
    using t2' by (auto simp: runs_call)
  note r3 = r3' [unfolded z]
  have m: "(WriteFile p v, rp) \<in> set t3" using assms(2) t t2 by auto
  then have ne: "trim (case as_text LibFault d of Inl e \<Rightarrow> [] | Inr s \<Rightarrow> s) \<noteq> trim val"
    using r3 by (auto simp: Let_def split: if_splits)
  then have "runs (write_entry wd name (trim val)) t3 x" using r3 by (simp add: Let_def)
  from write_entry_runs [OF this] m have "p = entry_path wd name" "v = trim val" by auto
  moreover have "\<forall>s. d = Text s \<longrightarrow> trim s \<noteq> trim val" using ne by (auto simp: as_text_def)
  ultimately show ?thesis using n t t2 r by auto
qed

text \<open>What the master stores for a file is what the backup writes from it.\<close>

lemma persist_entry_sets:
  assumes "runs (persist_entry wd name) t x" "(Redis (SET k v), rp) \<in> set t"
  shows "\<exists>ip_str s. weight_file_name name = Some ip_str \<and> k = weight_key ip_str \<and>
    (ReadFile (entry_path wd name), Text s) \<in> set t \<and> v = trim s"
proof -
  obtain ip_str where n: "weight_file_name name = Some ip_str"
    using assms by (auto simp: persist_entry_def split: option.splits)
  from assms(1) n obtain t1 t2 y where t': "t = t1 @ t2"
    and c: "runs (call (ReadFile (entry_path wd name)) (as_text LibFault)) t1 y"
    and r2': "runs (case y of Inl e \<Rightarrow> Ret (Inr ())
          | Inr content \<Rightarrow> ctx (''Redis SET '' @ weight_key ip_str @ '' failed'')
                (redis_unit (SET (weight_key ip_str) (trim content)))) t2 x"
    unfolding persist_entry_def by (simp only: option.case) (rule runs_bindE)
  from c obtain r where y: "y = as_text LibFault r" and t: "t = (ReadFile (entry_path wd name), r) # t2"
    using t' by (auto simp: runs_call)
  note r2 = r2' [unfolded y]
  obtain s where s: "as_text LibFault r = Inr s"
    using r2 assms(2) t by (cases "as_text LibFault r") auto
  then have "r = Text s" by (simp add: decode_Inr)
  then show ?thesis
    using r2 s assms(2) n t by (auto simp: runs_ctx redis_unit_def runs_call)
qed

lemma weight_key_inj: "weight_key a = weight_key b \<longleftrightarrow> a = b"
  by (simp add: weight_key_def)

text \<open>The same for a whole pass of the backup over the directory.\<close>

lemma sync_runs:
  assumes "runs (sync_from_redis wd) t x" "(WriteFile p v, rp) \<in> set t"
  shows "\<exists>name ip_str val disk. weight_file_name name = Some ip_str \<and> p = entry_path wd name \<and>
    v = trim val \<and> (Redis (GET (weight_key ip_str)), Bulk (Some val)) \<in> set t \<and>
    (ReadFile p, disk) \<in> set t \<and> (\<forall>s. disk = Text s \<longrightarrow> trim s \<noteq> trim val)"
  using assms(1) unfolding sync_from_redis_def
proof (cases rule: runs_attemptE)
  case (err e)
  then show ?thesis
    using assms(2) by (auto simp: read_weights_dir_def runs_ctx runs_call)
next
  case (ok t1 t2 dir)
  have "(WriteFile p v, rp) \<in> set t2"
    using assms(2) ok(1,2) by (auto simp: read_weights_dir_def runs_ctx runs_call)
  from for_dir_runs_in [OF ok(3) this] obtain n t' z
    where n: "runs (sync_entry wd n) t' z" "(WriteFile p v, rp) \<in> set t'" "set t' \<subseteq> set t2" by blast
  obtain ip_str val disk where "weight_file_name n = Some ip_str" "p = entry_path wd n" "v = trim val"
    "(Redis (GET (weight_key ip_str)), Bulk (Some val)) \<in> set t'" "(ReadFile p, disk) \<in> set t'"
    "\<forall>s. disk = Text s \<longrightarrow> trim s \<noteq> trim val"
    using sync_entry_runs [OF n(1,2)] by auto
  moreover have "set t' \<subseteq> set t" using n(3) ok(1) by auto
  ultimately show ?thesis by blast
qed

text \<open>A master's pass stores nothing but the contents of weight files and, last, the time stamp.\<close>

lemma persist_runs:
  assumes "runs (persist wd) t x" "(Redis (SET k v), rp) \<in> set t"
  shows "(\<exists>name ip_str s. weight_file_name name = Some ip_str \<and> k = weight_key ip_str \<and>
      (ReadFile (entry_path wd name), Text s) \<in> set t \<and> v = trim s) \<or>
    (k = KEY_BACKEND_WEIGHTS_TS \<and> (\<exists>now. (NowMs, now) \<in> set t \<and> v = show_word (as_millis now)))"
  using assms(1) unfolding persist_def
proof (cases rule: runs_attemptE)
  case (err e)
  then show ?thesis using assms(2) by (auto simp: read_weights_dir_def runs_ctx runs_call)
next
  case (ok t1 t2 dir)
  have m: "(Redis (SET k v), rp) \<in> set t2"
    using assms(2) ok(1,2) by (auto simp: read_weights_dir_def runs_ctx runs_call)
  have entry: ?thesis
    if r: "runs (for_dir (\<lambda>name _. persist_entry wd name) dir ()) t' z" "(Redis (SET k v), rp) \<in> set t'"
      "set t' \<subseteq> set t" for t' z
  proof -
    obtain n t0 y where "runs (persist_entry wd n) t0 y" "(Redis (SET k v), rp) \<in> set t0" "set t0 \<subseteq> set t'"
      using for_dir_runs_in [OF r(1,2)] by blast
    from persist_entry_sets [OF this(1,2)] this(3) r(3) show ?thesis by blast
  qed
  from ok(3) show ?thesis
  proof (cases rule: runs_attemptE)
    case (err e)
    then show ?thesis using entry m ok(1) by auto
  next
    case (ok t3 t4 u)
    then obtain now w where t4: "t4 = [(NowMs, now), (Redis (SET KEY_BACKEND_WEIGHTS_TS (show_word (as_millis now))), w)]"
      by (auto simp: now_ms_def runs_Op_iff runs_ctx redis_unit_def runs_call)
    show ?thesis
    proof (cases "(Redis (SET k v), rp) \<in> set t3")
      case True
      then show ?thesis using entry [OF ok(2)] ok(1) \<open>t = t1 @ t2\<close> by auto
    next
      case False
      then have "k = KEY_BACKEND_WEIGHTS_TS" "v = show_word (as_millis now)"
        using m ok(1) t4 by auto
      then show ?thesis using t4 ok(1) \<open>t = t1 @ t2\<close> by auto
    qed
  qed
qed

text \<open>The file that the cleanup writes for an address is the one that these passes read for it.\<close>

lemma weight_file_name_of: "weight_file_name (''backend-'' @ x @ ''.weight'') = Some x"
proof -
  have "strip_prefix ''backend-'' (''backend-'' @ x @ ''.weight'') = Some (x @ ''.weight'')"
    by (rule strip_prefix_append)
  moreover have "strip_suffix ''.weight'' (x @ ''.weight'') = Some x"
    by (rule strip_suffix_append)
  ultimately show ?thesis by (simp add: weight_file_name_def del: strip_prefix.simps)
qed

lemma weight_file_ip_alt: "weight_file_ip name = Option.bind (weight_file_name name) parse_ip"
  by (simp add: weight_file_ip_def weight_file_name_def)

lemma weight_file_ip_of: "weight_file_ip (''backend-'' @ show_ip ip @ ''.weight'') = Some ip"
  unfolding weight_file_ip_alt weight_file_name_of by (simp add: parse_show_ip)

lemma weight_path_entry: "weight_path wd ip = entry_path wd (''backend-'' @ show_ip ip @ ''.weight'')"
  by (simp add: weight_path_def entry_path_def)

lemma leases_no_dir: "emits (\<lambda>c. c \<noteq> ReadDir wd) (leases_read_all cache)"
  unfolding leases_read_all_def read_lease_def Let_def
  by (auto intro!: emits_bindI emits_for_each split: sum.splits prod.splits)

lemma compute_no_dir:
  "emits (\<lambda>c. c \<noteq> ReadDir wd) (for_dir (\<lambda>name _. compute_entry wd' live name) es u)"
  by (auto intro!: emits_for_dir simp: compute_entry_def split: option.splits)

text \<open>
  At start, every weight file in the directory is written: active exactly for the address of a slot
  that Redis lists with a lease that had not run out when the clock was read.  When the list cannot
  be read, every file says disabled.
\<close>

definition listed_leases :: "reply \<Rightarrow> (string \<times> nat) list" where
  "listed_leases r = (case r of Scored raw \<Rightarrow> raw | _ \<Rightarrow> [])"

definition live_for :: "slot_network \<Rightarrow> ipv4 \<Rightarrow> (cmd \<times> reply) list \<Rightarrow> string \<times> nat \<Rightarrow> bool" where
  "live_for net ip t x \<longleftrightarrow> ip_for_slot net (member_slot (fst x)) = ip \<and>
     (\<exists>clk. (NowMs, clk) \<in> set t \<and> as_millis clk < score_u64 (snd x))"

definition over_for :: "slot_network \<Rightarrow> ipv4 \<Rightarrow> (cmd \<times> reply) list \<Rightarrow> string \<times> nat \<Rightarrow> bool" where
  "over_for net ip t x \<longleftrightarrow> ip_for_slot net (member_slot (fst x)) \<noteq> ip \<or>
     (\<exists>clk. (NowMs, clk) \<in> set t \<and> score_u64 (snd x) \<le> as_millis clk)"

lemma is_expired_runs: "runs (bind (is_expired l) (\<lambda>ex. Ret (\<not> ex))) t b \<Longrightarrow>
   \<exists>clk. (NowMs, clk) \<in> set t \<and> b = (as_millis clk < sl_expires_ms l)"
  by (auto simp: is_expired_def now_ms_def runs_Op_iff not_le elim!: runs_bindE)

lemma live_ips_listed:
  fixes net :: slot_network
  assumes "runs (leases_read_all cache) t1 (x, c)" "set t1 \<subseteq> set t"
    and "runs (filter_io (\<lambda>l. bind (is_expired l) (\<lambda>ex. Ret (\<not> ex)))
      (case x of Inl e \<Rightarrow> [] | Inr ls \<Rightarrow> ls)) t2 live" "set t2 \<subseteq> set t"
  shows "\<exists>r. (Redis (ZRANGE KEY_LEASES), r) \<in> set t \<and>
    (if ip \<in> set (map (\<lambda>l. ip_for_slot net (sl_slot l)) live)
     then \<exists>y \<in> set (listed_leases r). live_for net ip t y else \<forall>y \<in> set (listed_leases r). over_for net ip t y)"
proof -
  obtain r where r: "(Redis (ZRANGE KEY_LEASES), r) \<in> set t1"
    and x: "case x of Inl e \<Rightarrow> \<forall>raw. r \<noteq> Scored raw
     | Inr ls \<Rightarrow> \<exists>raw. r = Scored raw \<and>
         (\<lambda>l. (sl_slot l, sl_expires_ms l)) ` set ls = (\<lambda>(m, e). (member_slot m, score_u64 e)) ` set raw"
    using leases_read_members [OF assms(1)] by blast
  let ?ls = "case x of Inl e \<Rightarrow> [] | Inr ls \<Rightarrow> ls"
  have img: "(\<lambda>l. (sl_slot l, sl_expires_ms l)) ` set ?ls =
      (\<lambda>(m, e). (member_slot m, score_u64 e)) ` set (listed_leases r)"
    using x by (cases x; cases r) (auto simp: listed_leases_def)
  have "\<exists>y \<in> set (listed_leases r). live_for net ip t y" if ip: "ip = ip_for_slot net (sl_slot l)" "l \<in> set live" for l
  proof -
    from filter_io_runs_in [OF assms(3) ip(2)] obtain t' where l: "l \<in> set ?ls"
      and "runs (bind (is_expired l) (\<lambda>ex. Ret (\<not> ex))) t' True" "set t' \<subseteq> set t2" by blast
    from is_expired_runs [OF this(2)] this(3)
    obtain clk where "(NowMs, clk) \<in> set t2" "as_millis clk < sl_expires_ms l" by auto
    moreover have "(sl_slot l, sl_expires_ms l) \<in> (\<lambda>(m, e). (member_slot m, score_u64 e)) ` set (listed_leases r)"
      using l unfolding img [symmetric] by (rule imageI)
    ultimately show ?thesis using ip(1) assms(4) by (force simp: live_for_def split_beta)
  qed
  moreover have "over_for net ip t y"
    if y: "y \<in> set (listed_leases r)" and ip: "ip \<notin> set (map (\<lambda>l. ip_for_slot net (sl_slot l)) live)" for y
  proof -
    have "(member_slot (fst y), score_u64 (snd y)) \<in> (\<lambda>l. (sl_slot l, sl_expires_ms l)) ` set ?ls"
      unfolding img using y by (force simp: split_beta)
    then obtain l where l: "l \<in> set ?ls" "sl_slot l = member_slot (fst y)" "sl_expires_ms l = score_u64 (snd y)"
      by auto
    obtain t' b where "runs (bind (is_expired l) (\<lambda>ex. Ret (\<not> ex))) t' b" "set t' \<subseteq> set t2" "b \<longrightarrow> l \<in> set live"
      using filter_io_decides [OF assms(3) l(1)] by blast
    moreover from is_expired_runs [OF this(1)] obtain clk where
      "(NowMs, clk) \<in> set t'" "b = (as_millis clk < sl_expires_ms l)" by blast
    ultimately show ?thesis using ip l(2,3) assms(4) by (force simp: over_for_def not_less)
  qed
  ultimately show ?thesis using r assms(2) by (auto split: if_split)
qed

lemma compute_from_leases_all:
  assumes "runs (compute_from_leases wd net) t (Inr ())" "(ReadDir wd, Entries es) \<in> set t"
    and "Inr name \<in> set es" "weight_file_ip name = Some ip"
  shows "\<exists>leases v w. (Redis (ZRANGE KEY_LEASES), leases) \<in> set t \<and> (WriteFile (entry_path wd name) v, w) \<in> set t \<and>
    (v = WEIGHT_ACTIVE \<and> (\<exists>x \<in> set (listed_leases leases). live_for net ip t x) \<or>
     v = WEIGHT_DISABLED \<and> (\<forall>x \<in> set (listed_leases leases). over_for net ip t x))"
proof -
  let ?test = "\<lambda>l. bind (is_expired l) (\<lambda>ex. Ret (\<not> ex))"
  obtain x c t1 t3 t4 live where t: "t = t1 @ t3 @ t4"
    and r1: "runs (leases_read_all (\<lambda>_. None)) t1 (x, c)"
    and f: "runs (filter_io ?test (case x of Inl e \<Rightarrow> [] | Inr ls \<Rightarrow> ls)) t3 live"
    and r4: "runs (attempt (call (ReadDir wd) as_entries) (\<lambda>dir.
     for_dir (\<lambda>name _. compute_entry wd (map (\<lambda>l. ip_for_slot net (sl_slot l)) live) name) dir ())) t4 (Inr ())"
    using assms(1) unfolding compute_from_leases_def Let_def by (auto elim!: runs_bindE)
  obtain dir t5 where t4: "t4 = (ReadDir wd, Entries dir) # t5"
    and d: "runs (for_dir (\<lambda>name _. compute_entry wd (map (\<lambda>l. ip_for_slot net (sl_slot l)) live) name) dir ())
      t5 (Inr ())"
    using r4
    by (auto simp: runs_call decode_Inr eq_commute [of "Inr d" "as_entries r" for d r] elim!: runs_attemptE)
  have "emits (\<lambda>c. c \<noteq> ReadDir wd) (filter_io ?test (case x of Inl e \<Rightarrow> [] | Inr ls \<Rightarrow> ls))"
    by (intro emits_filter_io emits_bindI) simp_all
  then have "(ReadDir wd, Entries es) \<notin> set t3" using emits_runs [OF f] by fastforce
  moreover have "(ReadDir wd, Entries es) \<notin> set t1" using emits_runs [OF r1 leases_no_dir] by blast
  moreover have "(ReadDir wd, Entries es) \<notin> set t5" using emits_runs [OF d compute_no_dir] by blast
  ultimately have "es = dir" using assms(2) t t4 by auto
  from compute_entries_all [OF d assms(3) [unfolded this] assms(4)]
  obtain w where w: "(WriteFile (entry_path wd name)
      (lease_weight (map (\<lambda>l. ip_for_slot net (sl_slot l)) live) ip), w) \<in> set t"
    unfolding t t4 by auto
  obtain r where "(Redis (ZRANGE KEY_LEASES), r) \<in> set t"
    "if ip \<in> set (map (\<lambda>l. ip_for_slot net (sl_slot l)) live)
     then \<exists>y \<in> set (listed_leases r). live_for net ip t y else \<forall>y \<in> set (listed_leases r). over_for net ip t y"
    using live_ips_listed [OF r1 _ f, where t = t and net = net and ip = ip] t by auto
  then show ?thesis
    using w unfolding lease_weight_def
    by (cases "ip \<in> set (map (\<lambda>l. ip_for_slot net (sl_slot l)) live)")
      (simp_all only: if_True if_False, blast+)
qed

end
