(* ===== verification/Listener.thy ===== *)
theory Listener
  imports Cleanup Slot_Cli
begin

text \<open>
  \<open>aeroscale/src/listener.rs\<close>: the subscriber of the \<open>asg-change\<close> channel.  A message is the JSON value
  of its text; a payload that cannot be read or is not JSON is an error value.  The stream of one
  connection is the list of its messages, and the reconnecting loop takes a bound on the
  connections.
\<close>

section \<open>Messages\<close>

record asg_change_msg =
  m_slot :: u32
  m_action :: string
  m_instance_id :: "string option"

definition fields :: "string \<Rightarrow> (string \<times> json) list \<Rightarrow> json list" where
  "fields k kvs = map snd (filter (\<lambda>x. fst x = k) kvs)"

fun json_u32 :: "json \<Rightarrow> u32 option" where
  "json_u32 (JNum n) = (if n < 2 ^ 32 then Some (word_of_nat n) else None)"
| "json_u32 _ = None"

fun json_string :: "json \<Rightarrow> string option" where
  "json_string (JStr s) = Some s"
| "json_string _ = None"

fun json_opt_string :: "json \<Rightarrow> string option option" where
  "json_opt_string JNull = Some None"
| "json_opt_string (JStr s) = Some (Some s)"
| "json_opt_string _ = None"

text \<open>
  The derived deserialiser: \<open>slot\<close> and \<open>action\<close> are required, \<open>instance_id\<close> may be missing or null,
  a repeated field is an error, and unknown fields are ignored.
\<close>

fun msg_from_json :: "json \<Rightarrow> asg_change_msg option" where
  "msg_from_json (JObj kvs) =
     (case (fields ''slot'' kvs, fields ''action'' kvs) of
        ([s], [a]) \<Rightarrow>
          (case (json_u32 s, json_string a, fields ''instance_id'' kvs) of
             (Some slot, Some action, []) \<Rightarrow>
               Some \<lparr>m_slot = slot, m_action = action, m_instance_id = None\<rparr>
           | (Some slot, Some action, [i]) \<Rightarrow>
               map_option (\<lambda>v. \<lparr>m_slot = slot, m_action = action, m_instance_id = v\<rparr>) (json_opt_string i)
           | _ \<Rightarrow> None)
      | _ \<Rightarrow> None)"
| "msg_from_json _ = None"

section \<open>Handling\<close>

definition handle_message :: "cleanup_env \<Rightarrow> slot_network \<Rightarrow> asg_change_msg \<Rightarrow> unit io" where
  "handle_message env net msg =
     (let ip = ip_for_slot net (m_slot msg); wd = ce_weights_dir env; dry = ce_dry_run env in
      bind
        (if m_action msg = ''claim'' then
           bind (write_weight wd ip WEIGHT_ACTIVE dry) (\<lambda>_. Ret ())
         else if m_action msg = ''release'' then
           bind (write_weight wd ip WEIGHT_DISABLED dry) (\<lambda>_.
           case m_instance_id msg of
             Some i \<Rightarrow> bind (terminate_instance i (ce_region env) dry (ce_decrement env)) (\<lambda>_. Ret ())
           | None \<Rightarrow> Ret ())
         else Ret ())
        (\<lambda>_. Op Notify (\<lambda>_. Ret ())))"

type_synonym payload = "err + json option"

definition on_message :: "cleanup_env \<Rightarrow> slot_network \<Rightarrow> payload \<Rightarrow> unit io" where
  "on_message env net p =
     (case p of
        Inl e \<Rightarrow> Ret ()
      | Inr None \<Rightarrow> Ret ()
      | Inr (Some j) \<Rightarrow>
          (case msg_from_json j of None \<Rightarrow> Ret () | Some m \<Rightarrow> handle_message env net m))"

definition subscribe_once :: "cleanup_env \<Rightarrow> slot_network \<Rightarrow> payload list \<Rightarrow> unit rio" where
  "subscribe_once env net stream =
     attempt (ctx ''Failed to open Redis pub/sub connection'' (call RedisConnect (as_unit RedisFault))) (\<lambda>_.
     attempt (ctx (''Failed to subscribe to '' @ single_quoted ASG_CHANGE_CHANNEL)
       (call (Subscribe ASG_CHANGE_CHANNEL) (as_unit RedisFault))) (\<lambda>_.
     bind (for_each (\<lambda>p _. on_message env net p) stream ()) (\<lambda>_. Ret (Inr ()))))"

fun listener_run :: "cleanup_env \<Rightarrow> slot_network \<Rightarrow> payload list list \<Rightarrow> unit io" where
  "listener_run env net [] = Ret ()"
| "listener_run env net (stream # streams) =
     bind (subscribe_once env net stream) (\<lambda>_.
     bind (Op (Sleep 5000) Ret) (\<lambda>_. listener_run env net streams))"

section \<open>What a message causes\<close>

text \<open>The payload that a release publishes is read back as that release.\<close>

lemma fields_simps [simp]:
  "fields k [] = []" "fields k ((k', v) # kvs) = (if k' = k then [v] else []) @ fields k kvs"
  by (simp_all add: fields_def)

lemma parse_u64_show_u32: "parse_u64 (show_word (s :: u32)) = Some (ucast s)"
proof -
  have "unat s < 2 ^ 64" using unat_lt_pow [of s] by simp
  then show ?thesis
    using parse_radix_show_nat [of "unat s" "2 ^ 64"]
    by (simp add: parse_u64_def show_word_def)
qed

lemma unat_ucast_u64: "unat (ucast (s :: u32) :: u64) = unat s"
proof -
  have "unat s < 2 ^ 64" using unat_lt_pow [of s] by simp
  moreover have "(ucast s :: u64) = of_nat (unat s)" by simp
  moreover have "unat (of_nat n :: u64) = n" if "n < 2 ^ 64" for n
    using that by (simp add: unsigned_of_nat take_bit_nat_eq_self_iff)
  ultimately show ?thesis by metis
qed

lemma msg_round_trip:
  "msg_from_json (asg_change (show_word (s :: u32)) action i) =
     Some \<lparr>m_slot = s, m_action = action, m_instance_id = i\<rparr>"
  using unat_lt_pow [of s]
  by (cases i) (simp_all add: asg_change_def parse_u64_show_u32 unat_ucast_u64 Let_def)

text \<open>A release disables the weight file of the slot's address, and only then ends the instance.\<close>

lemma handle_release:
  assumes "runs (handle_message env net m) t u" "m_action m = ''release''" "m_instance_id m = Some i"
    and "\<not> ce_dry_run env"
  shows "\<exists>r1 t2 r3. t = (WriteFile (weight_path (ce_weights_dir env) (ip_for_slot net (m_slot m))) WEIGHT_DISABLED, r1)
      # t2 @ [(Notify, r3)] \<and>
    (\<exists>r2. t2 = [(AwsQuery (asg_host (ce_region env)) ''autoscaling'' (ce_region env)
      (terminate_params i (ce_decrement env)), r2)])"
proof -
  have "runs (asg_terminate_instance rg i d) t' x \<Longrightarrow>
      \<exists>r. t' = [(AwsQuery (asg_host rg) ''autoscaling'' rg (terminate_params i d), r)]" for rg d t' x
    unfolding asg_terminate_instance_def aws_call_def runs_attempt_iff runs_call by auto
  then show ?thesis
    using assms
    by (fastforce simp: handle_message_def Let_def write_weight_def terminate_instance_def runs_ctx
        runs_call runs_Op_iff elim!: runs_bindE)
qed

definition message_command :: "cleanup_env \<Rightarrow> slot_network \<Rightarrow> asg_change_msg \<Rightarrow> cmd \<Rightarrow> bool" where
  "message_command env net m c \<longleftrightarrow> c = Notify \<or> \<not> ce_dry_run env \<and>
     (m_action m = ''claim'' \<and>
        c = WriteFile (weight_path (ce_weights_dir env) (ip_for_slot net (m_slot m))) WEIGHT_ACTIVE \<or>
      m_action m = ''release'' \<and>
        c = WriteFile (weight_path (ce_weights_dir env) (ip_for_slot net (m_slot m))) WEIGHT_DISABLED \<or>
      m_action m = ''release'' \<and> (\<exists>i. m_instance_id m = Some i \<and>
        c = AwsQuery (asg_host (ce_region env)) ''autoscaling'' (ce_region env)
          (terminate_params i (ce_decrement env))))"

lemma handle_message_commands: "emits (message_command env net m) (handle_message env net m)"
  by (auto simp: handle_message_def Let_def message_command_def intro!: emits_bindI split: option.splits)

text \<open>Every message that is understood wakes the main loop, whatever the outcome of its actions.\<close>

lemma handle_message_notifies: 
  "runs (handle_message env net m) t u \<Longrightarrow> \<exists>t1 r. t = t1 @ [(Notify, r)]"
  by (auto simp: handle_message_def Let_def runs_Op_iff elim!: runs_bindE)

end
