(* ===== verification/Metrics.thy ===== *)
theory Metrics
  imports Cleanup
begin

text \<open>
  \<open>aeroscale/src/metrics/\<close>: the metrics store, its update from the snapshot, the scrape of the
  backends, the text exposition, and the CloudWatch push.  Sample values are real numbers; their
  decimal renderings by the standard library (\<open>{}\<close> and \<open>{:.4}\<close> of an \<open>f64\<close>), the parser of the
  Prometheus text format and the time stamp are parameters.  The warnings of the cross-check are
  modelled by the condition under which they are given.
\<close>

section \<open>Types\<close>

datatype sample_kind = Counter | Gauge | Untyped

fun kind_str :: "sample_kind \<Rightarrow> string" where
  "kind_str Counter = ''counter''"
| "kind_str Gauge = ''gauge''"
| "kind_str Untyped = ''untyped''"

record raw_sample =
  rs_metric :: string
  rs_value :: real
  rs_kind :: sample_kind
  rs_labels :: "(string \<times> string) list"

record backend_metrics =
  bm_slot :: u32
  bm_ip :: ipv4
  bm_samples :: "raw_sample list"
  bm_docs :: "string \<Rightarrow> string option"
  bm_error :: "err option"

record metrics_state =
  ms_backends :: "backend_metrics list"
  ms_rx_bps_raw :: u64
  ms_rx_bps_smoothed :: u64

definition metrics_default :: metrics_state where
  "metrics_default = \<lparr>ms_backends = [], ms_rx_bps_raw = 0, ms_rx_bps_smoothed = 0\<rparr>"

section \<open>Updates without scraping\<close>

definition gauge :: "string \<Rightarrow> u32 \<Rightarrow> raw_sample" where
  "gauge name v = \<lparr>rs_metric = name, rs_value = real (unat v), rs_kind = Gauge, rs_labels = []\<rparr>"

definition ipvs_metrics :: "backend_status \<Rightarrow> backend_metrics option" where
  "ipvs_metrics b =
     (case bs_slot b of
        None \<Rightarrow> None
      | Some slot \<Rightarrow>
          let (active, inactive) = (case bs_ipvs b of None \<Rightarrow> (0, 0) | Some i \<Rightarrow> (iv_active i, iv_inactive i))
          in Some \<lparr>bm_slot = slot, bm_ip = bs_ip b,
                   bm_samples = [gauge ''ipvs_active_connections'' active,
                                 gauge ''ipvs_inactive_connections'' inactive],
                   bm_docs = [''ipvs_active_connections'' \<mapsto>
                       ''Number of active IPVS connections to this backend (from /proc/net/ip_vs).'',
                     ''ipvs_inactive_connections'' \<mapsto>
                       ''Number of inactive IPVS connections to this backend (from /proc/net/ip_vs).''],
                   bm_error = None\<rparr>)"

definition update_from_ipvs :: "snapshot \<Rightarrow> metrics_state \<Rightarrow> metrics_state" where
  "update_from_ipvs s st = st\<lparr>ms_backends := sort_key bm_slot (List.map_filter ipvs_metrics (backends s))\<rparr>"

definition update_scaler_bandwidth :: "u64 \<Rightarrow> u64 \<Rightarrow> metrics_state \<Rightarrow> metrics_state" where
  "update_scaler_bandwidth raw_bps smoothed_bps st =
     st\<lparr>ms_rx_bps_raw := raw_bps, ms_rx_bps_smoothed := smoothed_bps\<rparr>"

section \<open>Scraping\<close>

datatype prom_value = PCounter real | PGauge real | PUntyped real | PHistogram | PSummary

type_synonym prom_parser =
  "string list \<Rightarrow> err + (string \<times> prom_value \<times> (string \<times> string) list) list \<times> (string \<Rightarrow> string option)"

fun to_sample :: "string \<times> prom_value \<times> (string \<times> string) list \<Rightarrow> raw_sample option" where
  "to_sample (m, PCounter v, ls) = Some \<lparr>rs_metric = m, rs_value = v, rs_kind = Counter, rs_labels = ls\<rparr>"
| "to_sample (m, PGauge v, ls) = Some \<lparr>rs_metric = m, rs_value = v, rs_kind = Gauge, rs_labels = ls\<rparr>"
| "to_sample (m, PUntyped v, ls) = Some \<lparr>rs_metric = m, rs_value = v, rs_kind = Untyped, rs_labels = ls\<rparr>"
| "to_sample (m, PHistogram, ls) = None"
| "to_sample (m, PSummary, ls) = None"

definition parse_text :: "prom_parser \<Rightarrow> string \<Rightarrow> (raw_sample list \<times> (string \<Rightarrow> string option)) result" where
  "parse_text prom body =
     (case prom (lines body) of
        Inl e \<Rightarrow> Inl (Context ''Failed to parse Prometheus text'' e)
      | Inr (samples, docs) \<Rightarrow> Inr (List.map_filter to_sample samples, docs))"

definition scrape_one ::
    "prom_parser \<Rightarrow> ipv4 \<Rightarrow> u16 \<Rightarrow> (raw_sample list \<times> (string \<Rightarrow> string option)) rio" where
  "scrape_one prom ip port =
     (let url = ''http://'' @ show_ip ip @ '':'' @ show_word port @ ''/metrics'' in
      attempt (ctx (''GET '' @ url @ '' failed'') (call (HttpGet url) as_http)) (\<lambda>(status, body).
      if 400 \<le> status then
        Ret (Inl (Context (''GET '' @ url @ '' returned error status'') (LibFault (OtherFault ''status''))))
      else Ret (parse_text prom body)))"

text \<open>The cross-check of scraped sessions against IPVS: whether a warning is given.\<close>

definition ftp_sessions :: "raw_sample list \<Rightarrow> u32" where
  "ftp_sessions samples =
     (case List.find (\<lambda>s. rs_metric s = ''ftp_sessions_total'' \<and> rs_labels s = []) samples of
        None \<Rightarrow> 0 | Some s \<Rightarrow> word_of_nat (min (nat \<lfloor>rs_value s\<rfloor>) (2 ^ 32 - 1)))"

definition mismatch :: "real \<Rightarrow> u32 \<Rightarrow> u32 \<Rightarrow> bool" where
  "mismatch pct sessions ipvs_active =
     (let expected_ipvs = sessions * 2;
          larger = real (unat (max expected_ipvs ipvs_active));
          diff_pct = \<bar>real (unat expected_ipvs) - real (unat ipvs_active)\<bar> / larger * 100
      in expected_ipvs \<noteq> ipvs_active \<and> larger > 0 \<and> diff_pct > pct)"

definition scrape_backend ::
    "prom_parser \<Rightarrow> u16 \<Rightarrow> backend_status \<Rightarrow> backend_metrics list \<Rightarrow> backend_metrics list io" where
  "scrape_backend prom port b results =
     (case bs_lease b of
        None \<Rightarrow> Ret results
      | Some l \<Rightarrow>
          bind (is_expired l) (\<lambda>ex.
          if ex then Ret results
          else case bs_slot b of
            None \<Rightarrow> Ret results
          | Some slot \<Rightarrow>
              bind (scrape_one prom (bs_ip b) port) (\<lambda>x.
              Ret (results @ [case x of
                Inr (samples, docs) \<Rightarrow> \<lparr>bm_slot = slot, bm_ip = bs_ip b, bm_samples = samples,
                                        bm_docs = docs, bm_error = None\<rparr>
              | Inl e \<Rightarrow> \<lparr>bm_slot = slot, bm_ip = bs_ip b, bm_samples = [],
                          bm_docs = (\<lambda>_. None), bm_error = Some e\<rparr>]))))"

section \<open>CloudWatch\<close>

text \<open>Append one \<open>MetricData.member.N\<close> block.\<close>

definition member_key :: "nat \<Rightarrow> string" where
  "member_key n = ''MetricData.member.'' @ show_nat n"

fun dimension_params :: "string \<Rightarrow> nat \<Rightarrow> (string \<times> string) list \<Rightarrow> (string \<times> string) list" where
  "dimension_params p d [] = []"
| "dimension_params p d ((name, v) # ds) =
     [(p @ ''.Dimensions.member.'' @ show_nat d @ ''.Name'', name),
      (p @ ''.Dimensions.member.'' @ show_nat d @ ''.Value'', v)] @ dimension_params p (d + 1) ds"

definition add_point ::
    "(real \<Rightarrow> string) \<Rightarrow> string \<Rightarrow> nat \<Rightarrow> string \<Rightarrow> real \<Rightarrow> string \<Rightarrow> (string \<times> string) list \<Rightarrow>
     (string \<times> string) list \<Rightarrow> (string \<times> string) list" where
  "add_point fmt4 timestamp n name v unit_name dimensions params =
     (let p = member_key n in
      params @ [(p @ ''.MetricName'', name), (p @ ''.Value'', fmt4 v), (p @ ''.Unit'', unit_name),
                (p @ ''.Timestamp'', timestamp)]
             @ dimension_params p 1 dimensions)"

definition scalar :: "raw_sample list \<Rightarrow> string \<Rightarrow> real" where
  "scalar samples metric =
     (case List.find (\<lambda>s. rs_metric s = metric \<and> rs_labels s = []) samples of
        None \<Rightarrow> 0 | Some s \<Rightarrow> rs_value s)"

definition labelled :: "raw_sample list \<Rightarrow> string \<Rightarrow> (string \<times> string) list \<Rightarrow> real" where
  "labelled samples metric want =
     (case List.find (\<lambda>s. rs_metric s = metric \<and> list_all (\<lambda>kv. kv \<in> set (rs_labels s)) want) samples of
        None \<Rightarrow> 0 | Some s \<Rightarrow> rs_value s)"

text \<open>The points of one backend, in order: name, value, unit, dimensions.\<close>

type_synonym point = "string \<times> real \<times> string \<times> (string \<times> string) list"

definition stor_status :: "raw_sample \<Rightarrow> string" where
  "stor_status s = (case List.find (\<lambda>kv. fst kv = ''status'') (rs_labels s) of
     None \<Rightarrow> ''unknown'' | Some kv \<Rightarrow> snd kv)"

definition backend_points :: "backend_metrics \<Rightarrow> point list" where
  "backend_points b =
     (let sm = bm_samples b; slot_str = show_word (bm_slot b); dim = [(''Slot'', slot_str)];
          passive = labelled sm ''ftp_command_total'' [(''command'', ''epsv'')]
                  + labelled sm ''ftp_command_total'' [(''command'', ''pasv'')];
          stor_cmds = labelled sm ''ftp_command_total'' [(''command'', ''stor'')]
      in [(''ActiveSessions'', scalar sm ''ftp_sessions_total'', ''Count'', dim),
          (''CumulativeSessions'', scalar sm ''ftp_sessions_count'', ''Count'', dim),
          (''BackendWriteBytes'', scalar sm ''ftp_backend_write_bytes'', ''Bytes'', dim),
          (''BackendWriteFiles'', scalar sm ''ftp_backend_write_files'', ''Count'', dim),
          (''ReceivedBytes'', labelled sm ''ftp_received_bytes'' [(''command'', ''stor'')], ''Bytes'', dim)]
         @ map (\<lambda>s. (''StorTransfers'', rs_value s, ''Count'', [(''Slot'', slot_str), (''Status'', stor_status s)]))
             (filter (\<lambda>s. rs_metric s = ''ftp_transferred_total'' \<and> (''command'', ''stor'') \<in> set (rs_labels s)) sm)
         @ [(''PassiveModeCommands'', passive, ''Count'', dim),
            (''StorCommands'', stor_cmds, ''Count'', dim),
            (''ResidentMemoryBytes'', scalar sm ''process_resident_memory_bytes'', ''Bytes'', dim),
            (''OpenFileDescriptors'', scalar sm ''process_open_fds'', ''Count'', dim),
            (''MaxFileDescriptors'', scalar sm ''process_max_fds'', ''Count'', dim),
            (''Threads'', scalar sm ''process_threads'', ''Count'', dim)])"

fun add_points ::
    "(real \<Rightarrow> string) \<Rightarrow> string \<Rightarrow> point list \<Rightarrow> (string \<times> string) list \<times> nat \<Rightarrow>
     (string \<times> string) list \<times> nat" where
  "add_points fmt4 ts [] (params, n) = (params, n)"
| "add_points fmt4 ts ((name, v, u, dims) # ps) (params, n) =
     add_points fmt4 ts ps (add_point fmt4 ts n name v u dims params, n + 1)"

definition push_params ::
    "(real \<Rightarrow> string) \<Rightarrow> string \<Rightarrow> string \<Rightarrow> backend_metrics list \<Rightarrow> (string \<times> string) list \<times> nat" where
  "push_params fmt4 ts namespace active =
     add_points fmt4 ts (concat (map backend_points active))
       ([(''Action'', ''PutMetricData''), (''Version'', ''2010-08-01''), (''Namespace'', namespace)], 1)"

definition push :: "(real \<Rightarrow> string) \<Rightarrow> string \<Rightarrow> string \<Rightarrow> string \<Rightarrow> backend_metrics list \<Rightarrow> unit rio" where
  "push fmt4 ts region namespace bs =
     (let active = filter (\<lambda>b. bm_error b = None) bs in
      if active = [] then Ret (Inr ())
      else
        attempt (aws_call (''monitoring.'' @ region @ ''.amazonaws.com'') ''monitoring'' region
          (fst (push_params fmt4 ts namespace active))) (\<lambda>xml.
        Ret (if contains xml ''PutMetricDataResponse'' \<or> contains xml ''<RequestId>'' then Inr ()
             else Inl (Bail (''Unexpected CloudWatch PutMetricData response:'' @ [newline] @ xml)))))"

definition scrape_and_push ::
    "prom_parser \<Rightarrow> (real \<Rightarrow> string) \<Rightarrow> string \<Rightarrow> u16 \<Rightarrow> string \<Rightarrow> string \<Rightarrow> bool \<Rightarrow> snapshot \<Rightarrow>
     metrics_state \<Rightarrow> metrics_state io" where
  "scrape_and_push prom fmt4 ts port region namespace master s st =
     bind (for_each (scrape_backend prom port) (backends s) []) (\<lambda>rs.
     let results = sort_key bm_slot rs; st' = st\<lparr>ms_backends := results\<rparr> in
     if master then bind (push fmt4 ts region namespace results) (\<lambda>_. Ret st') else Ret st')"

section \<open>Exposition\<close>

definition metric_names :: "backend_metrics list \<Rightarrow> string list" where
  "metric_names bs = sort (remdups (concat (map (\<lambda>b. map rs_metric (bm_samples b)) bs)))"

text \<open>The kind and help text come from the first sample of that name.\<close>

fun metric_meta :: "string \<Rightarrow> backend_metrics list \<Rightarrow> (sample_kind \<times> string option) option" where
  "metric_meta m [] = None"
| "metric_meta m (b # bs) =
     (case List.find (\<lambda>s. rs_metric s = m) (bm_samples b) of
        Some s \<Rightarrow> Some (rs_kind s, bm_docs b m)
      | None \<Rightarrow> metric_meta m bs)"

definition quoted :: "string \<Rightarrow> string" where
  "quoted v = CHR 0x22 # v @ [CHR 0x22]"

definition sample_line :: "(real \<Rightarrow> string) \<Rightarrow> u32 \<Rightarrow> raw_sample \<Rightarrow> string" where
  "sample_line fmt slot s =
     rs_metric s @ ''{slot='' @ quoted (show_word slot)
       @ concat (map (\<lambda>(k, v). '','' @ k @ ''='' @ quoted v) (rs_labels s)) @ ''} '' @ fmt (rs_value s)"

definition metric_samples :: "backend_metrics list \<Rightarrow> string \<Rightarrow> (u32 \<times> raw_sample) list" where
  "metric_samples bs m =
     concat (map (\<lambda>b. map (Pair (bm_slot b)) (filter (\<lambda>s. rs_metric s = m) (bm_samples b)))
       (filter (\<lambda>b. bm_error b = None) bs))"

definition metric_block :: "(real \<Rightarrow> string) \<Rightarrow> backend_metrics list \<Rightarrow> string \<Rightarrow> string list" where
  "metric_block fmt bs m =
     (case metric_meta m bs of
        None \<Rightarrow> []
      | Some (kind, help) \<Rightarrow>
          (case help of None \<Rightarrow> [] | Some h \<Rightarrow> [''# HELP '' @ m @ '' '' @ h])
          @ [''# TYPE '' @ m @ '' '' @ kind_str kind]
          @ map (\<lambda>(slot, s). sample_line fmt slot s) (metric_samples bs m))"

definition error_block :: "backend_metrics list \<Rightarrow> string list" where
  "error_block bs =
     (if \<forall>b \<in> set bs. bm_error b = None then []
      else [''# HELP aeroftp_scrape_error 1 if the last scrape of this slot failed.'',
            ''# TYPE aeroftp_scrape_error gauge'']
        @ map (\<lambda>b. ''aeroftp_scrape_error{slot='' @ quoted (show_word (bm_slot b)) @ ''} ''
            @ (if bm_error b = None then ''0'' else ''1'')) bs)"

definition bandwidth_block :: "metrics_state \<Rightarrow> string list" where
  "bandwidth_block st =
     [''# HELP aeroscale_eth0_rx_bps_raw ''
        @ ''Instantaneous eth0 RX rate (delta-bytes/delta-time per scaler cycle) in bytes/s.'',
      ''# TYPE aeroscale_eth0_rx_bps_raw gauge'',
      ''aeroscale_eth0_rx_bps_raw '' @ show_word (ms_rx_bps_raw st),
      ''# HELP aeroscale_eth0_rx_bps_smoothed ''
        @ ''EMA-smoothed eth0 RX bandwidth (alpha=0.6) in bytes/s; ''
        @ ''used for Trigger 2 (per-backend bandwidth scale-out).'',
      ''# TYPE aeroscale_eth0_rx_bps_smoothed gauge'',
      ''aeroscale_eth0_rx_bps_smoothed '' @ show_word (ms_rx_bps_smoothed st)]"

definition exposition_lines :: "(real \<Rightarrow> string) \<Rightarrow> metrics_state \<Rightarrow> string list" where
  "exposition_lines fmt st =
     concat (map (metric_block fmt (ms_backends st)) (metric_names (ms_backends st)))
       @ error_block (ms_backends st) @ bandwidth_block st"

definition exposition :: "(real \<Rightarrow> string) \<Rightarrow> metrics_state \<Rightarrow> string" where
  "exposition fmt st = concat (map (\<lambda>l. l @ [newline]) (exposition_lines fmt st))"

section \<open>Properties\<close>

lemma update_from_ipvs_sorted: "sorted (map bm_slot (ms_backends (update_from_ipvs s st)))"
  by (simp add: update_from_ipvs_def)

lemma update_from_ipvs_set:
  "set (ms_backends (update_from_ipvs s st)) = {m. \<exists>b \<in> set (backends s). ipvs_metrics b = Some m}"
  by (simp add: update_from_ipvs_def set_map_filter)

lemma metric_names_sorted: "sorted (metric_names bs) \<and> distinct (metric_names bs)"
  by (simp add: metric_names_def)

lemma metric_names_set:
  "set (metric_names bs) = {rs_metric s |b s. b \<in> set bs \<and> s \<in> set (bm_samples b)}"
  by (auto simp: metric_names_def)

lemma metric_meta_known: "m \<in> set (metric_names bs) \<Longrightarrow> metric_meta m bs \<noteq> None"
proof (induction bs)
  case (Cons b bs)
  then show ?case
    by (auto simp: metric_names_set split: option.splits dest: find_NoneD)
qed (simp add: metric_names_def)

text \<open>Every sample of a backend that scraped is exposed, under the \<open>TYPE\<close> of its name.\<close>

lemma sample_exposed:
  assumes "b \<in> set (ms_backends st)" "bm_error b = None" "s \<in> set (bm_samples b)"
  shows "sample_line fmt (bm_slot b) s \<in> set (exposition_lines fmt st)"
proof -
  let ?m = "rs_metric s" and ?bs = "ms_backends st"
  have m: "?m \<in> set (metric_names ?bs)" using assms by (auto simp: metric_names_set)
  have "(bm_slot b, s) \<in> set (metric_samples ?bs ?m)"
    using assms by (auto simp: metric_samples_def)
  then have "sample_line fmt (bm_slot b) s \<in> set (metric_block fmt ?bs ?m)"
    using metric_meta_known [OF m] by (force simp: metric_block_def split: option.splits)
  then show ?thesis using m by (auto simp: exposition_lines_def)
qed

text \<open>The data points are numbered without gaps from 1, and no parameter is given twice.\<close>

definition point_params :: "(real \<Rightarrow> string) \<Rightarrow> string \<Rightarrow> nat \<Rightarrow> point \<Rightarrow> (string \<times> string) list" where
  "point_params fmt4 ts n pt = (case pt of (name, v, u, dims) \<Rightarrow> add_point fmt4 ts n name v u dims [])"

lemma add_points_eq:
  "add_points fmt4 ts pts (params, n) =
     (params @ concat (map (\<lambda>(i, pt). point_params fmt4 ts i pt) (enumerate n pts)), n + length pts)"
  by (induction fmt4 ts pts "(params, n)" arbitrary: params n rule: add_points.induct)
    (auto simp: point_params_def add_point_def Let_def)

lemma push_params_eq:
  "push_params fmt4 ts ns active =
     ([(''Action'', ''PutMetricData''), (''Version'', ''2010-08-01''), (''Namespace'', ns)]
      @ concat (map (\<lambda>(i, pt). point_params fmt4 ts i pt) (enumerate 1 (concat (map backend_points active)))),
      1 + length (concat (map backend_points active)))"
  by (simp add: push_params_def add_points_eq)

lemma show_nat_dot:
  "show_nat a @ CHR ''.'' # x = show_nat b @ CHR ''.'' # y \<longleftrightarrow> a = b \<and> x = y"
proof
  assume e: "show_nat a @ CHR ''.'' # x = show_nat b @ CHR ''.'' # y"
  have "CHR ''.'' \<notin> set (show_nat n)" for n by (rule show_nat_no_char) simp
  then have s: "split_once (CHR ''.'') (show_nat a @ CHR ''.'' # x) = Some (show_nat a, x)"
    "split_once (CHR ''.'') (show_nat b @ CHR ''.'' # y) = Some (show_nat b, y)"
    by (simp_all add: split_once_append)
  have "Some (show_nat a, x) = Some (show_nat b, y)"
    unfolding s [symmetric] e by (rule refl)
  then have "show_nat a = show_nat b" "x = y" by simp_all
  then show "a = b \<and> x = y" using show_nat_inj by blast
qed simp

lemma dimension_keys:
  assumes "k \<in> set (map fst (dimension_params p d ds))"
  shows "\<exists>i z. d \<le> i \<and> (z = ''Name'' \<or> z = ''Value'') \<and>
    k = p @ ''.Dimensions.member.'' @ show_nat i @ CHR ''.'' # z"
  using assms
proof (induction p d ds rule: dimension_params.induct)
  case (2 p d n v ds)
  show ?case
  proof (cases "k \<in> set (map fst (dimension_params p (d + 1) ds))")
    case True
    from "2.IH" [OF this] show ?thesis by (auto intro: Suc_leD)
  next
    case False
    with "2.prems" show ?thesis by auto
  qed
qed simp

lemma dimension_keys_distinct: "distinct (map fst (dimension_params p d ds))"
proof (induction p d ds rule: dimension_params.induct)
  case (2 p d n v ds)
  have nd: "p @ ''.Dimensions.member.'' @ show_nat d @ CHR ''.'' # z \<notin>
      set (map fst (dimension_params p (d + 1) ds))" (is "?k \<notin> _") for z
  proof
    assume "?k \<in> set (map fst (dimension_params p (d + 1) ds))"
    from dimension_keys [OF this] obtain i y where "d + 1 \<le> i"
      "show_nat d @ CHR ''.'' # z = show_nat i @ CHR ''.'' # y" by auto
    then show False by (simp add: show_nat_dot)
  qed
  from nd [of "''Name''"] nd [of "''Value''"] 2 show ?case by simp
qed simp

lemma point_keys:
  assumes "k \<in> set (map fst (point_params fmt4 ts n pt))"
  shows "\<exists>z. k = ''MetricData.member.'' @ show_nat n @ CHR ''.'' # z"
  using assms dimension_keys [of k "member_key n" 1]
  by (cases pt) (fastforce simp: point_params_def add_point_def Let_def member_key_def)

lemma point_keys_distinct: "distinct (map fst (point_params fmt4 ts n pt))"
proof (cases pt)
  case (fields name v u dims)
  have nd: "member_key n @ CHR ''.'' # c # z \<notin> set (map fst (dimension_params (member_key n) 1 dims))"
    if "c \<noteq> CHR ''D''" for c z
    using dimension_keys [of _ "member_key n" 1 dims] that by force
  show ?thesis
    using dimension_keys_distinct [of "member_key n" 1 dims] nd [of "CHR ''M''" "''etricName''"]
      nd [of "CHR ''V''" "''alue''"] nd [of "CHR ''U''" "''nit''"] nd [of "CHR ''T''" "''imestamp''"]
    by (simp add: fields point_params_def add_point_def Let_def)
qed

lemma points_keys:
  assumes "k \<in> set (map fst (concat (map (\<lambda>(i, pt). point_params fmt4 ts i pt) (enumerate n pts))))"
  shows "\<exists>i z. n \<le> i \<and> k = ''MetricData.member.'' @ show_nat i @ CHR ''.'' # z"
  using assms
proof (induction pts arbitrary: n)
  case (Cons pt pts)
  show ?case
  proof (cases "k \<in> set (map fst (point_params fmt4 ts n pt))")
    case True
    then show ?thesis using point_keys by blast
  next
    case False
    then have "k \<in> set (map fst (concat (map (\<lambda>(i, pt). point_params fmt4 ts i pt) (enumerate (Suc n) pts))))"
      using Cons.prems by simp
    from Cons.IH [OF this] obtain i z
      where "Suc n \<le> i" "k = ''MetricData.member.'' @ show_nat i @ CHR ''.'' # z" by blast
    then show ?thesis by (intro exI [of _ i] exI [of _ z]) simp
  qed
qed simp

lemma points_keys_distinct:
  "distinct (map fst (concat (map (\<lambda>(i, pt). point_params fmt4 ts i pt) (enumerate n pts))))"
proof (induction pts arbitrary: n)
  case (Cons pt pts)
  have "set (map fst (point_params fmt4 ts n pt)) \<inter>
      set (map fst (concat (map (\<lambda>(i, pt). point_params fmt4 ts i pt) (enumerate (Suc n) pts)))) = {}"
  proof -
    have False if "k \<in> set (map fst (point_params fmt4 ts n pt))"
      "k \<in> set (map fst (concat (map (\<lambda>(i, pt). point_params fmt4 ts i pt) (enumerate (Suc n) pts))))" for k
      using point_keys [OF that(1)] points_keys [OF that(2)] by (auto simp: show_nat_dot)
    then show ?thesis by blast
  qed
  then show ?case using Cons point_keys_distinct by simp
qed simp

lemma push_params_keys_distinct: "distinct (map fst (fst (push_params fmt4 ts ns active)))"
proof -
  define ks where "ks = map fst (concat (map (\<lambda>(i, pt). point_params fmt4 ts i pt)
    (enumerate 1 (concat (map backend_points active)))))"
  have "\<exists>z. k = CHR ''M'' # z" if "k \<in> set ks" for k
    using points_keys [OF that [unfolded ks_def]] by auto
  then have "''Action'' \<notin> set ks" "''Version'' \<notin> set ks" "''Namespace'' \<notin> set ks" by fastforce+
  moreover have "distinct ks" unfolding ks_def by (rule points_keys_distinct)
  moreover have "map fst (fst (push_params fmt4 ts ns active)) = [''Action'', ''Version'', ''Namespace''] @ ks"
    by (simp add: push_params_eq ks_def)
  ultimately show ?thesis by simp
qed

end
