(* ===== verification/Tables.thy ===== *)
theory Tables
  imports Snapshot Slot_Cli Asg
begin

text \<open>
  The tables that the tools show to an operator: \<open>SystemSnapshot::print\<close>, the \<open>status\<close> command of
  both slot tools, and \<open>scale list\<close>.  A text is its UTF-8 bytes, line by line; the padding counts
  bytes, which are characters for the ASCII values that are padded.  \<open>fmt n x\<close> is a float with \<open>n\<close>
  decimals, formatted by the standard library.
\<close>

section \<open>Padding and colours\<close>

definition pad_right :: "nat \<Rightarrow> string \<Rightarrow> string" where
  "pad_right n s = s @ replicate (n - length s) (CHR '' '')"

definition pad_left :: "nat \<Rightarrow> string \<Rightarrow> string" where
  "pad_left n s = replicate (n - length s) (CHR '' '') @ s"

definition esc :: "string \<Rightarrow> string" where
  "esc code = CHR 0x1B # ''['' @ code @ ''m''"

abbreviation (input) plain_end :: string where "plain_end \<equiv> esc ''0''"
abbreviation (input) bold :: string where "bold \<equiv> esc ''1''"
abbreviation (input) dim :: string where "dim \<equiv> esc ''2''"

definition heavy_rule :: "nat \<Rightarrow> string" where
  "heavy_rule n = concat (replicate n [CHR 0xE2, CHR 0x94, CHR 0x81])"

definition light_rule :: "nat \<Rightarrow> string" where
  "light_rule n = concat (replicate n [CHR 0xE2, CHR 0x94, CHR 0x80])"

definition infinity_sign :: string where "infinity_sign = [CHR 0xE2, CHR 0x88, CHR 0x9E]"

definition warning_sign :: string where "warning_sign = [CHR 0xE2, CHR 0x9A, CHR 0xA0]"

definition long_dash :: string where "long_dash = [CHR 0xE2, CHR 0x80, CHR 0x94]"

lemma pads [simp]: "length s \<le> n \<Longrightarrow> length (pad_right n s) = n" "length s \<le> n \<Longrightarrow> length (pad_left n s) = n"
  by (simp_all add: pad_right_def pad_left_def)

section \<open>The snapshot\<close>

definition backend_row :: "backend_status \<Rightarrow> string" where
  "backend_row b =
     (let slot_s = (case bs_slot b of Some n \<Rightarrow> show_word n | None \<Rightarrow> ''-'');
          owner = (case bs_lease b of Some l \<Rightarrow> sl_owner l | None \<Rightarrow> ''-'');
          (active, inactive) = (case bs_ipvs b of
             Some i \<Rightarrow> (show_word (iv_active i), show_word (iv_inactive i)) | None \<Rightarrow> (''-'', ''-''))
      in ''   '' @ pad_right 18 (show_ip (bs_ip b)) @ '' '' @ colour (bs_state b)
         @ pad_right 12 (label (bs_state b)) @ plain_end @ '' '' @ pad_right 6 slot_s @ '' ''
         @ pad_right 26 owner @ '' '' @ pad_left 8 active @ ''  '' @ pad_left 8 inactive)"

definition backends_table :: "backend_status list \<Rightarrow> string list" where
  "backends_table bs =
     [[], '' '' @ bold @ ''Backends'' @ plain_end @ ''  ('' @ show_nat (length bs) @ '' weight file(s))'', []] @
     (if bs = [] then [''   (none '' @ long_dash @ '' check --weights-dir)'']
      else [''   '' @ bold @ pad_right 18 ''IP'' @ '' '' @ pad_right 12 ''State'' @ '' '' @ pad_right 6 ''Slot''
              @ '' '' @ pad_right 26 ''Owner Instance'' @ '' '' @ pad_left 8 ''ActConn'' @ ''  ''
              @ pad_left 8 ''InactConn'' @ plain_end,
            ''   '' @ dim @ replicate 85 (CHR ''-'') @ plain_end] @ map backend_row bs)"

text \<open>\<open>remaining_secs\<close>, and a row; both read the clock, the expiry first.\<close>

definition remaining_secs :: "slot_lease \<Rightarrow> real io" where
  "remaining_secs l = bind now_ms (\<lambda>now. Ret (real (unat (remaining_ms l now)) / 1000))"

definition lease_row :: "(nat \<Rightarrow> real \<Rightarrow> string) \<Rightarrow> slot_lease \<Rightarrow> string io" where
  "lease_row fmt l =
     bind (is_expired l) (\<lambda>expired.
     bind (remaining_secs l) (\<lambda>secs.
     Ret (''   '' @ pad_right 6 (show_word (sl_slot l)) @ '' '' @ pad_right 26 (sl_owner l) @ '' ''
       @ pad_left 9 (fmt 1 secs) @ '' s  '' @ (if expired then esc ''31'' @ ''EXPIRED'' @ esc ''0'' else []))))"

definition leases_table :: "(nat \<Rightarrow> real \<Rightarrow> string) \<Rightarrow> slot_lease list \<Rightarrow> string list io" where
  "leases_table fmt ls =
     (let head = [[], '' '' @ bold @ ''Redis Leases'' @ plain_end @ ''  ('' @ show_nat (length ls)
            @ '' slot(s) leased)'', []] in
      if ls = [] then Ret (head @ [''   (none)''])
      else
        for_each (\<lambda>l rows. bind (lease_row fmt l) (\<lambda>r. Ret (rows @ [r]))) ls
          (head @ [''   '' @ bold @ pad_right 6 ''Slot'' @ '' '' @ pad_right 26 ''Owner Instance'' @ '' ''
                @ pad_right 12 ''Expires in'' @ '' '' @ ''Status'' @ plain_end,
              ''   '' @ dim @ replicate 85 (CHR ''-'') @ plain_end]))"

definition capacity_line :: "asg_group_info option \<Rightarrow> string" where
  "capacity_line g =
     (case g of
        None \<Rightarrow> []
      | Some g \<Rightarrow> ''  desired='' @ show_int (desired_capacity g) @ ''  min='' @ show_int (min_size g)
          @ ''  max='' @ show_int (max_size g)
          @ (if would_violate_min g then '' '' @ esc ''33'' @ ''[!] desired=min'' @ esc ''0'' else []))"

definition instance_row :: "asg_instance \<Rightarrow> string" where
  "instance_row i =
     ''   '' @ pad_right 26 (instance_id i) @ '' '' @ pad_right 14 (health_status i) @ '' ''
       @ (if is_in_service i then esc ''32'' else esc ''33'') @ lifecycle_state i @ plain_end"

definition instances_table :: "asg_group_info option \<Rightarrow> asg_instance list \<Rightarrow> string list" where
  "instances_table g insts =
     [[], '' '' @ bold @ ''ASG Instances'' @ plain_end @ ''  ('' @ show_nat (length insts) @ '' total, ''
        @ show_nat (length (filter is_in_service insts)) @ '' InService)'' @ capacity_line g, []] @
     (if insts = [] then [''   (none '' @ long_dash @ '' ASG may be empty or query failed)'']
      else [''   '' @ bold @ pad_right 26 ''Instance ID'' @ '' '' @ pad_right 14 ''Health'' @ '' ''
              @ ''Lifecycle'' @ plain_end,
            ''   '' @ dim @ replicate 85 (CHR ''-'') @ plain_end] @ map instance_row insts)"

definition summary_line :: "snapshot \<Rightarrow> string" where
  "summary_line s =
     (let (active_count, draining_count, disabled_count, ls, in_service, total_conn) = summary s in
      '' '' @ bold @ ''Summary:'' @ plain_end @ ''  '' @ esc ''32'' @ show_nat active_count @ '' active'' @ esc ''0''
      @ ''  '' @ esc ''33'' @ show_nat draining_count @ '' drains'' @ esc ''0''
      @ ''  '' @ esc ''90'' @ show_nat disabled_count @ '' disabled'' @ esc ''0''
      @ ''  |  '' @ show_nat ls @ '' leases  |  '' @ show_nat in_service @ '' inservice  |  ''
      @ show_word total_conn @ '' conns'')"

definition snapshot_print :: "(nat \<Rightarrow> real \<Rightarrow> string) \<Rightarrow> string \<Rightarrow> snapshot \<Rightarrow> string list io" where
  "snapshot_print fmt taken_at_utc s =
     (let bar = replicate 88 (CHR ''='') in
      bind (leases_table fmt (leases s)) (\<lambda>lease_lines.
      Ret ([[], bold @ bar @ plain_end, '' System Snapshot  '' @ dim @ taken_at_utc @ plain_end,
            bold @ bar @ plain_end]
        @ backends_table (backends s) @ lease_lines @ instances_table (asg_group s) (asg s)
        @ [[], bold @ bar @ plain_end, summary_line s, bold @ bar @ plain_end, []])))"

section \<open>The status of the slot pool\<close>

definition free_row :: "(nat \<Rightarrow> real \<Rightarrow> string) \<Rightarrow> string \<times> u64 option \<Rightarrow> string" where
  "free_row fmt x =
     (case x of (slot_str, free) \<Rightarrow>
        ''  '' @ pad_right 8 slot_str @ '' '' @ (case free of
           None \<Rightarrow> infinity_sign @ ''  (since init)''
         | Some t \<Rightarrow> fmt 0 (real (unat t) / 1000) @ '' s''))"

definition pool_lease_row :: "(nat \<Rightarrow> real \<Rightarrow> string) \<Rightarrow> string \<times> string \<times> u64 option \<Rightarrow> string" where
  "pool_lease_row fmt x =
     (case x of (slot_str, owner, left) \<Rightarrow>
        ''  '' @ pad_right 8 slot_str @ '' '' @ pad_right 36 owner @ '' '' @ (case left of
           None \<Rightarrow> warning_sign @ ''  EXPIRED (reclaimed on next claim)''
         | Some t \<Rightarrow> fmt 1 (real (unat t) / 1000) @ '' s''))"

definition status_lines :: "string \<Rightarrow> (nat \<Rightarrow> real \<Rightarrow> string) \<Rightarrow> status \<Rightarrow> string list" where
  "status_lines title fmt st =
     (case st of (free_count, free_slots, ls) \<Rightarrow>
        [heavy_rule 68, title, heavy_rule 68, '' Free  ('' @ pad_left 3 (show_int free_count) @ ''):''] @
        (if free_slots = [] then [''  (none)'']
         else [''  '' @ pad_right 8 ''Slot'' @ '' Free for'', ''  '' @ light_rule 30] @ map (free_row fmt) free_slots) @
        [[]] @
        (if ls = [] then ['' Leases: (none)'']
         else ['' Leases ('' @ show_nat (length ls) @ ''):'',
               ''  '' @ pad_right 8 ''Slot'' @ '' '' @ pad_right 36 ''Owner'' @ '' Expires in'', ''  '' @ light_rule 66]
           @ map (pool_lease_row fmt) ls) @
        [heavy_rule 68])"

section \<open>The groups\<close>

definition group_lines :: "asg_group \<Rightarrow> string list" where
  "group_lines g =
     [[], ''Auto Scaling Group: '' @ g_name g,
      ''  Capacity '' @ long_dash @ '' desired: '' @ show_int (g_desired_capacity g) @ ''  min: '' @ show_int (g_min_size g)
        @ ''  max: '' @ show_int (g_max_size g),
      ''  Instances ('' @ show_nat (length (g_instances g)) @ ''):''] @
     (if g_instances g = [] then [''    (none)'']
      else [''    '' @ pad_right 25 ''Instance ID'' @ '' '' @ pad_right 15 ''Health'' @ '' '' @ pad_right 14 ''State''
              @ '' '' @ ''AZ'', ''    '' @ replicate 72 (CHR ''-'')] @
        map (\<lambda>i. ''    '' @ pad_right 25 (ri_instance_id i) @ '' '' @ pad_right 15 (ri_health_status i) @ '' ''
          @ pad_right 14 (ri_lifecycle_state i) @ '' '' @ ri_availability_zone i) (g_instances g))"

definition groups_lines :: "asg_group list \<Rightarrow> string list" where
  "groups_lines gs =
     (if gs = []
      then [''No auto scaling groups found (has the ASG been created in the console yet?)'']
      else concat (map group_lines gs))"

definition print_lines :: "string list \<Rightarrow> unit io" where
  "print_lines ls = for_each (\<lambda>l _. print_line l) ls ()"

definition cmd_list :: "string \<Rightarrow> string \<Rightarrow> unit rio" where
  "cmd_list region asg_name =
     attempt (describe region asg_name) (\<lambda>groups.
     bind (print_lines (groups_lines groups)) (\<lambda>_. Ret (Inr ())))"

section \<open>What the tables show\<close>

lemma emits_print_lines [simp]: "emits P (print_lines ls) = (\<forall>l \<in> set ls. P (Print l))"
  unfolding print_lines_def
proof (induction ls)
  case (Cons l ls)
  then show ?case by (simp add: print_line_def)
qed simp

lemma runs_print_lines: "runs (print_lines ls) t x \<Longrightarrow> map fst t = map Print ls"
  unfolding print_lines_def
  by (induction ls arbitrary: t) (auto simp: print_line_def runs_Op_iff)

text \<open>One line for each free slot and one for each lease, in the order of the status.\<close>

lemma status_lines_rows:
  "length (status_lines title fmt (n, fs, ls)) =
     6 + (if fs = [] then 1 else 2 + length fs) + (if ls = [] then 1 else 3 + length ls)"
  "r \<in> set fs \<Longrightarrow> free_row fmt r \<in> set (status_lines title fmt (n, fs, ls))"
  "l \<in> set ls \<Longrightarrow> pool_lease_row fmt l \<in> set (status_lines title fmt (n, fs, ls))"
  by (auto simp: status_lines_def)

text \<open>The table of leases asks the clock and nothing else.\<close>

lemma snapshot_print_reads: "emits (\<lambda>c. c = NowMs) (snapshot_print fmt ts s)"
  unfolding snapshot_print_def leases_table_def lease_row_def remaining_secs_def is_expired_def now_ms_def Let_def
  by (auto intro!: emits_bindI emits_for_each)

text \<open>The columns of the backends line up: a row whose fields fit is as wide as its neighbours.\<close>

lemma colour_label_lengths: "length (colour b) = 5" "length (label b) \<le> 12"
  by (cases b; simp)+

lemma show_nat_digits: "n < 10 ^ k \<Longrightarrow> 0 < k \<Longrightarrow> length (show_nat n) \<le> k"
proof (induction n arbitrary: k rule: show_nat.induct)
  case (1 n)
  show ?case
  proof (cases "n < 10")
    case True
    then show ?thesis using "1.prems"(2) by (simp add: show_nat.simps [of n])
  next
    case False
    then obtain j where j: "k = Suc j" "0 < j"
      using "1.prems" by (cases k; cases "k - 1") auto
    then have "n div 10 < 10 ^ j" using "1.prems" by (simp add: less_mult_imp_div_less mult.commute)
    then have "length (show_nat (n div 10)) \<le> j" using "1.IH" False j by blast
    then show ?thesis using False j by (simp add: show_nat.simps [of n])
  qed
qed

lemma length_show_ip: "length (show_ip ip) \<le> 15"
proof -
  have "length (show_nat (octet ip i)) \<le> 3" for i
  proof (rule show_nat_digits)
    have "octet ip i < 256" by (simp add: octet_def)
    then show "octet ip i < 10 ^ 3" by simp
  qed simp
  from this [of 0] this [of 1] this [of 2] this [of 3] show ?thesis by (simp add: show_ip_def)
qed

lemma backend_row_width:
  assumes "\<And>l. bs_lease b = Some l \<Longrightarrow> length (sl_owner l) \<le> 26"
    "\<And>n. bs_slot b = Some n \<Longrightarrow> unat n < 10 ^ 6"
    "\<And>i. bs_ipvs b = Some i \<Longrightarrow> unat (iv_active i) < 10 ^ 8 \<and> unat (iv_inactive i) < 10 ^ 8"
  shows "length (backend_row b) = 96"
proof -
  have fits: "length (show_word w) \<le> k" if "unat w < 10 ^ k" "0 < k" for k and w :: u32
    using that by (simp add: show_word_def show_nat_digits)
  have "length (show_ip (bs_ip b)) \<le> 18" using length_show_ip [of "bs_ip b"] by simp
  moreover have "length (show_word n) \<le> 6" if "bs_slot b = Some n" for n
    using fits [of n 6] assms(2) [OF that] by simp
  moreover have "length (show_word (iv_active i)) \<le> 8 \<and> length (show_word (iv_inactive i)) \<le> 8"
    if "bs_ipvs b = Some i" for i
    using fits [of "iv_active i" 8] fits [of "iv_inactive i" 8] assms(3) [OF that] by simp
  ultimately show ?thesis
    unfolding backend_row_def Let_def
    using assms(1) colour_label_lengths [of "bs_state b"]
    by (auto simp: esc_def split: option.splits prod.splits)
qed

end
