(* ===== verification/Daemon.thy ===== *)
theory Daemon
  imports Files Scaler_Safety Weight_Sync Listener Metrics Tables
begin

text \<open>
  \<open>aeroscale/src/bin/aeroscale.rs\<close>: the start of the daemon and its refresh loop;
  \<open>aeroscale/src/bin/scale.rs\<close> and \<open>aeroscale/src/bin/aws-config.rs\<close>: the two small tools.  The
  background tasks (listener, metrics server) are modelled in their own theories; the loop takes a
  bound on the cycles.
\<close>

section \<open>Arguments and state\<close>

record daemon_args =
  da_region :: string
  da_asg_name :: string
  da_redis_url :: string
  da_weights_dir :: string
  da_metrics_port :: u16
  da_scrape_port :: u16
  da_cloudwatch_namespace :: string
  da_snapshot_interval :: u64
  da_dry_run :: bool
  da_tls :: bool
  da_tls_insecure :: bool
  da_slot_base :: "ipv4 option"
  da_slot_offset :: "u32 option"
  da_vip_inside :: "ipv4 option"
  da_weight_state_ttl :: u64
  da_hard_conn_threshold :: u32
  da_slope_low_floor :: u32
  da_slope_threshold_per_min :: real
  da_bw_threshold_bps_per_backend :: u64
  da_drain_threshold :: u32
  da_scale_up_hysteresis_cycles :: u32
  da_drain_hysteresis_cycles :: u32
  da_scale_up_cooldown_secs :: u64
  da_drain_cooldown_secs :: u64
  da_scrape_mismatch_pct :: real
  da_term_decrements_capacity :: bool
  da_orphan_grace_secs :: u64
  da_max_concurrent_draining :: u32

text \<open>The configuration of the scaler is built from the arguments once.\<close>

definition scale_config_of :: "daemon_args \<Rightarrow> scale_config" where
  "scale_config_of a = \<lparr>hard_conn_threshold = da_hard_conn_threshold a,
     slope_low_floor = da_slope_low_floor a,
     slope_threshold_conn_per_min = da_slope_threshold_per_min a,
     bw_threshold_bps_per_backend = da_bw_threshold_bps_per_backend a,
     drain_threshold = da_drain_threshold a,
     scale_up_hysteresis_cycles = da_scale_up_hysteresis_cycles a,
     drain_hysteresis_cycles = da_drain_hysteresis_cycles a,
     scale_up_cooldown_secs = da_scale_up_cooldown_secs a,
     drain_cooldown_secs = da_drain_cooldown_secs a,
     max_concurrent_draining = da_max_concurrent_draining a\<rparr>"

record daemon_state =
  d_creds :: aws_credentials
  d_scaler :: scaler_state
  d_orphans :: orphans
  d_cache :: owner_cache
  d_metrics :: metrics_state

definition cleanup_env_of :: "daemon_args \<Rightarrow> cleanup_env" where
  "cleanup_env_of a = \<lparr>ce_weights_dir = da_weights_dir a, ce_region = da_region a,
     ce_dry_run = da_dry_run a, ce_decrement = da_term_decrements_capacity a\<rparr>"

section \<open>Start\<close>

definition resolve_vip :: "daemon_args \<Rightarrow> ipv4 option io" where
  "resolve_vip a =
     (case da_vip_inside a of
        Some vip \<Rightarrow> Ret (Some vip)
      | None \<Rightarrow>
          bind (attempt fetch_imds_token (\<lambda>token.
                attempt (fetch_imds_path token ''tags/instance/aeroftp-vip-inside'') (\<lambda>s.
                Ret (case parse_ip (trim s) of
                       None \<Rightarrow> Inl (Bail ''invalid IP in aeroftp-vip-inside tag'')
                     | Some ip \<Rightarrow> Inr ip)))) (\<lambda>resolved.
          Ret (case resolved of Inl e \<Rightarrow> None | Inr vip \<Rightarrow> Some vip)))"

definition resolve_slot_network :: "daemon_args \<Rightarrow> slot_network rio" where
  "resolve_slot_network a =
     (case (da_slot_base a, da_slot_offset a) of
        (Some b, Some ofs) \<Rightarrow> Ret (Inr (slot_network_new b ofs 0))
      | _ \<Rightarrow> ctx ''Failed to resolve slot network from IMDS.'' from_imds)"

definition daemon_start ::
    "aws_credentials rio \<Rightarrow> daemon_args \<Rightarrow> (ipv4 option \<times> slot_network \<times> daemon_state) rio" where
  "daemon_start fetch_creds a =
     bind (resolve_vip a) (\<lambda>vip.
     attempt (resolve_slot_network a) (\<lambda>net.
     attempt (ctx ''Failed to obtain AWS credentials from IMDS'' fetch_creds) (\<lambda>creds.
     attempt (ctx ''Failed to build Redis client''
       (build_redis_client (da_redis_url a) (da_tls a) (da_tls_insecure a) None)) (\<lambda>client.
     attempt (ctx ''Failed to connect to Redis'' (call RedisConnect (as_unit RedisFault))) (\<lambda>_.
     bind (weight_init (da_weights_dir a) net (da_weight_state_ttl a)) (\<lambda>_.
     Ret (Inr (vip, net, \<lparr>d_creds = creds, d_scaler = scaler_default, d_orphans = (\<lambda>_. None),
                          d_cache = (\<lambda>_. None), d_metrics = metrics_default\<rparr>))))))))"

section \<open>One cycle\<close>

definition refresh_creds :: "aws_credentials rio \<Rightarrow> aws_credentials \<Rightarrow> aws_credentials io" where
  "refresh_creds fetch_creds creds =
     bind now_ms (\<lambda>now.
     if is_expiring_soon creds (int (unat now)) (5 * 60 * 1000)
     then bind fetch_creds (\<lambda>x. Ret (case x of Inl e \<Rightarrow> creds | Inr c \<Rightarrow> c))
     else Ret creds)"

definition role :: "ipv4 option \<Rightarrow> bool io" where
  "role vip = (case vip of Some v \<Rightarrow> is_master v | None \<Rightarrow> Ret True)"

text \<open>The cycle after a snapshot was collected.\<close>

definition act_on :: "daemon_args \<Rightarrow> bool \<Rightarrow> snapshot \<Rightarrow> daemon_state \<Rightarrow> daemon_state io" where
  "act_on a master s st =
     bind (cleanup_run (cleanup_env_of a) master (da_orphan_grace_secs a) s (d_orphans st)) (\<lambda>(_, orphans).
     bind (if master then bind (persist (da_weights_dir a)) (\<lambda>_. Ret ()) else Ret ()) (\<lambda>_.
     let st = st\<lparr>d_orphans := orphans, d_metrics := update_from_ipvs s (d_metrics st)\<rparr> in
     if master then
       bind (scaler_run s (scale_config_of a) (da_asg_name a) (da_region a) (da_weights_dir a) (da_dry_run a)
               (d_scaler st)) (\<lambda>sc.
       Ret (st\<lparr>d_scaler := sc,
              d_metrics := update_scaler_bandwidth (bw_raw_bps sc) (f64_to_u64 (bw_smoothed sc)) (d_metrics st)\<rparr>))
     else Ret st))"

definition cycle_as :: "daemon_args \<Rightarrow> slot_network \<Rightarrow> bool \<Rightarrow> daemon_state \<Rightarrow> daemon_state io" where
  "cycle_as a net master st =
     bind (if master then Ret () else bind (sync_from_redis (da_weights_dir a)) (\<lambda>_. Ret ())) (\<lambda>_.
     bind (collect (da_weights_dir a) (da_region a) (da_asg_name a) net (d_cache st)) (\<lambda>(x, cache).
     let st = st\<lparr>d_cache := cache\<rparr> in
     case x of Inl e \<Rightarrow> Ret st | Inr s \<Rightarrow> act_on a master s st))"

definition cycle ::
    "aws_credentials rio \<Rightarrow> daemon_args \<Rightarrow> ipv4 option \<Rightarrow> slot_network \<Rightarrow> daemon_state \<Rightarrow> daemon_state io" where
  "cycle fetch_creds a vip net st =
     bind (refresh_creds fetch_creds (d_creds st)) (\<lambda>creds.
     bind (role vip) (\<lambda>master.
     cycle_as a net master (st\<lparr>d_creds := creds\<rparr>)))"

fun daemon_loop ::
    "nat \<Rightarrow> aws_credentials rio \<Rightarrow> daemon_args \<Rightarrow> ipv4 option \<Rightarrow> slot_network \<Rightarrow> daemon_state \<Rightarrow> daemon_state io" where
  "daemon_loop 0 fetch_creds a vip net st = Ret st"
| "daemon_loop (Suc n) fetch_creds a vip net st =
     bind (cycle fetch_creds a vip net st) (\<lambda>st'.
     Op (SleepOrTerm (unat (da_snapshot_interval a))) (\<lambda>_. daemon_loop n fetch_creds a vip net st'))"

section \<open>The tools\<close>

definition cmd_scale :: "string \<Rightarrow> string \<Rightarrow> u32 \<Rightarrow> unit rio" where
  "cmd_scale region asg_name desired = set_desired region asg_name desired"

definition cmd_terminate :: "string \<Rightarrow> string \<Rightarrow> string \<Rightarrow> unit rio" where
  "cmd_terminate region asg_name iid = asg_terminate_instance region iid True"

datatype scale_command = ScaleList | ScaleTo u32 | ScaleTerminate string

fun scale_main :: "aws_credentials rio \<Rightarrow> string \<Rightarrow> string \<Rightarrow> scale_command \<Rightarrow> unit rio" where
  "scale_main fetch_creds region asg_name command =
     attempt fetch_creds (\<lambda>creds.
     case command of
       ScaleList \<Rightarrow> cmd_list region asg_name
     | ScaleTo desired \<Rightarrow> cmd_scale region asg_name desired
     | ScaleTerminate iid \<Rightarrow> cmd_terminate region asg_name iid)"

definition aws_config :: "string \<Rightarrow> unit rio" where
  "aws_config out =
     attempt fetch_imds_token (\<lambda>token.
     attempt (fetch_imds_path token ''instance-id'') (\<lambda>iid.
     attempt (fetch_imds_path token ''public-ipv4'') (\<lambda>public_ipv4.
     attempt (fetch_imds_path token ''local-ipv4'') (\<lambda>private_ipv4.
     let content = ''INSTANCE_ID='' @ iid @ [newline] @ ''PUBLIC_IPV4='' @ public_ipv4 @ [newline]
           @ ''PRIVATE_IPV4='' @ private_ipv4 @ [newline] in
     attempt (create_parent ''Cannot create directory '' out) (\<lambda>_.
     put_file (''Cannot write '' @ out) out content)))))"

section \<open>Master and backup\<close>

text \<open>A backup changes nothing but local files.\<close>

definition only_files :: "cmd \<Rightarrow> bool" where
  "only_files c \<longleftrightarrow> mutates c \<longrightarrow> (\<exists>p v. c = WriteFile p v)"

lemma only_files_reads: "\<not> mutates c \<Longrightarrow> only_files c"
  by (simp add: only_files_def)

lemma only_files_simps [simp]:
  "only_files (WriteFile p v)" "only_files (ReadDir d)" "only_files (ReadFile p)" "only_files (Redis (GET k))"
  "only_files NowMs"
  by (simp_all add: only_files_def)

lemma sync_only_files: "emits only_files (sync_from_redis wd)"
  unfolding sync_from_redis_def sync_entry_def Let_def
  by (auto intro!: emits_attemptI emits_bindI emits_for_dir split: option.splits sum.splits)

lemma collect_only_files: "emits only_files (collect wd r n net cache)"
  by (rule emits_mono [OF collect_reads only_files_reads])

lemma backup_only_files: "emits only_files (cycle_as a net False st)"
  unfolding cycle_as_def act_on_def Let_def
  by (auto intro!: emits_bindI sync_only_files collect_only_files split: prod.splits sum.splits
      simp: cleanup_run_def)

text \<open>A dry run touches neither the account nor the slots nor the weight files of a master.\<close>

definition dry_allowed :: "cmd \<Rightarrow> bool" where
  "dry_allowed c \<longleftrightarrow> mutates c \<longrightarrow>
     (\<exists>k v. c = Redis (SET k v) \<and> (k = KEY_BACKEND_WEIGHTS_TS \<or> (\<exists>i. k = weight_key i)))"

lemma dry_allowed_reads: "\<not> mutates c \<Longrightarrow> dry_allowed c"
  by (simp add: dry_allowed_def)

lemma dry_allowed_simps [simp]:
  "dry_allowed (ReadDir d)" "dry_allowed (ReadFile p)" "dry_allowed NowMs"
  "dry_allowed (Redis (SET (weight_key i) v))" "dry_allowed (Redis (SET KEY_BACKEND_WEIGHTS_TS v))"
  by (auto simp: dry_allowed_def)

lemma persist_dry_allowed: "emits dry_allowed (persist wd)"
  unfolding persist_def persist_entry_def
  by (auto intro!: emits_attemptI emits_bindI emits_for_dir split: option.splits sum.splits)

lemma cleanup_dry:
  assumes "ce_dry_run env"
  shows "emits dry_allowed (cleanup_run env m g s seen)"
proof (rule emits_mono [OF cleanup_run_justified])
  fix c assume "justified env g s seen c"
  with assms show "dry_allowed c" by (intro dry_allowed_reads justified_dry)
qed

lemma scaler_dry: "emits dry_allowed (scaler_run s cfg nm r wd True st)"
  by (rule emits_mono [OF scaler_run_commands [where dry = True]])
    (auto simp: scaler_command_def intro: dry_allowed_reads)

lemma collect_dry_allowed: "emits dry_allowed (collect wd r n net cache)"
  by (rule emits_mono [OF collect_reads dry_allowed_reads])

lemma master_dry_run:
  assumes "da_dry_run a"
  shows "emits dry_allowed (cycle_as a net True st)"
proof -
  have "ce_dry_run (cleanup_env_of a)" using assms by (simp add: cleanup_env_of_def)
  then show ?thesis
    unfolding cycle_as_def act_on_def Let_def
    using assms
    by (auto intro!: emits_bindI collect_dry_allowed cleanup_dry persist_dry_allowed scaler_dry
        split: prod.splits sum.splits)
qed

text \<open>The scaler's state keeps its invariant over the whole life of the daemon.\<close>

definition daemon_inv :: "daemon_state \<Rightarrow> bool" where
  "daemon_inv st \<longleftrightarrow> scaler_inv (d_scaler st)"

lemma act_on_inv: "daemon_inv st \<Longrightarrow> returns daemon_inv (act_on a m s st)"
  unfolding act_on_def Let_def daemon_inv_def
  apply (rule returns_bindI)
  apply (simp only: split_beta)
  apply (rule returns_bindI)
  apply (auto intro!: returns_bind [OF returns_scaler_run])
  done

lemma cycle_inv: "daemon_inv st \<Longrightarrow> returns daemon_inv (cycle f a vip net st)"
  unfolding cycle_def cycle_as_def Let_def
  by (auto intro!: returns_bindI act_on_inv split: prod.splits sum.splits)
    (simp_all add: daemon_inv_def)

lemma daemon_loop_inv: "daemon_inv st \<Longrightarrow> returns daemon_inv (daemon_loop n f a vip net st)"
  by (induction n arbitrary: st) (auto intro!: returns_bind [OF cycle_inv])

end
