(* ===== verification/Samples.thy ===== *)
theory Samples
  imports Cleanup_Timers Scaler_Pace Daemon
begin

text \<open>
  Concrete data on which the properties of the daemon are exercised: one group, one leased backend
  (slot 3 at 10.0.0.23), and a service that answers every command by a fixed function.
\<close>

definition sample_env :: cleanup_env where
  "sample_env = \<lparr>ce_weights_dir = ''w'', ce_region = ''eu'', ce_dry_run = False, ce_decrement = True\<rparr>"

definition sample_lease :: slot_lease where
  "sample_lease = \<lparr>sl_slot = 3, sl_owner = ''i-a'', sl_expires_ms = 1000\<rparr>"

definition sample_backend :: "backend_state \<Rightarrow> u32 \<Rightarrow> u32 \<Rightarrow> backend_status" where
  "sample_backend st slot conns =
     \<lparr>bs_ip = 167772180 + slot, bs_slot = Some slot, bs_state = st,
      bs_ipvs = Some \<lparr>iv_ip = 167772180 + slot, iv_active = conns, iv_inactive = 0\<rparr>,
      bs_lease = Some (sample_lease\<lparr>sl_slot := slot\<rparr>)\<rparr>"

definition sample_instance :: "string \<Rightarrow> asg_instance" where
  "sample_instance i = \<lparr>instance_id = i, lifecycle_state = ''InService'', health_status = ''Healthy''\<rparr>"

definition sample_snapshot :: "backend_status list \<Rightarrow> snapshot" where
  "sample_snapshot bs =
     \<lparr>backends = bs, leases = [sample_lease], asg = [sample_instance ''i-a''],
      asg_group = Some \<lparr>gi_name = ''g'', desired_capacity = 3, min_size = 1, max_size = 5\<rparr>,
      ipvs = [], taken_at = 0\<rparr>"

definition sample_config :: scale_config where
  "sample_config = \<lparr>hard_conn_threshold = 1200, slope_low_floor = 500,
     slope_threshold_conn_per_min = 250, bw_threshold_bps_per_backend = 200000000,
     drain_threshold = 500, scale_up_hysteresis_cycles = 3, drain_hysteresis_cycles = 1,
     scale_up_cooldown_secs = 12, drain_cooldown_secs = 30, max_concurrent_draining = 2\<rparr>"

definition sample_args :: daemon_args where
  "sample_args = \<lparr>da_region = ''eu'', da_asg_name = ''g'', da_redis_url = ''redis://r'',
     da_weights_dir = ''w'', da_metrics_port = 9090, da_scrape_port = 9090,
     da_cloudwatch_namespace = ''n'', da_snapshot_interval = 30, da_dry_run = True, da_tls = False,
     da_tls_insecure = False, da_slot_base = None, da_slot_offset = None, da_vip_inside = None,
     da_weight_state_ttl = 3600, da_hard_conn_threshold = 1200, da_slope_low_floor = 500,
     da_slope_threshold_per_min = 250, da_bw_threshold_bps_per_backend = 200000000,
     da_drain_threshold = 500, da_scale_up_hysteresis_cycles = 3, da_drain_hysteresis_cycles = 9,
     da_scale_up_cooldown_secs = 12, da_drain_cooldown_secs = 30, da_scrape_mismatch_pct = 5,
     da_term_decrements_capacity = True, da_orphan_grace_secs = 120, da_max_concurrent_draining = 2\<rparr>"

definition answering :: "('c \<Rightarrow> 'r) \<Rightarrow> unit \<Rightarrow> 'c \<Rightarrow> 'r \<times> unit" where
  "answering f w c = (f c, w)"

text \<open>AWS is down, files and Redis work, the clocks stand.\<close>

definition sample_answer :: "cmd \<Rightarrow> reply" where
  "sample_answer c =
     (case c of
        AwsQuery h sv r ps \<Rightarrow> Failed IoError
      | NowMs \<Rightarrow> Millis 900
      | NowInstant \<Rightarrow> Nanos 120000000000
      | ReadDir d \<Rightarrow> Entries []
      | Redis (ZRANGE k) \<Rightarrow> Scored []
      | ReadFile p \<Rightarrow> Failed IoError
      | _ \<Rightarrow> Done)"

abbreviation sample_trace :: "'a io \<Rightarrow> (cmd \<times> reply) list" where
  "sample_trace p \<equiv> trace (answering sample_answer) p ()"

lemma sample_runs: "runs p (sample_trace p) (fst (exec (answering sample_answer) p ()))"
  by (rule runs_trace)

lemmas sample_defs = sample_env_def sample_lease_def sample_backend_def sample_instance_def
  sample_snapshot_def

lemmas sample_run_defs = sample_defs answering_def sample_answer_def trace_attempt trace_bind
  exec_attempt exec_bind with_ctx_def decode_defs now_ms_def instant_now_def as_millis_def as_nanos_def
  write_weight_def terminate_instance_def asg_terminate_instance_def aws_call_def Let_def

text \<open>A drained backend, a disabled one, and an instance without a lease.\<close>

lemmas lease_run_defs = sample_run_defs handle_lease_def OWNER_MISSING_def OWNER_UNKNOWN_def
  backend_of_slot_def serves_def active_conn_def group_at_min_def would_violate_min_def is_expired_def

abbreviation drained_lease :: "unit rio" where
  "drained_lease \<equiv>
     handle_lease sample_env [''i-a''] (sample_snapshot [sample_backend Draining 3 0]) sample_lease"

abbreviation disabled_lease :: "unit rio" where
  "disabled_lease \<equiv>
     handle_lease sample_env [''i-a''] (sample_snapshot [sample_backend Disabled 3 0]) sample_lease"

abbreviation orphan_snapshot :: snapshot where
  "orphan_snapshot \<equiv> sample_snapshot []\<lparr>asg := [sample_instance ''i-b'']\<rparr>"

abbreviation orphan_pass :: "orphans io" where
  "orphan_pass \<equiv> section_22 sample_env 120 orphan_snapshot [''i-b'' \<mapsto> 0]"

lemma drained_trace:
  "sample_trace drained_lease =
     [(WriteFile (weight_path ''w'' 167772183) WEIGHT_DISABLED, Done),
      (AwsQuery (asg_host ''eu'') ''autoscaling'' ''eu'' (terminate_params ''i-a'' True), Failed IoError)]"
  by (simp add: lease_run_defs)

lemma disabled_trace:
  "sample_trace disabled_lease =
     [(NowMs, Millis 900), (WriteFile (weight_path ''w'' 167772183) WEIGHT_ACTIVE, Done)]"
  by (simp add: lease_run_defs)

lemma orphan_trace:
  "sample_trace orphan_pass =
     [(NowInstant, Nanos 120000000000),
      (AwsQuery (asg_host ''eu'') ''autoscaling'' ''eu'' (terminate_params ''i-b'' False), Failed IoError)]"
  by (simp add: sample_run_defs section_22_def orphan_step_def is_in_service_def elapsed_secs_def)

text \<open>A pass over the hard ceiling, and a drain of the idle one of two backends.\<close>

abbreviation busy_pass :: "scaler_state io" where
  "busy_pass \<equiv> evaluate_scale_up (sample_snapshot []) sample_config 1500 1 ''g'' ''eu'' False scaler_default"

abbreviation two_backends :: "backend_status list" where
  "two_backends \<equiv> [sample_backend Active 3 0, sample_backend Active 4 10]"

abbreviation idle_pass :: "scaler_state io" where
  "idle_pass \<equiv> evaluate_drain (sample_snapshot two_backends) two_backends sample_config ''w'' False scaler_default"

lemma busy_trace:
  "(AwsQuery (asg_host ''eu'') ''autoscaling'' ''eu'' (set_desired_params ''g'' 4), Failed IoError)
     \<in> set (sample_trace busy_pass)"
  by (simp add: sample_run_defs sample_config_def scaler_default_def evaluate_scale_up_def read_iface_snapshot_def
      hard_trigger_def count_triggers_def scale_up_act_def cooling_def set_desired_def push_sample_def)

lemma idle_trace:
  "sample_trace idle_pass =
     [(WriteFile (weight_path ''w'' 167772183) WEIGHT_DRAINING, Done), (NowInstant, Nanos 120000000000)]"
  by (simp add: sample_run_defs sample_config_def scaler_default_def evaluate_drain_def drain_act_def
      drain_choice_def draining_count_def total_sessions_def backend_sessions_def sessions_from_ipvs_def
      active_conn_def cooling_def)
    (simp add: word_le_nat_alt)

text \<open>
  The drain goes by the plain average: of two backends with 400 sessions each one is drained at a
  threshold of 500, although the other one is left with 800; and an idle backend is drained while
  another one is draining.
\<close>

abbreviation loaded_backends :: "backend_status list" where
  "loaded_backends \<equiv> [sample_backend Active 3 800, sample_backend Active 4 800]"

lemma drain_past_threshold:
  "(WriteFile (weight_path ''w'' 167772184) WEIGHT_DRAINING, Done) \<in> set (sample_trace
     (evaluate_drain (sample_snapshot loaded_backends) loaded_backends sample_config ''w'' False scaler_default))"
  "drain_threshold sample_config = 500" "total_sessions loaded_backends = 800"
  by (simp_all add: sample_run_defs sample_config_def scaler_default_def evaluate_drain_def drain_act_def
      drain_choice_def draining_count_def total_sessions_def backend_sessions_def sessions_from_ipvs_def
      active_conn_def cooling_def)
    (simp add: word_le_nat_alt)

lemma drain_while_draining:
  "(WriteFile (weight_path ''w'' 167772183) WEIGHT_DRAINING, Done) \<in> set (sample_trace
     (evaluate_drain (sample_snapshot (sample_backend Draining 5 6 # two_backends)) two_backends sample_config
       ''w'' False scaler_default))"
  by (simp add: sample_run_defs sample_config_def scaler_default_def evaluate_drain_def drain_act_def
      drain_choice_def draining_count_def total_sessions_def backend_sessions_def sessions_from_ipvs_def
      active_conn_def cooling_def)
    (simp add: word_le_nat_alt)

text \<open>Two passes of the scaler in which a backend is drained; every reading of the clock is 100 s later.\<close>

definition ticking :: "nat \<Rightarrow> cmd \<Rightarrow> reply \<times> nat" where
  "ticking n c = (case c of NowInstant \<Rightarrow> (Nanos (n * 100000000000), Suc n) | _ \<Rightarrow> (sample_answer c, n))"

abbreviation drain_pass :: "scaler_state \<Rightarrow> scaler_state io" where
  "drain_pass \<equiv> scaler_run (sample_snapshot two_backends) sample_config ''g'' ''eu'' ''w'' False"

definition first_pass :: "(cmd \<times> reply) list \<times> scaler_state" where
  "first_pass = (trace ticking (drain_pass scaler_default) 0, fst (exec ticking (drain_pass scaler_default) 0))"

definition second_pass :: "(cmd \<times> reply) list \<times> scaler_state" where
  "second_pass = (trace ticking (drain_pass (snd first_pass)) 2, fst (exec ticking (drain_pass (snd first_pass)) 2))"

lemma two_passes:
  "chain (scaler_pass sample_config ''g'' ''eu'' ''w'') scaler_default ([] @ [fst first_pass] @ [] @ [fst second_pass])
     (snd second_pass)"
  unfolding first_pass_def second_pass_def
  by (auto simp: scaler_pass_def intro: runs_trace)

text \<open>An average of three sessions fires no trigger.\<close>

lemma quiet_load:
  "\<not> hard_trigger sample_config 3" "\<not> slope_trigger sample_config 3 x" "\<not> bw_trigger sample_config 3 y"
  by (simp_all add: hard_trigger_def slope_trigger_def bw_trigger_def sample_config_def split: option.splits)

lemma sample_config_fields:
  "drain_threshold sample_config = 500" "drain_hysteresis_cycles sample_config = 1"
  "drain_cooldown_secs sample_config = 30" "max_concurrent_draining sample_config = 2"
  by (simp_all add: sample_config_def)

lemmas pass_defs = sample_run_defs ticking_def scaler_default_def scaler_run_def quiet_load sample_config_fields
  participates_def is_expired_def evaluate_scale_up_def read_iface_snapshot_def
  count_triggers_def push_sample_def ceiling_average_def
  evaluate_drain_def drain_act_def drain_choice_def draining_count_def total_sessions_def
  backend_sessions_def sessions_from_ipvs_def active_conn_def cooling_def elapsed_secs_def

lemma first_pass_run:
  "first_pass = ([(NowMs, Millis 900), (NowMs, Millis 900), (NowInstant, Nanos 0),
     (ReadFile ''/proc/net/dev'', Failed IoError),
     (WriteFile (weight_path ''w'' 167772183) WEIGHT_DRAINING, Done), (NowInstant, Nanos 100000000000)],
     scaler_default\<lparr>slope_samples := [(0, 3)], last_drain := Some 100000000000\<rparr>)"
  unfolding first_pass_def by (simp add: pass_defs) (simp add: word_le_nat_alt)

lemma second_pass_drains:
  "(WriteFile (weight_path ''w'' 167772183) WEIGHT_DRAINING, Done) \<in> set (fst second_pass)"
  unfolding second_pass_def first_pass_run fst_conv snd_conv
  by (simp add: pass_defs, simp add: word_le_nat_alt)

end
