(* ===== verification/Asg_Roundtrip.thy ===== *)
theory Asg_Roundtrip
  imports Asg
begin

text \<open>
  The parser of \<open>DescribeAutoScalingGroups\<close> on the answers the service renders: it gives back
  exactly the groups, their limits and their instances, whatever values the elements carry, as
  long as the values have no \<open><\<close> (the service escapes it) and no surrounding white space.
\<close>

section \<open>Occurrences of tags in rendered text\<close>

definition chunky :: "string \<Rightarrow> bool" where
  "chunky r \<longleftrightarrow> r = [] \<or> hd r = CHR ''<''"

lemma chunky_simps [simp]:
  "chunky []" "chunky (open_tag t @ r)" "chunky (close_tag t @ r)" "chunky (open_tag t)" "chunky (close_tag t)"
  by (simp_all add: chunky_def open_tag_def close_tag_def)

lemma contains_append_lt:
  assumes "CHR ''<'' \<notin> set q"
  shows "contains (x @ CHR ''<'' # r) (CHR ''<'' # q) \<longleftrightarrow>
    contains x (CHR ''<'' # q) \<or> contains (CHR ''<'' # r) (CHR ''<'' # q)"
proof (cases "contains x (CHR ''<'' # q)")
  case True
  then obtain u v where "x = u @ (CHR ''<'' # q) @ v" by (auto simp: contains_def find_sub_None)
  then have "x @ CHR ''<'' # r = u @ (CHR ''<'' # q) @ (v @ CHR ''<'' # r)" by simp
  then have "contains (x @ CHR ''<'' # r) (CHR ''<'' # q)" by (metis contains_mid)
  with True show ?thesis by simp
next
  case False
  with find_sub_append_lt [OF assms False, of r] show ?thesis by (simp add: contains_def)
qed

lemma contains_no_lt: "CHR ''<'' \<notin> set w \<Longrightarrow> \<not> contains w (CHR ''<'' # q)"
  by (auto simp: contains_def find_sub_None)

lemma contains_chunk:
  assumes "CHR ''<'' \<notin> set q" "CHR ''<'' \<notin> set w" "chunky r"
  shows "contains (CHR ''<'' # w @ r) (CHR ''<'' # q) \<longleftrightarrow>
    starts_with w q \<or> contains r (CHR ''<'' # q)"
proof -
  have one: "contains (CHR ''<'' # w) (CHR ''<'' # q) \<longleftrightarrow> starts_with w q"
    using contains_no_lt [OF assms(2), of q]
    by (auto simp: contains_def starts_with_def split: if_splits)
  show ?thesis
  proof (cases r)
    case Nil
    then show ?thesis using one by (simp add: contains_def)
  next
    case (Cons c r')
    then have "c = CHR ''<''" using assms(3) by (simp add: chunky_def)
    then show ?thesis
      using contains_append_lt [OF assms(1), of "CHR ''<'' # w" r'] one Cons by simp
  qed
qed

lemma starts_with_tags:
  assumes "plain_tag t" "plain_tag t'"
  shows "starts_with (t' @ CHR ''>'' # v) (t @ ''>'') \<longleftrightarrow> t = t'"
    "\<not> starts_with (CHR ''/'' # v) (t @ ''>'')"
    "\<not> starts_with (t' @ v) (CHR ''/'' # w)"
proof -
  show "starts_with (t' @ CHR ''>'' # v) (t @ ''>'') \<longleftrightarrow> t = t'"
  proof
    assume "starts_with (t' @ CHR ''>'' # v) (t @ ''>'')"
    then obtain z where "t' @ CHR ''>'' # v = t @ CHR ''>'' # z" by (auto simp: starts_with_iff)
    moreover have "CHR ''>'' \<notin> set t" "CHR ''>'' \<notin> set t'" using assms by (auto simp: plain_tag_def)
    ultimately show "t = t'"
      by (metis option.inject prod.inject split_once_append)
  qed (auto simp: starts_with_iff)
  show "\<not> starts_with (CHR ''/'' # v) (t @ ''>'')" "\<not> starts_with (t' @ v) (CHR ''/'' # w)"
    using assms by (cases t; cases t'; auto simp: starts_with_def plain_tag_def)+
qed

lemma contains_tags:
  assumes "plain_tag t" "plain_tag t'" "CHR ''<'' \<notin> set v" "chunky r"
  shows "contains (open_tag t' @ v @ r) (open_tag t) \<longleftrightarrow> t = t' \<or> contains r (open_tag t)"
    "contains (close_tag t' @ v @ r) (open_tag t) \<longleftrightarrow> contains r (open_tag t)"
    "contains (open_tag t' @ v @ r) (close_tag t) \<longleftrightarrow> contains r (close_tag t)"
    "contains (close_tag t' @ v @ r) (close_tag t) \<longleftrightarrow> t = t' \<or> contains r (close_tag t)"
proof -
  have lt: "CHR ''<'' \<notin> set t" "CHR ''<'' \<notin> set t'" using assms by (auto simp: plain_tag_def)
  show "contains (open_tag t' @ v @ r) (open_tag t) \<longleftrightarrow> t = t' \<or> contains r (open_tag t)"
    using contains_chunk [of "t @ ''>''" "t' @ ''>'' @ v" r] lt assms
    by (simp add: open_tag_def starts_with_tags)
  show "contains (close_tag t' @ v @ r) (open_tag t) \<longleftrightarrow> contains r (open_tag t)"
    using contains_chunk [of "t @ ''>''" "''/'' @ t' @ ''>'' @ v" r] lt assms
    by (simp add: open_tag_def close_tag_def starts_with_tags)
  show "contains (open_tag t' @ v @ r) (close_tag t) \<longleftrightarrow> contains r (close_tag t)"
    using contains_chunk [of "''/'' @ t @ ''>''" "t' @ ''>'' @ v" r] lt assms
    by (simp add: open_tag_def close_tag_def starts_with_tags)
  have "starts_with (CHR ''/'' # t' @ CHR ''>'' # v) (CHR ''/'' # t @ ''>'') \<longleftrightarrow> t = t'"
    using starts_with_tags(1) [OF assms(1,2), of v] by (simp add: starts_with_def)
  then show "contains (close_tag t' @ v @ r) (close_tag t) \<longleftrightarrow> t = t' \<or> contains r (close_tag t)"
    using contains_chunk [of "''/'' @ t @ ''>''" "''/'' @ t' @ ''>'' @ v" r] lt assms
    by (simp add: close_tag_def)
qed

lemmas contains_tags_last = contains_tags [where r = "[]", simplified]
lemmas contains_tags_only = contains_tags [where v = "[]", simplified]

lemma not_contains_Nil [simp]: "\<not> contains [] (open_tag t)" "\<not> contains [] (close_tag t)"
  by (simp_all add: contains_def)

section \<open>Scalar elements\<close>

definition elem :: "string \<Rightarrow> string \<Rightarrow> string" where
  "elem t v = open_tag t @ v @ close_tag t"

definition elems :: "(string \<times> string) list \<Rightarrow> string" where
  "elems xs = concat (map (\<lambda>(t, v). elem t v) xs)"

definition scalar_ok :: "string \<times> string \<Rightarrow> bool" where
  "scalar_ok x \<longleftrightarrow> plain_tag (fst x) \<and> CHR ''<'' \<notin> set (snd x)"

lemma elems_simps: "elems [] = []" "elems ((t, v) # xs) = open_tag t @ v @ close_tag t @ elems xs"
  by (simp_all add: elems_def elem_def)

lemma elems_append: "elems (xs @ ys) = elems xs @ elems ys"
  by (simp add: elems_def)

lemma chunky_elems: "chunky r \<Longrightarrow> chunky (elems xs @ r)"
  by (cases xs) (auto simp: elems_simps)

lemma contains_elems:
  assumes "plain_tag t" "list_all scalar_ok xs" "t \<notin> fst ` set xs" "chunky r"
  shows "contains (elems xs @ r) (open_tag t) \<longleftrightarrow> contains r (open_tag t)"
    "contains (elems xs @ r) (close_tag t) \<longleftrightarrow> contains r (close_tag t)"
  using assms(2,3)
  by (induction xs) (auto simp: elems_simps scalar_ok_def contains_tags contains_tags_only
      chunky_elems assms)

lemma extract_scalar_elems:
  assumes "list_all scalar_ok xs" "map_of xs t = Some v"
  shows "extract_scalar (elems xs @ r) t = Some (trim v)"
proof -
  obtain as bs where xs: "xs = as @ (t, v) # bs" and nin: "t \<notin> fst ` set as"
    using assms(2)
  proof (induction xs arbitrary: thesis)
    case (Cons x xs)
    show ?case
    proof (cases "fst x = t")
      case True
      then have "x # xs = [] @ (t, v) # xs" using Cons.prems(2) by (cases x) auto
      then show ?thesis using Cons.prems(1) by fastforce
    next
      case False
      then have "map_of xs t = Some v" using Cons.prems(2) by (cases x) auto
      then obtain as bs where "xs = as @ (t, v) # bs" "t \<notin> fst ` set as" using Cons.IH by blast
      then show ?thesis using False Cons.prems(1) [of "x # as" bs] by simp
    qed
  qed simp
  have ok: "plain_tag t" "CHR ''<'' \<notin> set v" "list_all scalar_ok as"
    using assms(1) by (auto simp: xs scalar_ok_def)
  have "\<not> contains (elems as) (open_tag t)"
    using contains_elems(1) [OF ok(1,3) nin, of "[]"] by simp
  then show ?thesis
    using extract_scalar_element [OF ok(1) _ ok(2), of "elems as" "elems bs @ r"]
    by (simp add: xs elems_append elems_simps)
qed

section \<open>Instances and groups\<close>

definition clean :: "string \<Rightarrow> bool" where
  "clean v \<longleftrightarrow> CHR ''<'' \<notin> set v \<and> trim v = v"

definition instance_elems :: "raw_instance \<Rightarrow> (string \<times> string) list" where
  "instance_elems i = [(''InstanceId'', ri_instance_id i),
     (''AvailabilityZone'', ri_availability_zone i),
     (''LifecycleState'', ri_lifecycle_state i), (''HealthStatus'', ri_health_status i)]"

definition render_instance :: "raw_instance \<Rightarrow> string" where
  "render_instance i = elem ''member'' (elems (instance_elems i))"

definition instance_clean :: "raw_instance \<Rightarrow> bool" where
  "instance_clean i \<longleftrightarrow> clean (ri_instance_id i) \<and> clean (ri_availability_zone i) \<and>
     clean (ri_lifecycle_state i) \<and> clean (ri_health_status i)"

definition render_instances :: "raw_instance list \<Rightarrow> string" where
  "render_instances is = concat (map render_instance is)"

lemma plain_tags [simp]:
  "plain_tag ''member''" "plain_tag ''InstanceId''" "plain_tag ''AvailabilityZone''"
  "plain_tag ''LifecycleState''" "plain_tag ''HealthStatus''" "plain_tag ''Instances''"
  "plain_tag ''AutoScalingGroupName''" "plain_tag ''DesiredCapacity''" "plain_tag ''MinSize''"
  "plain_tag ''MaxSize''"
  by (simp_all add: plain_tag_def)

lemma instance_elems_ok: "instance_clean i \<Longrightarrow> list_all scalar_ok (instance_elems i)"
  by (simp add: instance_elems_def instance_clean_def clean_def scalar_ok_def)

lemma parse_instance_elems: "instance_clean i \<Longrightarrow> parse_instance (elems (instance_elems i)) = i"
  using extract_scalar_elems [OF instance_elems_ok, of i _ _ "[]"]
  by (simp add: parse_instance_def or_else_def instance_elems_def instance_clean_def clean_def)

lemma tag_free_elems:
  "plain_tag t \<Longrightarrow> list_all scalar_ok xs \<Longrightarrow> t \<notin> fst ` set xs \<Longrightarrow> tag_free t (elems xs)"
  using contains_elems [of t xs "[]"] by (simp add: tag_free_def)

lemma member_free_instance: "instance_clean i \<Longrightarrow> tag_free ''member'' (elems (instance_elems i))"
  by (rule tag_free_elems) (simp_all add: instance_elems_ok, simp add: instance_elems_def)

lemma parse_instances_render:
  "list_all instance_clean is \<Longrightarrow> parse_instances (render_instances is) = is"
proof (induction "is")
  case Nil
  then show ?case
    by (subst parse_instances.simps) (simp add: render_instances_def extract_balanced_None)
next
  case (Cons i "is")
  let ?c = "elems (instance_elems i)"
  have h: "render_instances (i # is) = [] @ open_tag ''member'' @ ?c @ close_tag ''member'' @ render_instances is"
    by (simp add: render_instances_def render_instance_def elem_def)
  have "balanced_in ''member'' ?c"
    using Cons.prems by (simp add: balanced_text member_free_instance)
  then have "extract_balanced (render_instances (i # is)) ''member'' = Some ?c"
    unfolding h by (intro extract_balanced_element) simp_all
  moreover have "after_element (render_instances (i # is)) ''member'' ?c = render_instances is"
    unfolding h by (intro after_element_eq) simp_all
  ultimately show ?case
    using Cons by (subst parse_instances.simps) (simp add: parse_instance_elems)
qed

lemma chunky_instances [simp]: "chunky (render_instances is @ close_tag t)"
  by (cases "is") (simp_all add: render_instances_def render_instance_def elem_def)

lemma tag_free_instances:
  assumes "list_all instance_clean is" "plain_tag t" "t \<noteq> ''member''"
    "t \<notin> {''InstanceId'', ''AvailabilityZone'', ''LifecycleState'', ''HealthStatus''}"
  shows "\<not> contains (render_instances is) (open_tag t)" "\<not> contains (render_instances is) (close_tag t)"
proof -
  have "\<not> contains (render_instances is) (open_tag t) \<and> \<not> contains (render_instances is) (close_tag t)
      \<and> chunky (render_instances is)"
    using assms(1)
  proof (induction "is")
    case Nil
    then show ?case by (simp add: render_instances_def)
  next
    case (Cons i "is")
    have nin: "t \<notin> fst ` set (instance_elems i)"
      using assms(4) by (simp add: instance_elems_def)
    have "list_all scalar_ok (instance_elems i)" using Cons.prems by (simp add: instance_elems_ok)
    note ce = contains_elems [OF assms(2) this nin]
    have h: "render_instances (i # is) =
        open_tag ''member'' @ elems (instance_elems i) @ close_tag ''member'' @ render_instances is"
      by (simp add: render_instances_def render_instance_def elem_def)
    show ?case
      using Cons assms(2,3)
      by (simp add: h contains_tags_only ce chunky_elems)
  qed
  then show "\<not> contains (render_instances is) (open_tag t)"
    "\<not> contains (render_instances is) (close_tag t)" by simp_all
qed

definition group_elems :: "asg_group \<Rightarrow> (string \<times> string) list" where
  "group_elems g = [(''AutoScalingGroupName'', g_name g),
     (''DesiredCapacity'', show_int (g_desired_capacity g)),
     (''MinSize'', show_int (g_min_size g)), (''MaxSize'', show_int (g_max_size g))]"

definition group_content :: "asg_group \<Rightarrow> string" where
  "group_content g = elems (group_elems g) @ elem ''Instances'' (render_instances (g_instances g))"

definition render_group :: "asg_group \<Rightarrow> string" where
  "render_group g = elem ''member'' (group_content g)"

definition i64_range :: "int \<Rightarrow> bool" where
  "i64_range i \<longleftrightarrow> - (2 ^ 63) \<le> i \<and> i < 2 ^ 63"

definition group_clean :: "asg_group \<Rightarrow> bool" where
  "group_clean g \<longleftrightarrow> clean (g_name g) \<and> i64_range (g_desired_capacity g) \<and>
     i64_range (g_min_size g) \<and> i64_range (g_max_size g) \<and> list_all instance_clean (g_instances g)"

lemma parse_i64_show_int: "i64_range i \<Longrightarrow> parse_i64 (show_int i) = Some i"
proof -
  assume r: "i64_range i"
  have np: "hd (show_nat n) \<noteq> CHR ''-'' \<and> hd (show_nat n) \<noteq> CHR ''+''" for n
    using set_show_nat [OF hd_in_set [OF show_nat_not_Nil], of n] by (auto dest: sym)
  show ?thesis
  proof (cases "i < 0")
    case True
    then have "nat (- i) < 2 ^ 63 + 1" using r by (simp add: i64_range_def)
    then have "parse_radix 10 (2 ^ 63 + 1) (show_nat (nat (- i))) = Some (nat (- i))"
      by (rule parse_radix_show_nat)
    moreover obtain c cs where "show_nat (nat (- i)) = c # cs"
      by (cases "show_nat (nat (- i))") auto
    moreover from this have "c \<noteq> CHR ''+''" using np [of "nat (- i)"] by simp
    ultimately show ?thesis using True by (simp add: parse_i64_def show_int_def)
  next
    case False
    then have "nat i < 2 ^ 63" using r by (simp add: i64_range_def)
    then have "parse_radix 10 (2 ^ 63) (show_nat (nat i)) = Some (nat i)"
      by (rule parse_radix_show_nat)
    moreover obtain c cs where "show_nat (nat i) = c # cs" by (cases "show_nat (nat i)") auto
    moreover from this have "c \<noteq> CHR ''-''" using np [of "nat i"] by simp
    ultimately show ?thesis using False by (simp add: parse_i64_def show_int_def)
  qed
qed

lemma clean_show_int: "clean (show_int i)"
proof -
  have "CHR ''<'' \<notin> set (show_int i)"
    by (simp add: show_int_def show_nat_no_char)
  moreover have "trim (show_int i) = show_int i"
    by (rule trim_id) (simp_all add: show_int_def show_nat_no_ws [OF hd_in_set]
        show_nat_no_ws [OF last_in_set] is_ws_def [of "CHR ''-''"])
  ultimately show ?thesis by (simp add: clean_def)
qed

lemma group_elems_ok: "group_clean g \<Longrightarrow> list_all scalar_ok (group_elems g)"
  using clean_show_int by (simp add: group_elems_def group_clean_def clean_def scalar_ok_def)

lemma parse_group_render:
  assumes "group_clean g"
  shows "extract_scalar (group_content g) ''AutoScalingGroupName'' = Some (g_name g)"
    and "parse_group (g_name g) (group_content g) = g"
proof -
  note ok = group_elems_ok [OF assms]
  note ex = extract_scalar_elems [OF ok, of _ _ "elem ''Instances'' (render_instances (g_instances g))"]
  show "extract_scalar (group_content g) ''AutoScalingGroupName'' = Some (g_name g)"
    using ex [of "''AutoScalingGroupName''" "g_name g"] assms
    by (simp add: group_content_def group_elems_def group_clean_def clean_def)
  have trims: "trim (show_int i) = show_int i" for i using clean_show_int by (simp add: clean_def)
  have "extract_balanced (group_content g) ''Instances'' = Some (render_instances (g_instances g))"
    unfolding group_content_def elem_def append_assoc [symmetric]
  proof -
    have "\<not> contains (elems (group_elems g)) (open_tag ''Instances'')"
      using contains_elems(1) [of "''Instances''" "group_elems g" "[]"] ok by (simp add: group_elems_def)
    moreover have "balanced_in ''Instances'' (render_instances (g_instances g))"
      using assms by (intro balanced_text) (simp add: tag_free_def group_clean_def tag_free_instances)
    ultimately show "extract_balanced (((elems (group_elems g) @ open_tag ''Instances'') @
        render_instances (g_instances g)) @ close_tag ''Instances'') ''Instances'' = Some (render_instances (g_instances g))"
      using extract_balanced_element [of "''Instances''" _ _ "[]"] by simp
  qed
  moreover have "parse_i64_tag (group_content g) t = i"
    if "map_of (group_elems g) t = Some (show_int i)" "i64_range i" for t i
    using ex [OF that(1)] parse_i64_show_int [OF that(2)]
    by (simp add: parse_i64_tag_def group_content_def trims or_else_def)
  ultimately show "parse_group (g_name g) (group_content g) = g"
    using assms by (simp add: parse_group_def group_clean_def parse_instances_render group_elems_def)
qed

lemma balanced_members:
  assumes "list_all instance_clean is" "tag_free ''member'' pre" "tag_free ''member'' post"
    "tag_free ''member'' (pre @ post)"
  shows "balanced_in ''member'' (pre @ render_instances is @ post)"
  using assms
proof (induction "is" arbitrary: pre)
  case Nil
  then show ?case by (simp add: render_instances_def balanced_text)
next
  case (Cons i "is")
  have "balanced_in ''member'' ([] @ render_instances is @ post)"
    by (rule Cons.IH) (use Cons.prems in \<open>simp_all add: tag_free_def\<close>)
  then have rest: "balanced_in ''member'' (render_instances is @ post)" by simp
  have "balanced_in ''member'' (elems (instance_elems i))"
    using Cons.prems by (simp add: balanced_text member_free_instance)
  from balanced_nest [OF Cons.prems(2) this rest] show ?case by (simp add: render_instances_def render_instance_def elem_def)
qed

lemma group_content_balanced: "group_clean g \<Longrightarrow> balanced_in ''member'' (group_content g)"
proof -
  assume g: "group_clean g"
  have nin: "''member'' \<notin> fst ` set (group_elems g)" by (simp add: group_elems_def)
  note ce = contains_elems [OF _ group_elems_ok [OF g] nin, simplified]
  have "balanced_in ''member'' ((elems (group_elems g) @ open_tag ''Instances'') @
      render_instances (g_instances g) @ close_tag ''Instances'')"
    by (rule balanced_members)
      (use g in \<open>simp_all add: group_clean_def tag_free_def ce contains_tags_only contains_tags_last
        contains_tags_only [where r = "[]", simplified]\<close>)
  then show ?thesis by (simp add: group_content_def elem_def)
qed

lemma parse_asg_render:
  "list_all group_clean gs \<Longrightarrow> \<not> contains (pre @ post) (open_tag ''member'') \<Longrightarrow>
   \<not> contains pre (open_tag ''member'') \<Longrightarrow> \<not> contains post (open_tag ''member'') \<Longrightarrow>
   parse_asg_describe (pre @ concat (map render_group gs) @ post) = gs"
proof (induction gs arbitrary: pre)
  case Nil
  then show ?case by (subst parse_asg_describe.simps) (simp add: extract_balanced_None)
next
  case (Cons g gs)
  let ?rest = "concat (map render_group gs) @ post"
  have h: "pre @ concat (map render_group (g # gs)) @ post =
      pre @ open_tag ''member'' @ group_content g @ close_tag ''member'' @ ?rest"
    by (simp add: render_group_def elem_def)
  have "extract_balanced (pre @ concat (map render_group (g # gs)) @ post) ''member'' = Some (group_content g)"
    unfolding h using Cons.prems by (intro extract_balanced_element) (simp_all add: group_content_balanced)
  moreover have "after_element (pre @ concat (map render_group (g # gs)) @ post) ''member'' (group_content g) = ?rest"
    unfolding h using Cons.prems by (intro after_element_eq) simp_all
  moreover have "parse_asg_describe ([] @ ?rest) = gs"
    using Cons.prems by (intro Cons.IH) simp_all
  ultimately show ?case
    using Cons.prems(1) parse_group_render [of g]
    by (subst parse_asg_describe.simps) (simp del: map_append concat_append list.map concat.simps append_assoc)
qed

end
