(* ===== verification/Sample_Runs.thy ===== *)
theory Sample_Runs
  imports Samples Asg_Roundtrip
begin

text \<open>
  Further concrete runs and data: the weight file of the backend 10.0.0.23, a start and a
  synchronisation over a directory that holds it, a scraped backend, an ASG description, and a
  signed query.
\<close>

section \<open>The weight file of one backend\<close>

abbreviation sample_file :: string where
  "sample_file \<equiv> ''backend-'' @ show_ip 167772183 @ ''.weight''"

lemma sample_file_ip: "weight_file_ip sample_file = Some 167772183"
  by (rule weight_file_ip_of)

definition startup_answer :: "cmd \<Rightarrow> reply" where
  "startup_answer c =
     (case c of
        ReadDir d \<Rightarrow> Entries [Inr sample_file]
      | Redis (GET k) \<Rightarrow> Bulk (Some ''-1'')
      | Redis (ZRANGE k) \<Rightarrow> Scored [(show_word (3 :: u32), 1000), (show_word (4 :: u32), 800)]
      | ReadFile p \<Rightarrow> Text ''0''
      | _ \<Rightarrow> sample_answer c)"

definition sample_net :: slot_network where
  "sample_net = slot_network_new 167772160 20 24"

lemma startup_trace:
  "trace (answering startup_answer) (compute_from_leases ''w'' sample_net) () =
     [(Redis (ZRANGE KEY_LEASES), Scored [(show_word (3 :: u32), 1000), (show_word (4 :: u32), 800)]),
      (NowMs, Millis 900),
      (Redis (GET (key_owner (show_word (3 :: u32)))), Bulk (Some ''-1'')),
      (Redis (GET (key_owner (show_word (4 :: u32)))), Bulk (Some ''-1'')),
      (NowMs, Millis 900), (NowMs, Millis 900),
      (ReadDir ''w'', Entries [Inr sample_file]),
      (WriteFile (entry_path ''w'' sample_file) WEIGHT_ACTIVE, Done)]"
  "fst (exec (answering startup_answer) (compute_from_leases ''w'' sample_net) ()) = Inr ()"
  using sample_file_ip
  by (simp_all add: compute_from_leases_def leases_read_all_def startup_answer_def sample_run_defs
      for_dir_def next_entry_def compute_entry_def write_entry_def lease_weight_def read_lease_def
      resolve_owner_def member_slot_def or_else_def parse_u32_show score_u64_def is_expired_def
      sample_net_def slot_network_new_def ip_for_slot_def)

lemma trim_weights: "trim ''-1'' = ''-1''" "trim ''0'' = ''0''"
  by code_simp+

lemma backup_trace:
  "trace (answering startup_answer) (sync_from_redis ''w'') () =
     [(ReadDir ''w'', Entries [Inr sample_file]),
      (Redis (GET (weight_key (show_ip 167772183))), Bulk (Some ''-1'')),
      (ReadFile (entry_path ''w'' sample_file), Text ''0''),
      (WriteFile (entry_path ''w'' sample_file) ''-1'', Done)]"
  using weight_file_name_of [of "show_ip 167772183"]
  by (simp add: sync_from_redis_def read_weights_dir_def startup_answer_def sample_run_defs
      trim_weights for_dir_def next_entry_def sync_entry_def write_entry_def)

section \<open>The network and the daemon\<close>

definition sample_creds :: aws_credentials where
  "sample_creds = \<lparr>access_key_id = ''k'', secret_access_key = ''s'', session_token = None,
     expiration = None\<rparr>"

definition sample_daemon :: daemon_state where
  "sample_daemon = \<lparr>d_creds = sample_creds, d_scaler = scaler_default, d_orphans = (\<lambda>_. None),
     d_cache = (\<lambda>_. None), d_metrics = metrics_default\<rparr>"

section \<open>A scraped backend\<close>

definition sample_sample :: raw_sample where
  "sample_sample = \<lparr>rs_metric = ''ftp_sessions_total'', rs_value = 4, rs_kind = Gauge, rs_labels = []\<rparr>"

definition sample_backend_metrics :: backend_metrics where
  "sample_backend_metrics =
     \<lparr>bm_slot = 3, bm_ip = 167772183, bm_samples = [sample_sample], bm_docs = (\<lambda>_. None),
      bm_error = None\<rparr>"

definition sample_metrics :: metrics_state where
  "sample_metrics =
     \<lparr>ms_backends = [sample_backend_metrics], ms_rx_bps_raw = 0, ms_rx_bps_smoothed = 0\<rparr>"

section \<open>An ASG with one instance\<close>

definition sample_group :: asg_group where
  "sample_group = \<lparr>g_name = ''g'', g_desired_capacity = 2, g_min_size = 1, g_max_size = 4,
     g_instances = [\<lparr>ri_instance_id = ''i-a'', ri_availability_zone = ''eu-1a'',
       ri_lifecycle_state = ''InService'', ri_health_status = ''Healthy''\<rparr>]\<rparr>"

lemma sample_group_clean: "group_clean sample_group"
  by code_simp

lemma item_free: "tag_free ''item'' ''a''" "tag_free ''item'' ''b''" "tag_free ''item'' ''c''"
  by code_simp+

lemma nested_items: "balanced_in ''item'' (''a'' @ ''<item>'' @ ''b'' @ ''</item>'' @ ''c'')"
  using balanced_nest [OF item_free(1) balanced_text balanced_text, OF item_free(2,3)]
  by (simp add: open_tag_def close_tag_def)

section \<open>A signed query\<close>

definition sample_libs :: libs where
  "sample_libs = \<lparr>sha256 = (\<lambda>s. s), hmac = (@), hex_encode = (\<lambda>s. s), urlencode = (\<lambda>_. Inr ''q'')\<rparr>"

abbreviation sample_query :: "string rio" where
  "sample_query \<equiv> aws_query sample_libs ''20240101T000000Z'' ''20240101'' ''h'' ''sns'' ''eu'' sample_creds []"

abbreviation sample_query_trace :: "(cmd \<times> reply) list" where
  "sample_query_trace \<equiv> trace (answering (\<lambda>_. Http 200 ''ok'')) sample_query ()"

lemma sample_query_runs: "runs sample_query sample_query_trace (Inr ''ok'')"
proof -
  have "fst (exec (answering (\<lambda>_. Http 200 ''ok'')) sample_query ()) = Inr ''ok''"
    by (simp add: aws_query_def sample_libs_def with_ctx_def Let_def exec_attempt answering_def
        as_http_def is_success_def)
  then show ?thesis using runs_trace [of sample_query "answering (\<lambda>_. Http 200 ''ok'')" "()"] by simp
qed

end
