(* ===== verification/Findings.thy ===== *)
theory Findings
  imports Sample_Runs Cleanup_Pool
begin

text \<open>
  Concrete runs in which the code departs from what its comments say or from what it means to do.
  They are recorded as findings of the development.
\<close>

section \<open>Slots\<close>

text \<open>
  \<open>aeroslot\<close>, claim: a claimant that stalls in its sweep, while the owner renews the expired
  lease, puts the slot back into the free list: the slot is then both free and leased.
\<close>

lemma native_sweep_interrupted:
  "fst (snd lost_sweep) = Inr () \<and>
   free_at (pool_of (mem_view (snd (snd lost_sweep)))) ''7'' = Some 200 \<and>
   lease_at (pool_of (mem_view (snd (snd lost_sweep)))) ''7'' = Some 1200"
  using lost_sweep_run by simp

text \<open>\<open>aeroslot-lua\<close>, renew: an expired lease that no sweep has taken back yet is renewed.\<close>

lemma lua_renews_expired:
  "lease_at (pool_of (mem_view late)) ''7'' = Some 100 \<and> clock late = 200 \<and>
   fst (exec mem_script_srv (lua_cmd_renew 7 ''old'' 1000) late) = Inr ()"
  by (simp add: late_renewed_lua, simp add: late_def KEY_LEASES_def)

text \<open>
  \<open>aeroscale\<close>, the cleanup's release: decided on a snapshot, it takes the slot away from an
  instance that has claimed it since.
\<close>

lemma cleanup_release_overtaken:
  "lease_at (pool_of (mem_view (snd (exec mem_srv (claim_slot 200 ''i-b'' 1000) late)))) ''7'' = Some 1200 \<and>
   lease_at (pool_of (mem_view (snd overtaken))) ''7'' = None"
  using overtaken_claim overtaken_run by blast

section \<open>Messages and dry runs\<close>

text \<open>
  The notice of a release by the Lua tool carries no instance identifier, so the listener never
  terminates the instance.
\<close>

lemma lua_release_not_terminated:
  assumes "runs (on_message env net (Inr (Some (asg_change (show_word (slot :: u32)) ''release'' None)))) t u"
  shows "(AwsQuery h sv r ps, rp) \<notin> set t"
proof -
  have m: "runs (handle_message env net \<lparr>m_slot = slot, m_action = ''release'', m_instance_id = None\<rparr>) t u"
    using assms by (simp add: on_message_def msg_round_trip)
  from emits_runs [OF m handle_message_commands] show ?thesis by (auto simp: message_command_def)
qed

text \<open>A cycle of the master in a dry run writes the weights' time stamp to Redis.\<close>

lemma dry_run_still_writes:
  "da_dry_run sample_args \<and>
   (Redis (SET KEY_BACKEND_WEIGHTS_TS (show_word (900 :: u64))), Done) \<in>
     set (sample_trace (cycle_as sample_args net True st))"
  by (simp add: sample_args_def cycle_as_def act_on_def sample_run_defs collect_def
      weights_read_all_def leases_read_all_def asg_read_all_def describe_def ipvs_read_all_def
      persist_def redis_unit_def for_dir_def read_weights_dir_def cleanup_run_def section_21_def
      section_22_def section_23_def in_service_ids_def cleanup_env_of_def)

section \<open>The VRRP role\<close>

lemma show_vip: "show_ip 167772161 = ''10.0.0.1''"
  by (simp add: show_ip_def octet_def show_nat.simps digit_char_def) code_simp

text \<open>A node that holds 10.0.0.10 takes itself for the master of 10.0.0.1.\<close>

lemma vrrp_substring_master:
  "fst (exec (answering (\<lambda>_. Text ''inet 10.0.0.10/24 scope global eth1'')) (is_master 167772161) ()) = True \<and>
   show_ip 167772161 = ''10.0.0.1''"
  using contains_mid [of "''inet ''" "''10.0.0.1''" "''0/24 scope global eth1''"]
  by (simp add: is_master_def exec_bind answering_def decode_defs show_vip)

end
