(* ===== verification/Aeroplug.thy ===== *)
theory Aeroplug
  imports Files Asg
begin

text \<open>
  \<open>aeroplug/src/attach.rs\<close>: attaching, detaching and taking over a network interface (ENI), and
  \<open>aeroplug/src/assign_ip.rs\<close>: assigning and unassigning a secondary address.  Lines printed for
  the operator are not modelled; the argument parser guarantees one selector and one action.  The
  credentials come from a parameter (\<open>Aws.fetch_imds_credentials\<close> for some JSON reader), and the
  polling loop of the takeover takes fuel: \<open>None\<close> is a loop that has not ended.
\<close>

section \<open>Arguments\<close>

record eni_args =
  ea_eni_id :: "string option"
  ea_name :: "string option"
  ea_description :: "string option"
  ea_tag :: "string list"
  ea_slot :: "u32 option"
  ea_attach :: bool
  ea_detach :: bool
  ea_takeover :: bool
  ea_takeover_timeout :: u64
  ea_device_index :: u32
  ea_write_ip_file :: "string option"
  ea_force :: bool
  ea_region :: string

datatype eni_selector =
    EniId string
  | EniName string
  | EniDescription string
  | EniTags "(string \<times> string) list"
  | EniSlot u32

text \<open>The pairs of the \<open>--tag\<close> options; the first one that has no equals sign is the error.\<close>

fun tag_pairs :: "string list \<Rightarrow> (string \<times> string) list result" where
  "tag_pairs [] = Inr []"
| "tag_pairs (kv # kvs) =
     (case split_once (CHR ''='') kv of
        None \<Rightarrow> Inl (Bail (''--tag value '' @ single_quoted kv @ '' is not in key=value format''))
      | Some p \<Rightarrow> (case tag_pairs kvs of Inl e \<Rightarrow> Inl e | Inr ps \<Rightarrow> Inr (p # ps)))"

definition eni_selector_of :: "eni_args \<Rightarrow> eni_selector result" where
  "eni_selector_of a =
     (case ea_eni_id a of Some i \<Rightarrow> Inr (EniId i) | None \<Rightarrow>
     (case ea_name a of Some n \<Rightarrow> Inr (EniName n) | None \<Rightarrow>
     (case ea_description a of Some d \<Rightarrow> Inr (EniDescription d) | None \<Rightarrow>
      if ea_tag a \<noteq> []
      then (case tag_pairs (ea_tag a) of Inl e \<Rightarrow> Inl e | Inr ps \<Rightarrow> Inr (EniTags ps))
      else case ea_slot a of Some n \<Rightarrow> Inr (EniSlot n) | None \<Rightarrow>
        Inl (Bail (''No ENI selector provided (use --eni-id, --name, --description, --tag, ''
          @ ''or --slot)'')))))"

section \<open>EC2 calls\<close>

definition ec2_host :: "string \<Rightarrow> string" where
  "ec2_host region = ''ec2.'' @ region @ ''.amazonaws.com''"

definition ec2_call :: "string \<Rightarrow> (string \<times> string) list \<Rightarrow> string rio" where
  "ec2_call region ps = aws_call (ec2_host region) ''ec2'' region ps"

definition filter_params :: "u32 \<Rightarrow> string \<Rightarrow> string \<Rightarrow> (string \<times> string) list" where
  "filter_params n name v =
     [(''Filter.'' @ show_word n @ ''.Name'', name), (''Filter.'' @ show_word n @ ''.Value.1'', v)]"

fun tag_filters :: "u32 \<Rightarrow> (string \<times> string) list \<Rightarrow> (string \<times> string) list" where
  "tag_filters n [] = []"
| "tag_filters n ((k, v) # ps) = filter_params n (''tag:'' @ k) v @ tag_filters (n + 1) ps"

text \<open>The parameters of a selector, and the number of the next filter.\<close>

fun selector_params :: "eni_selector \<Rightarrow> (string \<times> string) list \<times> u32" where
  "selector_params (EniId i) = ([(''NetworkInterfaceId.1'', i)], 1)"
| "selector_params (EniName n) = (filter_params 1 ''tag:Name'' n, 2)"
| "selector_params (EniDescription d) = (filter_params 1 ''description'' d, 2)"
| "selector_params (EniTags ps) = (tag_filters 1 ps, 1 + word_of_nat (length ps))"
| "selector_params (EniSlot n) = (filter_params 1 ''tag:aeroftp-slot'' (show_word n), 2)"

definition describe_eni_params :: "eni_selector \<Rightarrow> string option \<Rightarrow> (string \<times> string) list" where
  "describe_eni_params sel status =
     (let (ps, n) = selector_params sel in
      [(''Action'', ''DescribeNetworkInterfaces''), (''Version'', ''2016-11-15'')] @ ps @
      (case status of None \<Rightarrow> [] | Some s \<Rightarrow> filter_params n ''status'' s))"

definition describe_eni_xml :: "string \<Rightarrow> eni_selector \<Rightarrow> string option \<Rightarrow> string rio" where
  "describe_eni_xml region sel status = ec2_call region (describe_eni_params sel status)"

text \<open>\<open>opt.context(m)?\<close> on an option.\<close>

definition need :: "string \<Rightarrow> 'a option \<Rightarrow> 'a result" where
  "need m x = (case x of None \<Rightarrow> Inl (Bail m) | Some a \<Rightarrow> Inr a)"

definition attachment_of :: "string \<Rightarrow> string option" where
  "attachment_of item_xml =
     Option.bind (extract_balanced item_xml ''attachment'') (\<lambda>a. extract_scalar a ''attachmentId'')"

definition resolve_eni ::
    "string \<Rightarrow> eni_selector \<Rightarrow> string option \<Rightarrow> (string \<times> string option) rio" where
  "resolve_eni region sel status =
     attempt (describe_eni_xml region sel status) (\<lambda>xml.
     attempt (Ret (need (''No ENI found matching the given selector'' @
         (case status of None \<Rightarrow> [] | Some s \<Rightarrow> '' with status '' @ single_quoted s) @
         ''. Check the ENI exists and the selector / region are correct.'')
       (extract_balanced xml ''item''))) (\<lambda>item_xml.
     attempt (Ret (need ''Could not extract networkInterfaceId''
       (extract_scalar item_xml ''networkInterfaceId''))) (\<lambda>eni_id.
     Ret (Inr (eni_id, extract_scalar item_xml ''privateIpAddress'')))))"

definition resolve_eni_for_detach :: "string \<Rightarrow> eni_selector \<Rightarrow> (string \<times> string) rio" where
  "resolve_eni_for_detach region sel =
     attempt (describe_eni_xml region sel (Some ''in-use'')) (\<lambda>xml.
     attempt (Ret (need (''No in-use ENI found matching the given selector. ''
         @ ''Is it actually attached? Check the selector and region.'')
       (extract_balanced xml ''item''))) (\<lambda>item_xml.
     attempt (Ret (need ''Could not extract networkInterfaceId''
       (extract_scalar item_xml ''networkInterfaceId''))) (\<lambda>eni_id.
     attempt (Ret (need (''ENI '' @ eni_id @ '' has no attachment block - is it actually attached?'')
       (attachment_of item_xml))) (\<lambda>attachment_id.
     Ret (Inr (eni_id, attachment_id))))))"

definition attach_params :: "string \<Rightarrow> string \<Rightarrow> u32 \<Rightarrow> (string \<times> string) list" where
  "attach_params iid eni_id device_index =
     [(''Action'', ''AttachNetworkInterface''), (''Version'', ''2016-11-15''),
      (''NetworkInterfaceId'', eni_id), (''InstanceId'', iid),
      (''DeviceIndex'', show_word device_index)]"

definition do_attach_eni :: "string \<Rightarrow> string \<Rightarrow> string \<Rightarrow> u32 \<Rightarrow> string rio" where
  "do_attach_eni region iid eni_id device_index =
     attempt (ec2_call region (attach_params iid eni_id device_index)) (\<lambda>xml.
     Ret (need ''Could not extract attachmentId from AttachNetworkInterface response''
       (extract_scalar xml ''attachmentId'')))"

definition show_bool :: "bool \<Rightarrow> string" where
  "show_bool b = (if b then ''true'' else ''false'')"

text \<open>The check of an answer that only says \<open>true\<close>, shared by three calls.\<close>

definition returned_true :: "string \<Rightarrow> string \<Rightarrow> unit result" where
  "returned_true action xml =
     (case extract_scalar xml ''return'' of
        None \<Rightarrow> Inl (Bail (''Could not parse '' @ action @ '' response:'' @ [newline] @ xml))
      | Some v \<Rightarrow>
          if v = ''true'' then Inr ()
          else Inl (Bail (action @ '' returned unexpected value: '' @ v)))"

definition detach_params :: "string \<Rightarrow> bool \<Rightarrow> (string \<times> string) list" where
  "detach_params attachment_id force =
     [(''Action'', ''DetachNetworkInterface''), (''Version'', ''2016-11-15''),
      (''AttachmentId'', attachment_id), (''Force'', show_bool force)]"

definition do_detach_eni :: "string \<Rightarrow> string \<Rightarrow> bool \<Rightarrow> unit rio" where
  "do_detach_eni region attachment_id force =
     attempt (ec2_call region (detach_params attachment_id force)) (\<lambda>xml.
     Ret (returned_true ''DetachNetworkInterface'' xml))"

section \<open>Polling\<close>

text \<open>
  The status that the loop looks at, and \<open>Instant::now() + Duration::from_secs(n)\<close>, which panics
  when the seconds do not fit 64 signed bits.
\<close>

definition eni_status :: "string \<Rightarrow> string option" where
  "eni_status xml = Option.bind (extract_balanced xml ''item'') (\<lambda>i. extract_scalar i ''status'')"

definition poll_params :: "string \<Rightarrow> (string \<times> string) list" where
  "poll_params eni_id =
     [(''Action'', ''DescribeNetworkInterfaces''), (''Version'', ''2016-11-15''),
      (''NetworkInterfaceId.1'', eni_id)]"

definition nanos_per_sec :: nat where
  "nanos_per_sec = 1000000000"

definition deadline_at :: "nat \<Rightarrow> u64 \<Rightarrow> nat result" where
  "deadline_at now secs =
     (if now div nanos_per_sec + unat secs < 2 ^ 63 then Inr (now + unat secs * nanos_per_sec)
      else Inl (Panicked ''overflow when adding duration to instant''))"

definition timed_out :: "u64 \<Rightarrow> string \<Rightarrow> err" where
  "timed_out timeout_secs eni_id =
     Bail (''Timed out after '' @ show_word timeout_secs @ '' s waiting for '' @ eni_id
       @ '' to become available. Check the AWS console and retry.'')"

fun poll_loop :: "nat \<Rightarrow> string \<Rightarrow> string \<Rightarrow> u64 \<Rightarrow> nat \<Rightarrow> unit result option io" where
  "poll_loop 0 region eni_id timeout_secs deadline = Ret None"
| "poll_loop (Suc n) region eni_id timeout_secs deadline =
     bind (ec2_call region (poll_params eni_id)) (\<lambda>x.
     case x of
       Inl e \<Rightarrow> Ret (Some (Inl e))
     | Inr xml \<Rightarrow>
         if eni_status xml = Some ''available'' then Ret (Some (Inr ()))
         else
           bind instant_now (\<lambda>now.
           if deadline \<le> now
           then Ret (Some (Inl (timed_out timeout_secs eni_id)))
           else Op (Sleep 2000) (\<lambda>_. poll_loop n region eni_id timeout_secs deadline)))"

definition poll_until_available :: "nat \<Rightarrow> string \<Rightarrow> string \<Rightarrow> u64 \<Rightarrow> unit result option io" where
  "poll_until_available fuel region eni_id timeout_secs =
     bind instant_now (\<lambda>now.
     case deadline_at now timeout_secs of
       Inl e \<Rightarrow> Ret (Some (Inl e))
     | Inr deadline \<Rightarrow> poll_loop fuel region eni_id timeout_secs deadline)"

section \<open>Actions\<close>

definition write_ip :: "eni_args \<Rightarrow> string option \<Rightarrow> unit rio" where
  "write_ip a private_ip =
     (case (ea_write_ip_file a, private_ip) of
        (Some path, Some ip) \<Rightarrow>
          attempt (create_parent ''Failed to create directory '' path) (\<lambda>_.
          put_file (''Failed to write IP to '' @ path) path ip)
      | _ \<Rightarrow> Ret (Inr ()))"

definition cmd_attach :: "eni_args \<Rightarrow> eni_selector \<Rightarrow> string \<Rightarrow> unit rio" where
  "cmd_attach a sel iid =
     attempt (resolve_eni (ea_region a) sel (Some ''available'')) (\<lambda>(eni_id, private_ip).
     attempt (do_attach_eni (ea_region a) iid eni_id (ea_device_index a)) (\<lambda>_.
     write_ip a private_ip))"

definition cmd_detach :: "eni_args \<Rightarrow> eni_selector \<Rightarrow> unit rio" where
  "cmd_detach a sel =
     attempt (resolve_eni_for_detach (ea_region a) sel) (\<lambda>(eni_id, attachment_id).
     do_detach_eni (ea_region a) attachment_id (ea_force a))"

text \<open>Step 1 of the takeover: the interface, its status, its address and its XML block.\<close>

definition takeover_target ::
    "string \<Rightarrow> eni_selector \<Rightarrow> (string \<times> string \<times> string option \<times> string) rio" where
  "takeover_target region sel =
     attempt (describe_eni_xml region sel None) (\<lambda>xml.
     attempt (Ret (need ''No ENI found matching the given selector. Check the selector and region.''
       (extract_balanced xml ''item''))) (\<lambda>item_xml.
     attempt (Ret (need ''Could not extract networkInterfaceId''
       (extract_scalar item_xml ''networkInterfaceId''))) (\<lambda>eni_id.
     attempt (Ret (need ''Could not extract ENI status'' (extract_scalar item_xml ''status'')))
       (\<lambda>current_status.
     Ret (Inr (eni_id, current_status, extract_scalar item_xml ''privateIpAddress'', item_xml))))))"

text \<open>Steps 2 and 3: take the interface from its holder and wait for it.\<close>

definition take_from_holder ::
    "nat \<Rightarrow> eni_args \<Rightarrow> string \<Rightarrow> string \<Rightarrow> string \<Rightarrow> unit result option io" where
  "take_from_holder fuel a eni_id current_status item_xml =
     (if current_status = ''in-use'' then
        fuelled (ended (Ret (need ''ENI is in-use but has no attachment block - cannot detach''
          (attachment_of item_xml)))) (\<lambda>attachment_id.
        fuelled (ended (do_detach_eni (ea_region a) attachment_id True)) (\<lambda>_.
        poll_until_available fuel (ea_region a) eni_id (ea_takeover_timeout a)))
      else if current_status = ''available'' then Ret (Some (Inr ()))
      else Ret (Some (Inl (Bail (''ENI '' @ eni_id @ '' has unexpected status ''
        @ single_quoted current_status @ ''; expected '' @ single_quoted ''in-use'' @ '' or ''
        @ single_quoted ''available'' @ ''.'')))))"

definition cmd_takeover :: "nat \<Rightarrow> eni_args \<Rightarrow> eni_selector \<Rightarrow> string \<Rightarrow> unit result option io" where
  "cmd_takeover fuel a sel iid =
     fuelled (ended (takeover_target (ea_region a) sel)) (\<lambda>(eni_id, current_status, private_ip, item_xml).
     fuelled (take_from_holder fuel a eni_id current_status item_xml) (\<lambda>_.
     fuelled (ended (do_attach_eni (ea_region a) iid eni_id (ea_device_index a))) (\<lambda>_.
     ended (write_ip a private_ip))))"

definition eni_run :: "nat \<Rightarrow> aws_credentials rio \<Rightarrow> eni_args \<Rightarrow> unit result option io" where
  "eni_run fuel fetch_creds a =
     fuelled (ended fetch_imds_instance_id) (\<lambda>iid.
     fuelled (ended fetch_creds) (\<lambda>creds.
     fuelled (ended (Ret (eni_selector_of a))) (\<lambda>sel.
     if ea_attach a then ended (cmd_attach a sel iid)
     else if ea_detach a then ended (cmd_detach a sel)
     else cmd_takeover fuel a sel iid)))"

section \<open>Secondary addresses\<close>

record ip_args =
  ia_ip :: string
  ia_eni :: "string option"
  ia_assign :: bool
  ia_unassign :: bool
  ia_allow_reassignment :: bool
  ia_region :: string

definition fetch_primary_eni_id :: "string rio" where
  "fetch_primary_eni_id =
     attempt fetch_imds_token (\<lambda>token.
     attempt (ctx ''Failed to fetch primary MAC address from IMDS'' (fetch_imds_path token ''mac''))
       (\<lambda>mac.
     ctx (''Failed to fetch ENI ID for MAC '' @ mac @ '' from IMDS'')
       (fetch_imds_path token (''network/interfaces/macs/'' @ mac @ ''/interface-id''))))"

definition assign_params :: "string \<Rightarrow> string \<Rightarrow> bool \<Rightarrow> (string \<times> string) list" where
  "assign_params eni_id ip allow_reassignment =
     [(''Action'', ''AssignPrivateIpAddresses''), (''Version'', ''2016-11-15''),
      (''NetworkInterfaceId'', eni_id), (''PrivateIpAddress.1'', ip),
      (''AllowReassignment'', show_bool allow_reassignment)]"

definition assign_secondary_ip :: "string \<Rightarrow> string \<Rightarrow> string \<Rightarrow> bool \<Rightarrow> unit rio" where
  "assign_secondary_ip region eni_id ip allow_reassignment =
     attempt (ec2_call region (assign_params eni_id ip allow_reassignment)) (\<lambda>xml.
     Ret (returned_true ''AssignPrivateIpAddresses'' xml))"

definition unassign_params :: "string \<Rightarrow> string \<Rightarrow> (string \<times> string) list" where
  "unassign_params eni_id ip =
     [(''Action'', ''UnassignPrivateIpAddresses''), (''Version'', ''2016-11-15''),
      (''NetworkInterfaceId'', eni_id), (''PrivateIpAddress.1'', ip)]"

definition unassign_secondary_ip :: "string \<Rightarrow> string \<Rightarrow> string \<Rightarrow> unit rio" where
  "unassign_secondary_ip region eni_id ip =
     attempt (ec2_call region (unassign_params eni_id ip)) (\<lambda>xml.
     Ret (returned_true ''UnassignPrivateIpAddresses'' xml))"

definition ip_run :: "aws_credentials rio \<Rightarrow> ip_args \<Rightarrow> unit rio" where
  "ip_run fetch_creds a =
     attempt fetch_creds (\<lambda>creds.
     attempt (case ia_eni a of Some i \<Rightarrow> Ret (Inr i) | None \<Rightarrow> fetch_primary_eni_id) (\<lambda>eni_id.
     if ia_assign a
     then assign_secondary_ip (ia_region a) eni_id (ia_ip a) (ia_allow_reassignment a)
     else unassign_secondary_ip (ia_region a) eni_id (ia_ip a)))"

datatype plug_command = PlugIp ip_args | PlugEni eni_args

definition plug_main :: "nat \<Rightarrow> aws_credentials rio \<Rightarrow> plug_command \<Rightarrow> unit result option io" where
  "plug_main fuel fetch_creds c =
     (case c of PlugIp a \<Rightarrow> ended (ip_run fetch_creds a) | PlugEni a \<Rightarrow> eni_run fuel fetch_creds a)"

end
