(* ===== verification/Aeroplug_Safety.thy ===== *)
theory Aeroplug_Safety
  imports Aeroplug
begin

text \<open>
  What the ENI tool guarantees: an interface is attached only right after EC2 has reported it
  available, it is taken from a holder only when it was in use, polling changes nothing and ends
  when the clock advances, and the parameters of a query never repeat a name.
\<close>

section \<open>Single calls\<close>

lemma need_Inr [simp]: "(need m x = Inr a) = (x = Some a)" "(Inr a = need m x) = (x = Some a)"
  by (auto simp: need_def split: option.splits)

lemma as_text_Inl_cases: "(as_text mk r = Inl e) \<Longrightarrow> (\<nexists>s. r = Text s)"
  by (auto simp: decode_defs)

lemma runs_ec2_call:
  "runs (ec2_call region ps) t x \<longleftrightarrow>
     (\<exists>r. t = [(AwsQuery (ec2_host region) ''ec2'' region ps, r)] \<and> x = as_text LibFault r)"
  by (auto simp: ec2_call_def aws_call_def runs_call)

lemma emits_ec2_call [simp]:
  "emits P (ec2_call region ps) = P (AwsQuery (ec2_host region) ''ec2'' region ps)"
  by (simp add: ec2_call_def)

section \<open>Parameters\<close>

lemma attach_params_inj:
  "attach_params i e d = attach_params i' e' d' \<longleftrightarrow> i = i' \<and> e = e' \<and> d = d'"
  by (auto simp: attach_params_def show_word_inj)

lemma describe_eni_params_action:
  "\<exists>rest. describe_eni_params sel st = (''Action'', ''DescribeNetworkInterfaces'') # rest"
  by (auto simp: describe_eni_params_def split_beta)

lemma attach_not_others:
  "attach_params i e d \<noteq> poll_params x" "attach_params i e d \<noteq> detach_params y f"
  "attach_params i e d \<noteq> describe_eni_params sel st"
  using describe_eni_params_action [of sel st]
  by (auto simp: attach_params_def poll_params_def detach_params_def)

lemma detach_not_others:
  "detach_params y f \<noteq> poll_params x" "detach_params y f \<noteq> attach_params i e d"
  "detach_params y f \<noteq> describe_eni_params sel st"
  using describe_eni_params_action [of sel st]
  by (auto simp: attach_params_def poll_params_def detach_params_def)

lemma describes_do_not_change:
  "\<not> mutates (AwsQuery h s r (describe_eni_params sel st))" "\<not> mutates (AwsQuery h s r (poll_params x))"
  using describe_eni_params_action [of sel st]
  by (auto simp: aws_action_def poll_params_def starts_with_iff)

section \<open>Polling\<close>

text \<open>Polling only asks, looks at the clock and sleeps.\<close>

definition poll_command :: "string \<Rightarrow> string \<Rightarrow> cmd \<Rightarrow> bool" where
  "poll_command region eni_id c \<longleftrightarrow>
     c = AwsQuery (ec2_host region) ''ec2'' region (poll_params eni_id) \<or> c = NowInstant \<or> c = Sleep 2000"

lemma emits_poll_loop: "emits (poll_command region eni_id) (poll_loop n region eni_id secs dl)"
  by (induction n) (auto intro!: emits_bindI simp: poll_command_def split: sum.splits)

lemma emits_poll: "emits (poll_command region eni_id) (poll_until_available n region eni_id secs)"
  unfolding poll_until_available_def
  by (auto intro!: emits_bindI emits_poll_loop split: sum.splits) (simp add: poll_command_def)

lemma poll_commands_harmless: "poll_command region eni_id c \<Longrightarrow> \<not> mutates c"
  by (auto simp: poll_command_def describes_do_not_change simp del: mutates.simps(2))

text \<open>A successful end of the polling: the last answer says that the interface is available.\<close>

definition seen_available :: "string \<Rightarrow> (string \<times> string) list set \<Rightarrow> (cmd \<times> reply) list \<Rightarrow> bool" where
  "seen_available region queries t \<longleftrightarrow>
     (\<exists>t' ps xml. t = t' @ [(AwsQuery (ec2_host region) ''ec2'' region ps, Text xml)] \<and>
        ps \<in> queries \<and> eni_status xml = Some ''available'')"

lemma seen_available_append: "seen_available region Q t \<Longrightarrow> seen_available region Q (u @ t)"
  unfolding seen_available_def by (metis append_assoc)

lemma seen_available_mono: "seen_available region Q t \<Longrightarrow> Q \<subseteq> Q' \<Longrightarrow> seen_available region Q' t"
  unfolding seen_available_def by blast

text \<open>One turn of the loop: it ends, or it has looked at the clock before the deadline and goes on.\<close>

lemma poll_loop_step:
  assumes "runs (poll_loop (Suc n) region eni_id secs dl) t x"
  obtains (failed) e r where "x = Some (Inl e)"
      "t = [(AwsQuery (ec2_host region) ''ec2'' region (poll_params eni_id), r)]"
  | (available) xml where "x = Some (Inr ())" "eni_status xml = Some ''available''"
      "t = [(AwsQuery (ec2_host region) ''ec2'' region (poll_params eni_id), Text xml)]"
  | (timeout) e xml r where "x = Some (Inl e)" "dl \<le> as_nanos r"
      "t = [(AwsQuery (ec2_host region) ''ec2'' region (poll_params eni_id), Text xml), (NowInstant, r)]"
  | (again) xml r r' t' where "as_nanos r < dl" "runs (poll_loop n region eni_id secs dl) t' x"
      "t = [(AwsQuery (ec2_host region) ''ec2'' region (poll_params eni_id), Text xml), (NowInstant, r),
        (Sleep 2000, r')] @ t'"
proof -
  let ?q = "AwsQuery (ec2_host region) ''ec2'' region (poll_params eni_id)"
  obtain r t' where t: "t = (?q, r) # t'" and rest: "runs (case as_text LibFault r of
        Inl e \<Rightarrow> Ret (Some (Inl e))
      | Inr xml \<Rightarrow>
          if eni_status xml = Some ''available'' then Ret (Some (Inr ()))
          else bind instant_now (\<lambda>now. if dl \<le> now
            then Ret (Some (Inl (timed_out secs eni_id)))
            else Op (Sleep 2000) (\<lambda>_. poll_loop n region eni_id secs dl))) t' x"
    using assms by (auto simp: runs_bind_iff runs_ec2_call)
  show ?thesis
  proof (cases "as_text LibFault r")
    case (Inl e)
    then show ?thesis using t rest failed by auto
  next
    case (Inr xml)
    then have r: "r = Text xml" by (simp add: decode_Inr)
    show ?thesis
    proof (cases "eni_status xml = Some ''available''")
      case True
      then show ?thesis using t rest Inr r available by auto
    next
      case False
      then obtain now t2 where "t' = (NowInstant, now) # t2"
          "runs (if dl \<le> as_nanos now then Ret (Some (Inl (timed_out secs eni_id)))
            else Op (Sleep 2000) (\<lambda>_. poll_loop n region eni_id secs dl)) t2 x"
        using rest Inr by (auto simp: instant_now_def runs_Op_iff)
      then show ?thesis
        using t r timeout again by (cases "dl \<le> as_nanos now") (auto simp: runs_Op_iff not_le)
    qed
  qed
qed

lemma poll_loop_success:
  "runs (poll_loop n region eni_id secs dl) t (Some (Inr u)) \<Longrightarrow>
   seen_available region {poll_params eni_id} t"
proof (induction n arbitrary: t)
  case (Suc n)
  from Suc.prems show ?case
  proof (cases rule: poll_loop_step)
    case (again xml r r' t')
    then show ?thesis using Suc.IH seen_available_append by metis
  qed (auto simp: seen_available_def)
qed simp

lemma poll_success:
  assumes "runs (poll_until_available n region eni_id secs) t (Some (Inr u))"
  shows "seen_available region {poll_params eni_id} t"
proof -
  obtain t1 t2 dl where "t = t1 @ t2" "runs (poll_loop n region eni_id secs dl) t2 (Some (Inr u))"
    using assms unfolding poll_until_available_def by (auto elim!: runs_bindE split: sum.splits)
  then show ?thesis using poll_loop_success seen_available_append by blast
qed

text \<open>
  The loop ends: while it goes on, every reading of the clock is before the deadline, and a clock
  that advances by the two seconds of the sleep between readings passes the deadline.
\<close>

definition clock_readings :: "(cmd \<times> reply) list \<Rightarrow> nat list" where
  "clock_readings t = map (\<lambda>x. as_nanos (snd x)) (filter (\<lambda>x. fst x = NowInstant) t)"

fun spaced :: "nat list \<Rightarrow> bool" where
  "spaced (a # b # rs) = (a + 2 * nanos_per_sec \<le> b \<and> spaced (b # rs))"
| "spaced rs = True"

lemma clock_readings_simps [simp]:
  "clock_readings [] = []"
  "clock_readings (x # t) = (if fst x = NowInstant then [as_nanos (snd x)] else []) @ clock_readings t"
  "clock_readings (t @ u) = clock_readings t @ clock_readings u"
  by (auto simp: clock_readings_def)

lemma poll_loop_starved:
  "runs (poll_loop n region eni_id secs dl) t None \<Longrightarrow>
   length (clock_readings t) = n \<and> (\<forall>r \<in> set (clock_readings t). r < dl)"
proof (induction n arbitrary: t)
  case (Suc n)
  from Suc.prems show ?case
    by (cases rule: poll_loop_step) (use Suc.IH in auto)
qed simp

lemma spaced_far: "spaced (r # rs) \<Longrightarrow> r + 2 * nanos_per_sec * length rs \<le> last (r # rs)"
proof (induction rs arbitrary: r)
  case (Cons a rs)
  have "r + 2 * nanos_per_sec \<le> a" "spaced (a # rs)" using Cons.prems by simp_all
  moreover from this(2) have "a + 2 * nanos_per_sec * length rs \<le> last (a # rs)" by (rule Cons.IH)
  ultimately show ?case by (simp only: last.simps list.distinct if_False length_Cons mult_Suc_right)
qed simp

lemma poll_ends:
  assumes "runs (poll_until_available n region eni_id secs) t x"
    and "clock_readings t = now # later" "\<forall>r \<in> set later. now \<le> r" "spaced later"
    and "unat secs div 2 + 1 < n"
  shows "x \<noteq> None"
proof
  assume "x = None"
  with assms(1) obtain r t2 where t: "t = (NowInstant, r) # t2"
    and rest: "runs (case deadline_at (as_nanos r) secs of Inl e \<Rightarrow> Ret (Some (Inl e))
      | Inr dl \<Rightarrow> poll_loop n region eni_id secs dl) t2 None"
    by (auto simp: poll_until_available_def instant_now_def runs_Op_iff)
  from rest obtain dl where dl: "deadline_at (as_nanos r) secs = Inr dl"
    and loop: "runs (poll_loop n region eni_id secs dl) t2 None"
    by (cases "deadline_at (as_nanos r) secs") auto
  have now: "now = as_nanos r" "clock_readings t2 = later" using assms(2) t by auto
  have d: "dl = now + unat secs * nanos_per_sec"
    using dl now by (auto simp: deadline_at_def split: if_splits)
  have later: "length later = n" "\<forall>r \<in> set later. r < dl"
    using poll_loop_starved [OF loop] now by auto
  obtain a rs where l: "later = a # rs" using later(1) assms(5) by (cases later) auto
  have "now + 2 * nanos_per_sec * length rs \<le> last later"
    using spaced_far [of a rs] assms(3,4) l by auto
  also have "\<dots> < now + unat secs * nanos_per_sec"
    using later(2) d l last_in_set [of later] by (metis list.distinct(1))
  finally have "2 * length rs < unat secs" by (simp add: nanos_per_sec_def)
  then show False using later(1) l assms(5) by auto
qed

section \<open>Takeover\<close>

lemma target_status:
  assumes "runs (takeover_target region sel) t (Inr (eni_id, status, ip, item_xml))"
  shows "\<exists>xml. t = [(AwsQuery (ec2_host region) ''ec2'' region (describe_eni_params sel None), Text xml)] \<and>
    extract_balanced xml ''item'' = Some item_xml \<and> eni_status xml = Some status \<and>
    extract_scalar item_xml ''networkInterfaceId'' = Some eni_id"
  using assms
  by (auto simp: takeover_target_def describe_eni_xml_def runs_attempt_iff runs_ec2_call
      decode_Inr eni_status_def dest!: sym [of "Inr _"])

lemma do_detach_trace:
  "runs (do_detach_eni region att force) t x \<Longrightarrow>
   \<exists>r. t = [(AwsQuery (ec2_host region) ''ec2'' region (detach_params att force), r)]"
  by (auto simp: do_detach_eni_def runs_attempt_iff runs_ec2_call)

lemma do_attach_trace:
  "runs (do_attach_eni region iid eni_id dev) t x \<Longrightarrow>
   \<exists>r. t = [(AwsQuery (ec2_host region) ''ec2'' region (attach_params iid eni_id dev), r)]"
  by (auto simp: do_attach_eni_def runs_attempt_iff runs_ec2_call)

text \<open>Taking the interface: nothing when it is available, a forced detach and polling when in use.\<close>

lemma take_from_holder_runs:
  assumes "runs (take_from_holder fuel a eni_id status item_xml) t x"
  shows "t = [] \<and> (x = Some (Inr ()) \<longrightarrow> status = ''available'') \<or>
    status = ''in-use'' \<and> (\<exists>att r t'. attachment_of item_xml = Some att \<and>
      t = (AwsQuery (ec2_host (ea_region a)) ''ec2'' (ea_region a) (detach_params att True), r) # t' \<and>
      (\<forall>(c, rp) \<in> set t'. poll_command (ea_region a) eni_id c) \<and>
      (x = Some (Inr ()) \<longrightarrow> seen_available (ea_region a) {poll_params eni_id} t'))"
proof (cases "status = ''in-use''")
  case True
  with assms have "runs (fuelled (ended (Ret (need ''ENI is in-use but has no attachment block - cannot detach''
      (attachment_of item_xml)))) (\<lambda>att. fuelled (ended (do_detach_eni (ea_region a) att True)) (\<lambda>_.
      poll_until_available fuel (ea_region a) eni_id (ea_takeover_timeout a)))) t x"
    by (simp add: take_from_holder_def)
  then show ?thesis
  proof (cases rule: runs_fuelledE)
    case (ok t1 t2 att)
    then have att: "t1 = []" "attachment_of item_xml = Some att"
      by (auto simp: runs_ended)
    from ok(3) show ?thesis
    proof (cases rule: runs_fuelledE)
      case (ok u1 u2 u)
      obtain r where "u1 = [(AwsQuery (ec2_host (ea_region a)) ''ec2'' (ea_region a) (detach_params att True), r)]"
        using ok(2) do_detach_trace by (fastforce simp: runs_ended)
      moreover have "\<forall>(c, rp) \<in> set u2. poll_command (ea_region a) eni_id c"
        using emits_runs [OF ok(3) emits_poll] by auto
      ultimately show ?thesis using True att ok poll_success \<open>t = t1 @ t2\<close> by fastforce
    qed (use True att \<open>t = t1 @ t2\<close> do_detach_trace in \<open>fastforce simp: runs_ended\<close>)+
  qed (auto simp: runs_ended)
next
  case False
  then show ?thesis using assms by (auto simp: take_from_holder_def split: if_splits)
qed

lemma write_ip_no_aws:
  assumes "runs (write_ip a ip) t x"
  shows "\<forall>(c, rp) \<in> set t. \<forall>h s rg ps. c \<noteq> AwsQuery h s rg ps"
proof -
  have "emits (\<lambda>c. \<forall>h s rg ps. c \<noteq> AwsQuery h s rg ps) (write_ip a ip)"
    by (auto simp: write_ip_def intro!: emits_attemptI split: option.splits)
  from emits_runs [OF assms this] show ?thesis by blast
qed

text \<open>
  The interface is attached to this instance only, and only when the answer just before says that
  it is available; it is detached from a holder only when it was in use.
\<close>

lemma takeover_parts:
  assumes "runs (cmd_takeover fuel a sel iid) t x" "t \<noteq> []"
  obtains (no_target) "\<forall>(c, r) \<in> set t. \<not> mutates c"
  | (target) xml item_xml eni_id status t1 t2 y where
      "t = (AwsQuery (ec2_host (ea_region a)) ''ec2'' (ea_region a) (describe_eni_params sel None), Text xml)
         # t1 @ t2"
      "extract_balanced xml ''item'' = Some item_xml" "eni_status xml = Some status"
      "extract_scalar item_xml ''networkInterfaceId'' = Some eni_id"
      "runs (take_from_holder fuel a eni_id status item_xml) t1 y"
      "t2 \<noteq> [] \<Longrightarrow> y = Some (Inr ())"
      "t2 = [] \<or> (\<exists>r t3. t2 = (AwsQuery (ec2_host (ea_region a)) ''ec2'' (ea_region a)
          (attach_params iid eni_id (ea_device_index a)), r) # t3 \<and>
          (\<forall>(c, rp) \<in> set t3. \<forall>h s rg ps. c \<noteq> AwsQuery h s rg ps))"
proof -
  have reads: "emits (\<lambda>c. \<not> mutates c) (takeover_target (ea_region a) sel)"
    by (auto simp: takeover_target_def describe_eni_xml_def describes_do_not_change
        intro!: emits_attemptI simp del: mutates.simps(2))
  from assms(1) show ?thesis unfolding cmd_takeover_def
  proof (cases rule: runs_fuelledE)
    case (err e)
    then show ?thesis using emits_runs [OF _ reads] no_target by (fastforce simp: runs_ended)
  next
    case (ok t1 u v)
    obtain eni_id status ip item_xml where v: "v = (eni_id, status, ip, item_xml)" by (cases v)
    then obtain xml where xml: "t1 = [(AwsQuery (ec2_host (ea_region a)) ''ec2'' (ea_region a)
          (describe_eni_params sel None), Text xml)]" "extract_balanced xml ''item'' = Some item_xml"
        "eni_status xml = Some status" "extract_scalar item_xml ''networkInterfaceId'' = Some eni_id"
      using target_status ok(2) by (fastforce simp: runs_ended)
    note tgt = target [OF _ xml(2-4)]
    from ok(3) have "runs (fuelled (take_from_holder fuel a eni_id status item_xml) (\<lambda>_.
        fuelled (ended (do_attach_eni (ea_region a) iid eni_id (ea_device_index a))) (\<lambda>_.
        ended (write_ip a ip)))) u x" by (simp add: v)
    then show ?thesis
    proof (cases rule: runs_fuelledE)
      case starved
      then show ?thesis using tgt [of u "[]" None] ok(1) xml(1) by simp
    next
      case (err e)
      then show ?thesis using tgt [of u "[]" "Some (Inl e)"] ok(1) xml(1) by simp
    next
      case (ok u1 u2 w)
      have "u2 = [] \<or> (\<exists>r t3. u2 = (AwsQuery (ec2_host (ea_region a)) ''ec2'' (ea_region a)
          (attach_params iid eni_id (ea_device_index a)), r) # t3 \<and>
          (\<forall>(c, rp) \<in> set t3. \<forall>h s rg ps. c \<noteq> AwsQuery h s rg ps))"
        using ok(3)
      proof (cases rule: runs_fuelledE)
        case (err e)
        then show ?thesis using do_attach_trace by (fastforce simp: runs_ended)
      next
        case (ok w1 w2 z)
        obtain r where "w1 = [(AwsQuery (ec2_host (ea_region a)) ''ec2'' (ea_region a)
            (attach_params iid eni_id (ea_device_index a)), r)]"
          using ok(2) do_attach_trace by (fastforce simp: runs_ended)
        moreover have "\<forall>(c, rp) \<in> set w2. \<forall>h s rg ps. c \<noteq> AwsQuery h s rg ps"
          using ok(3) write_ip_no_aws by (fastforce simp: runs_ended)
        ultimately show ?thesis using ok(1) by auto
      qed (auto simp: runs_ended)
      then show ?thesis using tgt [of u1 u2 "Some (Inr ())"] ok \<open>t = t1 @ u\<close> xml(1) by simp
    qed
  qed (auto simp: runs_ended)
qed

lemma take_no_attach:
  assumes "runs (take_from_holder fuel a eni_id status item_xml) t x"
  shows "(AwsQuery h s r (attach_params i e d), rp) \<notin> set t"
proof -
  have "\<not> poll_command (ea_region a) eni_id (AwsQuery h s r (attach_params i e d))"
    by (auto simp: poll_command_def attach_not_others)
  then show ?thesis
    using take_from_holder_runs [OF assms] by (auto simp: attach_not_others)
qed

lemma attach_changes: "mutates (AwsQuery h s r (attach_params i e d))"
  by (simp add: aws_action_def attach_params_def starts_with_iff)

lemma takeover_attaches:
  assumes "runs (cmd_takeover fuel a sel iid) t x" "(AwsQuery h s r (attach_params i e d), rp) \<in> set t"
  shows "\<exists>t1 t2. t = t1 @ (AwsQuery h s r (attach_params i e d), rp) # t2 \<and>
    i = iid \<and> d = ea_device_index a \<and>
    seen_available (ea_region a) {describe_eni_params sel None, poll_params e} t1"
proof -
  have "t \<noteq> []" using assms(2) by auto
  with assms(1) show ?thesis
  proof (cases rule: takeover_parts)
    case no_target
    then show ?thesis using assms(2) attach_changes by fastforce
  next
    case (target xml item_xml eni_id status t1 t2 y)
    let ?q = "AwsQuery (ec2_host (ea_region a)) ''ec2'' (ea_region a)"
    let ?d = "(?q (describe_eni_params sel None), Text xml)"
    have in2: "(AwsQuery h s r (attach_params i e d), rp) \<in> set t2"
      using assms(2) target(1) take_no_attach [OF target(5), of h s r i e d rp]
      by (auto simp: attach_not_others)
    then obtain r' t3 where t2: "t2 = (?q (attach_params iid eni_id (ea_device_index a)), r') # t3"
        "\<forall>(c, rp) \<in> set t3. \<forall>h s rg ps. c \<noteq> AwsQuery h s rg ps"
      using target(7) by auto
    with in2 have eq: "AwsQuery h s r (attach_params i e d) = ?q (attach_params iid eni_id (ea_device_index a))"
        "rp = r'" by (fastforce simp: attach_params_inj)+
    then have e: "e = eni_id" "i = iid" "d = ea_device_index a" by (auto simp: attach_params_inj)
    have "y = Some (Inr ())" using target(6) t2(1) by simp
    then have "(t1 = [] \<and> status = ''available'') \<or>
        seen_available (ea_region a) {poll_params eni_id} t1"
      using take_from_holder_runs [OF target(5)] seen_available_append [of _ _ _ "[_]"] by auto
    then have "seen_available (ea_region a) {describe_eni_params sel None, poll_params e} (?d # t1)"
    proof
      assume "t1 = [] \<and> status = ''available''"
      then show ?thesis using target(3) by (auto simp: seen_available_def)
    next
      assume "seen_available (ea_region a) {poll_params eni_id} t1"
      then have "seen_available (ea_region a) {poll_params eni_id} ([?d] @ t1)"
        by (rule seen_available_append)
      then show ?thesis using seen_available_mono e(1) by fastforce
    qed
    moreover have "t = (?d # t1) @ (AwsQuery h s r (attach_params i e d), rp) # t3"
      using target(1) t2(1) eq by simp
    ultimately show ?thesis using e by blast
  qed
qed

text \<open>A detach is issued only for an interface that was in use, with the attachment it showed.\<close>

lemma takeover_detaches:
  assumes "runs (cmd_takeover fuel a sel iid) t x" "(AwsQuery h s r (detach_params att f), rp) \<in> set t"
  shows "f \<and> (\<exists>xml item_xml t'.
    t = (AwsQuery (ec2_host (ea_region a)) ''ec2'' (ea_region a) (describe_eni_params sel None), Text xml) # t' \<and>
    eni_status xml = Some ''in-use'' \<and> extract_balanced xml ''item'' = Some item_xml \<and>
    attachment_of item_xml = Some att)"
proof -
  have m: "mutates (AwsQuery h s r (detach_params att f))"
    by (simp add: aws_action_def detach_params_def starts_with_iff)
  have "t \<noteq> []" using assms(2) by auto
  with assms(1) show ?thesis
  proof (cases rule: takeover_parts)
    case no_target
    then show ?thesis using assms(2) m by fastforce
  next
    case (target xml item_xml eni_id status t1 t2 y)
    have "(AwsQuery h s r (detach_params att f), rp) \<notin> set t2"
      using target(7) by (fastforce simp: detach_not_others)
    then have in1: "(AwsQuery h s r (detach_params att f), rp) \<in> set t1"
      using assms(2) target(1) by (auto simp: detach_not_others)
    have np: "\<not> poll_command (ea_region a) eni_id (AwsQuery h s r (detach_params att f))"
      by (auto simp: poll_command_def detach_not_others)
    obtain att' r' t' where "status = ''in-use''" "attachment_of item_xml = Some att'"
        "t1 = (AwsQuery (ec2_host (ea_region a)) ''ec2'' (ea_region a) (detach_params att' True), r') # t'"
        "\<forall>(c, rp) \<in> set t'. poll_command (ea_region a) eni_id c"
      using take_from_holder_runs [OF target(5)] in1 by auto
    moreover from this have "att' = att \<and> f"
      using in1 np by (auto simp: detach_params_def show_bool_def split: if_splits)
    ultimately show ?thesis using target(1-3) by auto
  qed
qed

section \<open>Attaching and the other actions\<close>

text \<open>A plain attach asks for available interfaces only.\<close>

lemma attach_asks_available:
  assumes "runs (cmd_attach a sel iid) t x" "(AwsQuery h s r (attach_params i e d), rp) \<in> set t"
  shows "\<exists>xml t'. i = iid \<and> d = ea_device_index a \<and>
    t = (AwsQuery (ec2_host (ea_region a)) ''ec2'' (ea_region a)
          (describe_eni_params sel (Some ''available'')), Text xml) #
        (AwsQuery h s r (attach_params i e d), rp) # t'"
proof -
  let ?q = "AwsQuery (ec2_host (ea_region a)) ''ec2'' (ea_region a)"
  have target: "\<exists>r. t = [(?q (describe_eni_params sel st), r)]"
    if "runs (resolve_eni (ea_region a) sel st) t x" for t x st
    using that by (auto simp: resolve_eni_def describe_eni_xml_def runs_attempt_iff runs_ec2_call)
  have answered: "\<exists>xml. t = [(?q (describe_eni_params sel st), Text xml)]"
    if "runs (resolve_eni (ea_region a) sel st) t (Inr z)" for t z st
    using that
    by (auto simp: resolve_eni_def describe_eni_xml_def runs_attempt_iff runs_ec2_call decode_Inr
        dest!: sym [of "Inr _"])
  from assms(1) show ?thesis unfolding cmd_attach_def
  proof (cases rule: runs_attemptE)
    case (err e')
    then show ?thesis using target assms(2) by (fastforce simp: attach_not_others)
  next
    case (ok t1 t2 z)
    obtain eni_id ip where z: "z = (eni_id, ip)" by (cases z)
    obtain xml where t1: "t1 = [(?q (describe_eni_params sel (Some ''available'')), Text xml)]"
      using answered ok(2) by blast
    have "runs (attempt (do_attach_eni (ea_region a) iid eni_id (ea_device_index a)) (\<lambda>_. write_ip a ip)) t2 x"
      using ok(3) by (simp add: z)
    then have "\<exists>r' t3. t2 = (?q (attach_params iid eni_id (ea_device_index a)), r') # t3 \<and>
        (\<forall>(c, rp) \<in> set t3. \<forall>h s rg ps. c \<noteq> AwsQuery h s rg ps)"
    proof (cases rule: runs_attemptE)
      case (err e')
      then show ?thesis using do_attach_trace by fastforce
    next
      case (ok u1 u2 w)
      then show ?thesis using do_attach_trace [OF ok(2)] write_ip_no_aws [OF ok(3)] by auto
    qed
    then obtain r' t3 where t2: "t2 = (?q (attach_params iid eni_id (ea_device_index a)), r') # t3"
        "\<forall>(c, rp) \<in> set t3. \<forall>h s rg ps. c \<noteq> AwsQuery h s rg ps"
      by blast
    have "(AwsQuery h s r (attach_params i e d), rp) = (?q (attach_params iid eni_id (ea_device_index a)), r')"
      using ok(1) t1 t2 assms(2) by (fastforce simp: attach_not_others)
    then show ?thesis using ok(1) t1 t2(1) by (auto simp: attach_params_inj)
  qed
qed

text \<open>The address tool makes exactly one EC2 call, and only after an ENI was named or found.\<close>

definition address_call :: "ip_args \<Rightarrow> string \<Rightarrow> cmd" where
  "address_call a eni_id = AwsQuery (ec2_host (ia_region a)) ''ec2'' (ia_region a)
     (if ia_assign a then assign_params eni_id (ia_ip a) (ia_allow_reassignment a)
      else unassign_params eni_id (ia_ip a))"

lemma ip_run_ok:
  assumes "runs (ip_run fetch_creds a) t (Inr u)"
  shows "\<exists>t1 eni_id xml. t = t1 @ [(address_call a eni_id, Text xml)] \<and>
    extract_scalar xml ''return'' = Some ''true'' \<and> (\<forall>i. ia_eni a = Some i \<longrightarrow> eni_id = i)"
proof -
  have ret: "extract_scalar xml ''return'' = Some ''true''" if "Inr u = returned_true m xml" for u m xml
    using that by (auto simp: returned_true_def split: option.splits if_splits)
  obtain t1 t2 t3 c eni_id where t: "t = t1 @ t2 @ t3"
    and eni: "runs (case ia_eni a of Some i \<Rightarrow> Ret (Inr i) | None \<Rightarrow> fetch_primary_eni_id) t2 (Inr eni_id)"
    and rest: "runs (if ia_assign a
      then assign_secondary_ip (ia_region a) eni_id (ia_ip a) (ia_allow_reassignment a)
      else unassign_secondary_ip (ia_region a) eni_id (ia_ip a)) t3 (Inr u)"
    using assms unfolding ip_run_def by (auto simp: runs_attempt_iff)
  from rest obtain xml where "t3 = [(address_call a eni_id, Text xml)]"
      "extract_scalar xml ''return'' = Some ''true''"
    by (auto simp: assign_secondary_ip_def unassign_secondary_ip_def address_call_def runs_attempt_iff
        runs_ec2_call decode_Inr ret dest!: sym [of "Inr _" "as_text _ _"] split: if_splits)
  moreover have "ia_eni a = Some i \<Longrightarrow> eni_id = i" for i using eni by auto
  ultimately show ?thesis using t by (metis append_assoc)
qed

end
