(* ===== verification/Aeropulse.thy ===== *)
theory Aeropulse
  imports Files Slot_Network "HOL-Library.Multiset"
begin

text \<open>
  \<open>aeropulse/src/main.rs\<close>: the data of the keepalived configuration tool, and how it finds them in
  the instance metadata: its role, its three network interfaces in the order of their device
  numbers, the peer, the virtual addresses and the slots.  The texts are in \<open>Aeropulse_Render\<close>, the
  run of the tool is in \<open>Aeropulse_Main\<close>.
\<close>

section \<open>Arguments and data\<close>

record pulse_args =
  pa_auth_pass :: string
  pa_out :: string
  pa_notify_master_out :: string
  pa_notify_backup_out :: string
  pa_chk_backends_out :: string
  pa_chk_forward_out :: string
  pa_backends_out :: string
  pa_iface_outside :: string
  pa_iface_inside :: string
  pa_iface_sync :: string
  pa_iface_vxlan :: string
  pa_vrid_outside :: u8
  pa_vrid_inside :: u8
  pa_advert_int :: u8
  pa_lvs_sync_id :: u8
  pa_lvs_sync_port :: u16
  pa_down_timer_adverts :: u32
  pa_priority_master :: u8
  pa_priority_backup :: u8
  pa_enable_track_interface :: bool
  pa_enable_track_backends :: bool
  pa_track_min_backends :: u32
  pa_enable_track_forward :: bool
  pa_track_probe_host :: "string option"
  pa_track_probe_port :: u16
  pa_track_probe_timeout :: u8
  pa_track_weight :: int            \<comment> \<open>an \<open>i32\<close> that is only printed\<close>
  pa_track_interval :: u32
  pa_track_fall :: u32
  pa_track_rise :: u32
  pa_lvs_sched :: string
  pa_persistence_timeout :: u32
  pa_assign_bin :: string
  pa_region :: string

record iface_info =
  ii_device_number :: u32
  ii_eni_id :: string
  ii_primary_ip :: string

datatype pulse_role = MasterRole | BackupRole

fun role_str :: "pulse_role \<Rightarrow> string" where
  "role_str MasterRole = ''master''"
| "role_str BackupRole = ''backup''"

text \<open>Both roles start as backup; the role only shows in the priority.\<close>

definition vrrp_state :: "pulse_role \<Rightarrow> string" where
  "vrrp_state r = ''BACKUP''"

record instance_data =
  id_instance_id :: string
  id_role :: pulse_role
  id_outside :: iface_info
  id_inside :: iface_info
  id_peer_sync_ip :: string
  id_sync :: iface_info
  id_vip_outside :: string
  id_vip_inside :: string
  id_slot_network :: slot_network
  id_slot_count :: u32

section \<open>Interfaces\<close>

definition fetch_imds_tag :: "string \<Rightarrow> string \<Rightarrow> string rio" where
  "fetch_imds_tag token tag_key =
     ctx (''Failed to read tag '' @ single_quoted tag_key @ '' from IMDS. Is '' @
          single_quoted ''Instance tags in metadata'' @ '' enabled on this instance ''
          @ ''(LaunchTemplate -> MetadataOptions -> InstanceMetadataTags)?'')
       (fetch_imds_path token (''tags/instance/'' @ tag_key))"

definition mac_path :: "string \<Rightarrow> string \<Rightarrow> string" where
  "mac_path mac leaf = ''network/interfaces/macs/'' @ mac @ ''/'' @ leaf"

definition fetch_interface :: "string \<Rightarrow> string \<Rightarrow> iface_info rio" where
  "fetch_interface token mac =
     attempt (ctx (''Failed to read device-number for MAC '' @ mac)
       (fetch_imds_path token (mac_path mac ''device-number''))) (\<lambda>number.
     attempt (Ret (case parse_u32 number of
         None \<Rightarrow> Inl (Bail (''device-number for MAC '' @ mac @ '' is not a valid integer''))
       | Some n \<Rightarrow> Inr n)) (\<lambda>device_number.
     attempt (ctx (''Failed to read interface-id for MAC '' @ mac)
       (fetch_imds_path token (mac_path mac ''interface-id''))) (\<lambda>eni_id.
     attempt (ctx (''Failed to read local-ipv4s for MAC '' @ mac)
       (fetch_imds_path token (mac_path mac ''local-ipv4s''))) (\<lambda>ips_raw.
     Ret (case lines ips_raw of
         [] \<Rightarrow> Inl (Bail ''local-ipv4s returned an empty response'')
       | ip # _ \<Rightarrow> Inr \<lparr>ii_device_number = device_number, ii_eni_id = eni_id,
           ii_primary_ip = trim ip\<rparr>)))))"

definition fetch_all_interfaces :: "string \<Rightarrow> iface_info list rio" where
  "fetch_all_interfaces token =
     attempt (fetch_imds_path token ''network/interfaces/macs/'') (\<lambda>macs_raw.
     for_try (\<lambda>mac interfaces. attempt (fetch_interface token mac) (\<lambda>i. Ret (Inr (interfaces @ [i]))))
       (filter (\<lambda>s. s \<noteq> []) (mac_lines macs_raw)) [])"

section \<open>Resolution\<close>

definition parse_role :: "string \<Rightarrow> pulse_role result" where
  "parse_role rs =
     (if rs = ''master'' then Inr MasterRole
      else if rs = ''backup'' then Inr BackupRole
      else Inl (Bail (''Tag '' @ single_quoted ''keepalived-role'' @ '' has unexpected value ''
        @ single_quoted rs @ ''. Expected '' @ single_quoted ''master'' @ '' or ''
        @ single_quoted ''backup'' @ ''.'')))"

text \<open>The first three interfaces by device number: outside, inside and sync.\<close>

definition three_interfaces :: "iface_info list \<Rightarrow> (iface_info \<times> iface_info \<times> iface_info) result" where
  "three_interfaces ifaces =
     (case sort_key ii_device_number ifaces of
        outside # inside # sync # _ \<Rightarrow> Inr (outside, inside, sync)
      | few \<Rightarrow> Inl (Bail (''Expected at least 3 network interfaces (eth0 + eth1 + eth2), found ''
          @ show_nat (length few) @ ''. Are both the inside and sync ENIs attached?'')))"

definition parse_slot_count :: "string \<Rightarrow> u32 result" where
  "parse_slot_count s =
     (case parse_u32 (trim s) of
        None \<Rightarrow> Inl (Bail (''Invalid aeroftp-slot-count value: '' @ single_quoted s))
      | Some n \<Rightarrow> Inr n)"

definition resolve_instance_data :: "instance_data rio" where
  "resolve_instance_data =
     attempt fetch_imds_token (\<lambda>token.
     attempt (fetch_imds_path token ''instance-id'') (\<lambda>iid.
     attempt (fetch_imds_tag token ''keepalived-role'') (\<lambda>rs.
     attempt (Ret (parse_role rs)) (\<lambda>r.
     attempt (fetch_all_interfaces token) (\<lambda>ifaces.
     attempt (Ret (three_interfaces ifaces)) (\<lambda>(outside, inside, sync).
     attempt (fetch_imds_tag token ''keepalived-peer-sync'') (\<lambda>peer_sync_ip.
     attempt (ctx (''IMDS tag '' @ single_quoted ''aeroftp-vip-outside'' @ '' not found. Add it to ''
         @ ''the EC2 launch template (e.g. value: 172.16.29.100).'')
       (fetch_imds_tag token ''aeroftp-vip-outside'')) (\<lambda>vip_outside.
     attempt (ctx (''IMDS tag '' @ single_quoted ''aeroftp-vip-inside'' @ '' not found. Add it to ''
         @ ''the EC2 launch template (e.g. value: 172.16.32.10).'')
       (fetch_imds_tag token ''aeroftp-vip-inside'')) (\<lambda>vip_inside.
     attempt (ctx (''Failed to resolve slot network from IMDS. Ensure the aeroftp-slot-offset tag ''
         @ ''and eth1 subnet CIDR are available.'') from_imds) (\<lambda>net.
     attempt (ctx (''IMDS tag '' @ single_quoted ''aeroftp-slot-count'' @ '' not found. Add it to ''
         @ ''the load balancer launch template (e.g. value: 20).'')
       (fetch_imds_tag token ''aeroftp-slot-count'')) (\<lambda>count_str.
     attempt (Ret (parse_slot_count count_str)) (\<lambda>slot_count.
     Ret (Inr \<lparr>id_instance_id = iid, id_role = r, id_outside = outside, id_inside = inside,
       id_peer_sync_ip = peer_sync_ip, id_sync = sync, id_vip_outside = vip_outside,
       id_vip_inside = vip_inside, id_slot_network = net, id_slot_count = slot_count\<rparr>)))))))))))))"

section \<open>The interfaces that are chosen\<close>

lemma sort_key_Cons_least:
  "sort_key f xs = y # ys \<Longrightarrow> y \<in> set xs \<and> (\<forall>x \<in> set xs. f y \<le> f x)"
  using sorted_sort_key [of f xs] set_sort [of f xs] by (force simp: sorted_wrt_map)

lemma three_interfaces_sorted:
  assumes "three_interfaces ifaces = Inr (x, y, z)"
  shows "\<exists>rest. mset ifaces = mset (x # y # z # rest) \<and> ii_device_number x \<le> ii_device_number y \<and>
    ii_device_number y \<le> ii_device_number z \<and> (\<forall>i \<in> set rest. ii_device_number z \<le> ii_device_number i)"
proof -
  obtain rest where r: "sort_key ii_device_number ifaces = x # y # z # rest"
    using assms by (auto simp: three_interfaces_def split: list.splits)
  have "mset ifaces = mset (x # y # z # rest)" using r by (metis mset_sort)
  moreover have "sorted (map ii_device_number (x # y # z # rest))"
    using r sorted_sort_key [of ii_device_number ifaces] by simp
  ultimately show ?thesis by (intro exI [of _ rest]) auto
qed

lemma three_interfaces_Inr_iff:
  "(\<exists>r. three_interfaces ifaces = Inr r) \<longleftrightarrow> 3 \<le> length ifaces"
proof -
  have "length (sort_key ii_device_number ifaces) = length ifaces" by simp
  then show ?thesis
    by (auto simp: three_interfaces_def simp del: length_sort split: list.splits)
qed

lemma emits_resolve: "emits (\<lambda>c. \<not> mutates c) resolve_instance_data"
proof -
  have path: "emits (\<lambda>c. \<not> mutates c) (fetch_imds_path token p)" for token p
    by (auto simp: fetch_imds_path_def intro!: emits_attemptI)
  have tok: "emits (\<lambda>c. \<not> mutates c) fetch_imds_token" by (simp add: fetch_imds_token_def)
  have eth1: "emits (\<lambda>c. \<not> mutates c) (find_eth1 token macs)" for token macs
    by (induction token macs rule: find_eth1.induct) (auto intro!: emits_bindI path)
  have ifc: "emits (\<lambda>c. \<not> mutates c) (fetch_interface token mac)" for token mac
    by (auto simp: fetch_interface_def intro!: emits_attemptI path)
  have all: "emits (\<lambda>c. \<not> mutates c) (fetch_all_interfaces token)" for token
    by (auto simp: fetch_all_interfaces_def intro!: emits_attemptI emits_for_try path ifc)
  have net: "emits (\<lambda>c. \<not> mutates c) from_imds"
    by (auto simp: from_imds_def intro!: emits_attemptI emits_bindI path tok eth1 split: option.splits)
  show ?thesis
    by (auto simp: resolve_instance_data_def fetch_imds_tag_def intro!: emits_attemptI path tok all net)
qed

end
