(* ===== verification/Aeropulse_Render.thy ===== *)
theory Aeropulse_Render
  imports Aeropulse
begin

text \<open>
  The texts that aeropulse writes (the \<open>render_*\<close> functions of \<open>aeropulse/src/main.rs\<close>): the
  keepalived include files and the notify and check scripts, line by line.  The time stamp \<open>ts\<close> is
  formatted by the date library.  A text is its UTF-8 bytes: the few characters beyond ASCII are the
  constants below.
\<close>

section \<open>Characters and lines\<close>

definition dquote :: char where "dquote = CHR 0x22"

definition bslash :: char where "bslash = CHR 0x5C"

definition em_dash :: string where "em_dash = [CHR 0xE2, CHR 0x80, CHR 0x94]"

definition en_dash :: string where "en_dash = [CHR 0xE2, CHR 0x80, CHR 0x93]"

definition arrow :: string where "arrow = [CHR 0xE2, CHR 0x86, CHR 0x92]"

definition rule :: "nat \<Rightarrow> string" where
  "rule n = concat (replicate n [CHR 0xE2, CHR 0x94, CHR 0x80])"

abbreviation (input) blank :: string where "blank \<equiv> []"

definition text_lines :: "string list \<Rightarrow> string" where
  "text_lines ls = concat (map (\<lambda>l. l @ [newline]) ls)"

section \<open>backends.conf\<close>

definition track_file_block :: "ipv4 \<Rightarrow> string" where
  "track_file_block ip =
     text_lines
       [''track_file backend_'' @ show_ip ip @ '' {'',
        ''    file '' @ [dquote] @ ''/etc/keepalived/weights/backend-'' @ show_ip ip
         @ ''.weight'' @ [dquote],
        ''}'']"

definition real_server_block :: "ipv4 \<Rightarrow> string" where
  "real_server_block ip =
     text_lines
       [''    real_server '' @ show_ip ip @ '' 21 {'',
        ''        weight 1'',
        ''        FILE_CHECK {'',
        ''            track_file backend_'' @ show_ip ip,
        ''            weight 1'',
        ''        }'',
        ''    }'']"

text \<open>\<open>for slot in 0..slot_count\<close>, and the blocks of all slots.\<close>

definition slots_below :: "u32 \<Rightarrow> u32 list" where
  "slots_below n =
     map word_of_nat [0..<unat n]"

definition slot_blocks :: "(ipv4 \<Rightarrow> string) \<Rightarrow> instance_data \<Rightarrow> string" where
  "slot_blocks blk d =
     concat (map (\<lambda>slot. blk (ip_for_slot (id_slot_network d) slot)) (slots_below (id_slot_count d)))"

definition render_backends_conf :: "string \<Rightarrow> pulse_args \<Rightarrow> instance_data \<Rightarrow> string" where
  "render_backends_conf ts a d =
     text_lines
       [''# backends.conf '' @ em_dash @ '' generated by aeropulse for '' @ id_instance_id d,
        ''# Generated : '' @ ts,
        ''# DO NOT EDIT MANUALLY '' @ em_dash @ '' re-run aeropulse to regenerate.'',
        ''#'',
        ''# Slot network:'',
        ''#   base      : '' @ show_ip (base (id_slot_network d)),
        ''#   offset    : '' @ show_word (offset (id_slot_network d)),
        ''#   count     : '' @ show_word (id_slot_count d),
        ''#   range     : '' @ show_ip (ip_for_slot (id_slot_network d) 0) @ '' '' @ en_dash
         @ '' '' @ show_ip (ip_for_slot (id_slot_network d) (id_slot_count d - 1)),
        ''#'',
        ''# Weight file values:'',
        ''#    0           '' @ arrow
         @ '' active   (effective weight 1, receives new connections)'',
        ''#   -1           '' @ arrow @ '' draining (effective weight 0, no new connections)'',
        ''#   -2147483648  '' @ arrow
         @ '' removed  (FAULT state, fully absent from IPVS scheduler)'',
        ''#'',
        ''# These files are managed by aeroscale; do not edit manually.'',
        blank,
        ''# ---------------------------------------------------------------------------'',
        ''# One track_file per backend slot.'',
        ''# ---------------------------------------------------------------------------'',
        blank,
        slot_blocks track_file_block d,
        ''# ---------------------------------------------------------------------------'',
        ''# Virtual server  (outside VIP '' @ arrow @ '' backend pool on FTP port 21)'',
        ''#'',
        ''# FTP requires NAT mode so that ip_vs_ftp can rewrite PASV responses and'',
        ''# automatically track data-channel connections.  DR mode is not supported.'',
        ''#'',
        ''# persistence_timeout only needs to cover the window from control-connection'',
        ''# establishment to ip_vs_ftp processing the PASV response.  Once ip_vs_ftp'',
        ''# has created the data-channel IPVS entry the session no longer depends on'',
        ''# persistence.  Since each control connection carries exactly one file upload'',
        ''# there is no need to cover multiple transfers per control connection.'',
        ''# ---------------------------------------------------------------------------'',
        blank,
        ''virtual_server '' @ id_vip_outside d @ '' 21 {'',
        ''    lvs_sched    '' @ pa_lvs_sched a,
        ''    lvs_method   NAT'',
        ''    protocol     TCP'',
        ''    persistence_timeout '' @ show_word (pa_persistence_timeout a),
        ''    quorum       1'',
        blank,
        slot_blocks real_server_block d @ ''}'']"

section \<open>vrrp.conf\<close>

definition chk_backends_definition :: "pulse_args \<Rightarrow> string" where
  "chk_backends_definition a =
     text_lines
       [blank,
        ''vrrp_script chk_backends {'',
        ''    script   '' @ [dquote] @ pa_chk_backends_out a @ [dquote],
        ''    interval '' @ show_word (pa_track_interval a),
        ''    weight   '' @ show_int (pa_track_weight a),
        ''    fall     '' @ show_word (pa_track_fall a),
        ''    rise     '' @ show_word (pa_track_rise a),
        ''    # Queries IPVS via ipvsadm.  Fails if fewer than ''
         @ show_word (pa_track_min_backends a) @ '' real server(s) are'',
        ''    # active.  Both nodes failing simultaneously does not cause a failover'',
        ''    # because both priorities drop equally and the master retains its lead.'',
        ''}'']"

definition chk_forward_definition :: "pulse_args \<Rightarrow> string" where
  "chk_forward_definition a =
     text_lines
       [blank,
        ''vrrp_script chk_forward_path {'',
        ''    script   '' @ [dquote] @ pa_chk_forward_out a @ [dquote],
        ''    interval '' @ show_word (pa_track_interval a),
        ''    weight   '' @ show_int (pa_track_weight a),
        ''    fall     '' @ show_word (pa_track_fall a),
        ''    rise     '' @ show_word (pa_track_rise a),
        ''    # TCP-probes a real server through eth1.  Source-bound to eth1's own IP'',
        ''    # so a broken eth1 cannot silently pass the check via eth0.'',
        ''}'']"

definition scripts_disabled_note :: string where
  "scripts_disabled_note =
     text_lines
       [blank,
        ''# '' @ rule 2 @ '' track_script definitions (currently disabled) '' @ rule 28,
        ''# Re-run keepalived-config with one or more of the flags below to activate:'',
        ''#'',
        ''#   --enable-track-backends          query IPVS; fail if < N real servers active'',
        ''#   --enable-track-forward           TCP-probe a real server through eth1'',
        ''#'',
        ''# Both script files have been written and can be tested manually:'',
        ''#   /etc/keepalived/chk-backends.sh'',
        ''#   /etc/keepalived/chk-forward-path.sh'']"

definition render_vrrp_scripts_definitions :: "pulse_args \<Rightarrow> string" where
  "render_vrrp_scripts_definitions a =
     (if pa_enable_track_backends a then chk_backends_definition a else []) @
     (if pa_enable_track_forward a then chk_forward_definition a else []) @
     (if \<not> (pa_enable_track_backends a \<or> pa_enable_track_forward a) then scripts_disabled_note else [])"

definition render_lvs_sync_daemon :: "pulse_args \<Rightarrow> string" where
  "render_lvs_sync_daemon a =
     text_lines
       [''# '' @ rule 2 @ '' IPVS connection sync daemon '' @ rule 46,
        ''# Bound to vxlan0: a point-to-point VXLAN tunnel over eth2.'',
        ''# keepalived manages master/backup role transitions automatically.'',
        blank,
        ''global_defs {'',
        ''    lvs_sync_daemon '' @ pa_iface_vxlan a @ '' VI_INSIDE id ''
         @ show_word (pa_lvs_sync_id a),
        ''}'']"

definition render_track_interface_block :: "pulse_args \<Rightarrow> string" where
  "render_track_interface_block a =
     (if pa_enable_track_interface a then
        text_lines
          [blank,
           ''    track_interface {'',
           ''        '' @ pa_iface_outside a,
           ''        '' @ pa_iface_inside a,
           ''        '' @ pa_iface_sync a,
           ''    }'']
      else
        text_lines
          [blank,
           ''    # track_interface disabled '' @ em_dash
            @ '' enable with --enable-track-interface and regenerate.'',
           ''    # track_interface {'',
           ''    #     '' @ pa_iface_outside a,
           ''    #     '' @ pa_iface_inside a,
           ''    #     '' @ pa_iface_sync a,
           ''    # }''])"

definition render_track_scripts_references :: "pulse_args \<Rightarrow> string" where
  "render_track_scripts_references a =
     (let backends_line =
            if pa_enable_track_backends a then ''        chk_backends'' @ [newline]
            else ''        # chk_backends    (enable with --enable-track-backends)'' @ [newline];
          forward_line =
            if pa_enable_track_forward a then ''        chk_forward_path'' @ [newline]
            else ''        # chk_forward_path    (enable with --enable-track-forward ''
              @ ''--track-probe-host <IP>)'' @ [newline]
      in text_lines
          [blank,
           ''    track_script {'',
           backends_line @ forward_line @ ''    }''])"

definition vrrp_priority :: "pulse_args \<Rightarrow> pulse_role \<Rightarrow> u8" where
  "vrrp_priority a r =
     (case r of MasterRole \<Rightarrow> pa_priority_master a | BackupRole \<Rightarrow> pa_priority_backup a)"

definition nopreempt_line :: "pulse_role \<Rightarrow> string" where
  "nopreempt_line r =
     (if r = MasterRole then ''    nopreempt'' @ [newline] else [])"

definition render_vrrp_conf :: "string \<Rightarrow> pulse_args \<Rightarrow> instance_data \<Rightarrow> string" where
  "render_vrrp_conf ts a d =
     text_lines
       [''# '' @ rule 2 @ '' VRRP '' @ em_dash @ '' generated by keepalived-config '' @ rule 36,
        ''# Instance  : '' @ id_instance_id d,
        ''# Role      : '' @ role_str (id_role d),
        ''# Generated : '' @ ts,
        ''#'',
        ''# DO NOT EDIT MANUALLY '' @ em_dash @ '' re-run keepalived-config to regenerate.'',
        ''#'',
        ''# Add to /etc/keepalived/keepalived.conf:'',
        ''#   include '' @ [dquote] @ pa_out a @ [dquote],
        ''#'',
        ''# Interface roles:'',
        ''#   eth0  ('' @ pa_iface_outside a @ '')  outside / public-facing data plane'',
        ''#   eth1  ('' @ pa_iface_inside a @ '')   inside  / backend data plane + inside VIP'',
        ''#   eth2  ('' @ pa_iface_sync a
         @ '')     HA sync / VRRP heartbeats + IPVS session sync'',
        render_vrrp_scripts_definitions a,
        render_lvs_sync_daemon a,
        ''vrrp_sync_group VG_LB {'',
        ''    group {'',
        ''        VI_OUTSIDE'',
        ''        VI_INSIDE'',
        ''    }'',
        ''    # The sync group ensures both VIPs always move together '' @ em_dash
         @ '' you will never'',
        ''    # end up with the outside VIP on one node and the inside VIP on the other.'',
        ''    # notify_master fires once per group transition, not once per instance.'',
        ''    notify_master '' @ [dquote] @ pa_notify_master_out a @ [dquote],
        ''    notify_backup '' @ [dquote] @ pa_notify_backup_out a @ [dquote],
        ''}'',
        blank,
        ''# '' @ rule 2 @ '' Outside (public-facing) VIP: '' @ id_vip_outside d @ '' '' @ rule 31,
        blank,
        ''vrrp_instance VI_OUTSIDE {'',
        ''    state             '' @ vrrp_state (id_role d),
        ''    # Both VRRP instances bind their heartbeat socket to eth2 (the dedicated'',
        ''    # HA sync interface).  This completely isolates VRRP traffic from the data'',
        ''    # plane: a burst of FTP traffic on eth1 can no longer starve the VRRP'',
        ''    # heartbeat and cause a spurious failover.'',
        ''    # The outside VIP is still placed on eth0 via 'dev' in virtual_ipaddress.'',
        ''    interface         '' @ pa_iface_sync a,
        ''    virtual_router_id '' @ show_word (pa_vrid_outside a),
        ''    priority          '' @ show_word (vrrp_priority a (id_role d)),
        ''    advert_int        '' @ show_word (pa_advert_int a),
        ''    down_timer_adverts '' @ show_word (pa_down_timer_adverts a),
        nopreempt_line (id_role d),
        ''    # Unicast over eth2 '' @ em_dash @ '' AWS VPC drops VRRP multicast (224.0.0.18).'',
        ''    unicast_src_ip  '' @ ii_primary_ip (id_sync d),
        ''    unicast_peer {'',
        ''        '' @ id_peer_sync_ip d,
        ''    }'',
        blank,
        ''    authentication {'',
        ''        auth_type PASS'',
        ''        auth_pass '' @ pa_auth_pass a,
        ''    }'',
        render_track_interface_block a @ render_track_scripts_references a,
        ''    # /32 avoids injecting an unwanted subnet route into the local routing table.'',
        ''    virtual_ipaddress {'',
        ''        '' @ id_vip_outside d @ ''/32 dev '' @ pa_iface_outside a,
        ''    }'',
        ''}'',
        blank,
        ''# '' @ rule 2 @ '' Inside (server-facing) VIP: '' @ id_vip_inside d @ '' '' @ rule 33,
        blank,
        ''vrrp_instance VI_INSIDE {'',
        ''    state             '' @ vrrp_state (id_role d),
        ''    interface         '' @ pa_iface_sync a,
        ''    virtual_router_id '' @ show_word (pa_vrid_inside a),
        ''    priority          '' @ show_word (vrrp_priority a (id_role d)),
        ''    advert_int        '' @ show_word (pa_advert_int a),
        ''    down_timer_adverts '' @ show_word (pa_down_timer_adverts a),
        nopreempt_line (id_role d),
        ''    unicast_src_ip  '' @ ii_primary_ip (id_sync d),
        ''    unicast_peer {'',
        ''        '' @ id_peer_sync_ip d,
        ''    }'',
        blank,
        ''    authentication {'',
        ''        auth_type PASS'',
        ''        auth_pass '' @ pa_auth_pass a,
        ''    }'',
        render_track_interface_block a @ render_track_scripts_references a,
        ''    virtual_ipaddress {'',
        ''        '' @ id_vip_inside d @ ''/32 dev '' @ pa_iface_inside a,
        ''    }'',
        ''}'']"

section \<open>Scripts\<close>

definition render_notify_master :: "string \<Rightarrow> pulse_args \<Rightarrow> instance_data \<Rightarrow> string" where
  "render_notify_master ts a d =
     text_lines
       [''#!/bin/sh'',
        ''# notify-master.sh '' @ [bslash] @ ''u2014 generated by aeropulse for ''
         @ id_instance_id d,
        ''# Generated : '' @ ts,
        ''# DO NOT EDIT MANUALLY '' @ [bslash] @ ''u2014 re-run aeropulse to regenerate.'',
        ''#'',
        ''# Called by keepalived when this node's sync group (VG_LB) transitions to'',
        ''# MASTER.  Claims both virtual IPs at the AWS EC2 control plane using'',
        ''# AllowReassignment=true so they are stolen from the previous holder'',
        ''# atomically, without requiring a prior unassign step.'',
        ''#'',
        ''# The IPVS connection sync daemon is managed entirely by keepalived via the'',
        ''# lvs_sync_daemon directive in global_defs '' @ [bslash]
         @ ''u2014 no ipvsadm calls needed here.'',
        blank,
        ''set -eu'',
        blank,
        ''log() { logger -p local3.info -t keepalived-notify '' @ [dquote]
         @ ''notify-master[${TYPE:-?}/${NAME:-?}]: $*'' @ [dquote] @ ''; }'',
        blank,
        ''TYPE='' @ [dquote] @ ''${1:-}'' @ [dquote],
        ''NAME='' @ [dquote] @ ''${2:-}'' @ [dquote],
        ''STATE='' @ [dquote] @ ''${3:-}'' @ [dquote],
        blank,
        ''log '' @ [dquote] @ ''Transitioning to MASTER on '' @ id_instance_id d @ '' ''
         @ [bslash] @ ''u2014 claiming VIPs ...'' @ [dquote],
        blank,
        ''# Outside VIP '' @ [bslash]
         @ ''u2014 defaults to primary ENI (eth0), no --eni flag needed.'',
        pa_assign_bin a @ '' ip '' @ [bslash],
        ''    --ip '' @ id_vip_outside d @ '' '' @ [bslash],
        ''    --region '' @ pa_region a @ '' '' @ [bslash],
        ''    --allow-reassignment '' @ [bslash],
        ''    --assign '' @ [bslash],
        ''    && log '' @ [dquote] @ ''Outside VIP '' @ id_vip_outside d @ '' assigned.''
         @ [dquote] @ '' '' @ [bslash],
        ''    || { log '' @ [dquote] @ ''ERROR: failed to assign outside VIP ''
         @ id_vip_outside d @ [dquote] @ ''; exit 1; }'',
        blank,
        ''# Inside VIP '' @ [bslash] @ ''u2014 must specify eth1's ENI ID explicitly.'',
        pa_assign_bin a @ '' ip '' @ [bslash],
        ''    --ip '' @ id_vip_inside d @ '' '' @ [bslash],
        ''    --eni '' @ ii_eni_id (id_inside d) @ '' '' @ [bslash],
        ''    --region '' @ pa_region a @ '' '' @ [bslash],
        ''    --allow-reassignment '' @ [bslash],
        ''    --assign '' @ [bslash],
        ''    && log '' @ [dquote] @ ''Inside VIP '' @ id_vip_inside d @ '' assigned.''
         @ [dquote] @ '' '' @ [bslash],
        ''    || { log '' @ [dquote] @ ''ERROR: failed to assign inside VIP '' @ id_vip_inside d
         @ [dquote] @ ''; exit 1; }'',
        blank,
        ''log '' @ [dquote] @ ''Both VIPs claimed successfully.'' @ [dquote]]"

definition render_notify_backup :: "string \<Rightarrow> instance_data \<Rightarrow> string" where
  "render_notify_backup ts d =
     text_lines
       [''#!/bin/sh'',
        ''# notify-backup.sh '' @ [bslash] @ ''u2014 generated by aeropulse for ''
         @ id_instance_id d,
        ''# Generated : '' @ ts,
        ''# DO NOT EDIT MANUALLY '' @ [bslash] @ ''u2014 re-run aeropulse to regenerate.'',
        ''#'',
        ''# Called by keepalived when this node's sync group (VG_LB) transitions to'',
        ''# BACKUP.  No AWS API action is needed: the new MASTER will claim the VIPs.'',
        ''# keepalived removes the virtual_ipaddress entries from the OS interfaces'',
        ''# automatically as part of the BACKUP transition.'',
        ''#'',
        ''# The IPVS connection sync daemon role is also switched automatically by'',
        ''# keepalived via lvs_sync_daemon '' @ [bslash] @ ''u2014 no ipvsadm calls needed here.'',
        blank,
        ''set -eu'',
        blank,
        ''logger -p local3.info -t keepalived-notify '' @ [bslash],
        ''    '' @ [dquote] @ ''notify-backup[${1:-?}/${2:-?}]: transitioned to BACKUP ''
         @ [bslash] @ ''u2014 no action needed.'' @ [dquote],
        blank,
        ''exit 0'']"

definition chk_backends_note :: "pulse_args \<Rightarrow> string" where
  "chk_backends_note a =
     (if pa_enable_track_backends a
      then ''# Status: ACTIVE '' @ em_dash @ '' referenced in vrrp.conf track_script block.''
      else ''# Status: NOT YET ACTIVE '' @ em_dash
        @ '' re-run keepalived-config with --enable-track-backends.'')"

definition render_chk_backends :: "string \<Rightarrow> pulse_args \<Rightarrow> string" where
  "render_chk_backends ts a =
     text_lines
       [''#!/bin/sh'',
        ''# chk-backends.sh '' @ em_dash @ '' generated by keepalived-config'',
        ''# Generated : '' @ ts,
        ''# '' @ chk_backends_note a,
        ''#'',
        ''# Checks that at least MIN_ACTIVE real servers are currently active in IPVS.'',
        ''# '' @ [dquote] @ ''Active'' @ [dquote]
         @ '' means weight > 0, i.e. keepalived's own health checks consider the'',
        ''# server reachable.'',
        ''#'',
        ''# Returns 0 (healthy) or 1 (failed '' @ em_dash
         @ '' triggers weight penalty in VRRP election).'',
        ''#'',
        ''# Requires: ipvsadm'',
        ''# Test:     '' @ pa_chk_backends_out a @ '' && echo OK || echo FAIL'',
        blank,
        ''MIN_ACTIVE='' @ show_word (pa_track_min_backends a),
        blank,
        ''# ipvsadm -l -n lists real servers as lines starting with '' @ [dquote] @ ''  ->''
         @ [dquote] @ ''.'',
        ''# Column 4 is the weight; 0 means the server has been marked down.'',
        ''ACTIVE=$(ipvsadm -l -n 2>/dev/null '' @ [bslash],
        ''    | awk '/^['' @ ''[:space:]]*->/ { if ($4 > 0) count++ } END { print count+0 }')'',
        blank,
        ''if [ '' @ [dquote] @ ''${ACTIVE}'' @ [dquote] @ '' -ge '' @ [dquote]
         @ ''${MIN_ACTIVE}'' @ [dquote] @ '' ]; then'',
        ''    exit 0'',
        ''else'',
        ''    logger -p local3.info -t keepalived-track '' @ [bslash],
        ''        '' @ [dquote]
         @ ''chk-backends: ${ACTIVE} active backend(s), minimum is ${MIN_ACTIVE}'' @ [dquote],
        ''    exit 1'',
        ''fi'']"

definition chk_forward_note :: "pulse_args \<Rightarrow> string" where
  "chk_forward_note a =
     (if pa_enable_track_forward a
      then ''# Status: ACTIVE '' @ em_dash @ '' referenced in vrrp.conf track_script block.''
      else ''# Status: NOT YET ACTIVE '' @ em_dash
        @ '' re-run keepalived-config with --enable-track-forward --track-probe-host <IP>.'')"

definition render_chk_forward_path :: "string \<Rightarrow> pulse_args \<Rightarrow> instance_data \<Rightarrow> string" where
  "render_chk_forward_path ts a d =
     text_lines
       [''#!/bin/sh'',
        ''# chk-forward-path.sh '' @ em_dash @ '' generated by keepalived-config'',
        ''# Generated : '' @ ts,
        ''# '' @ chk_forward_note a,
        ''#'',
        ''# Verifies the actual forwarding path through eth1 to a real server by'',
        ''# attempting a TCP connection.  The probe is source-bound to eth1's own'',
        ''# private IP ('' @ ii_primary_ip (id_inside d)
         @ '') so a broken or mis-routed eth1 cannot silently pass'',
        ''# via eth0, which would give a false positive.'',
        ''#'',
        ''# Returns 0 (healthy) or 1 (failed '' @ em_dash
         @ '' triggers weight penalty in VRRP election).'',
        ''#'',
        ''# Requires: nc (netcat '' @ em_dash @ '' available via busybox on Alpine)'',
        ''# Test:     '' @ pa_chk_forward_out a @ '' && echo OK || echo FAIL'',
        blank,
        ''PROBE_HOST='' @ [dquote]
         @ (case pa_track_probe_host a of Some h \<Rightarrow> h
          | None \<Rightarrow> ''<not configured ''
         @ em_dash @ '' set --track-probe-host>'') @ [dquote],
        ''PROBE_PORT='' @ show_word (pa_track_probe_port a),
        ''PROBE_TIMEOUT='' @ show_word (pa_track_probe_timeout a),
        ''SRC_IP='' @ [dquote] @ ii_primary_ip (id_inside d) @ [dquote],
        blank,
        ''nc -z -s '' @ [dquote] @ ''${SRC_IP}'' @ [dquote] @ '' -w '' @ [dquote]
         @ ''${PROBE_TIMEOUT}'' @ [dquote] @ '' '' @ [dquote] @ ''${PROBE_HOST}'' @ [dquote]
         @ '' '' @ [dquote] @ ''${PROBE_PORT}'' @ [dquote] @ '' '' @ [bslash],
        ''    >/dev/null 2>&1'',
        blank,
        ''if [ $? -ne 0 ]; then'',
        ''    logger -p local3.info -t keepalived-track '' @ [bslash],
        ''        '' @ [dquote]
         @ ''chk-forward-path: cannot reach ${PROBE_HOST}:${PROBE_PORT} via ${SRC_IP} (eth1)''
         @ [dquote],
        ''    exit 1'',
        ''fi'',
        blank,
        ''exit 0'']"

end
