(* ===== verification/Aeropulse_Main.thy ===== *)
theory Aeropulse_Main
  imports Aeropulse_Render Cleanup "HOL-Library.Sublist"
begin

text \<open>
  The run of aeropulse (\<open>main\<close> and \<open>write_file\<close> of \<open>aeropulse/src/main.rs\<close>), and what its texts
  say when they are read line by line: \<open>backends.conf\<close> watches exactly the weight files that
  aeroscale writes, and \<open>vrrp.conf\<close> defines exactly the check scripts that it refers to.
\<close>

section \<open>The run\<close>

definition write_file :: "string \<Rightarrow> string \<Rightarrow> nat \<Rightarrow> unit rio" where
  "write_file path content mode =
     attempt (create_parent ''Cannot create directory '' path) (\<lambda>_.
     attempt (put_file (''Cannot write '' @ path) path content) (\<lambda>_.
     ctx (''Cannot set permissions on '' @ path) (call (SetMode path mode) (as_unit LibFault))))"

text \<open>
  The six files in the order in which they are written, with their modes (\<open>0o640\<close> and \<open>0o750\<close>).
  Each render function reads the clock for its own time stamp.
\<close>

definition pulse_files :: "(nat \<Rightarrow> string) \<Rightarrow> pulse_args \<Rightarrow> instance_data \<Rightarrow> (string \<times> string \<times> nat) list" where
  "pulse_files ts a d =
     [(pa_out a, render_vrrp_conf (ts 0) a d, 416),
      (pa_backends_out a, render_backends_conf (ts 1) a d, 416),
      (pa_notify_master_out a, render_notify_master (ts 2) a d, 488),
      (pa_notify_backup_out a, render_notify_backup (ts 3) d, 488),
      (pa_chk_backends_out a, render_chk_backends (ts 4) a, 488),
      (pa_chk_forward_out a, render_chk_forward_path (ts 5) a d, 488)]"

definition pulse_main :: "(nat \<Rightarrow> string) \<Rightarrow> pulse_args \<Rightarrow> unit rio" where
  "pulse_main ts a =
     (if pa_enable_track_forward a \<and> pa_track_probe_host a = None
      then Ret (Inl (Bail ''--track-probe-host <IP> is required when --enable-track-forward is set''))
      else
        attempt resolve_instance_data (\<lambda>d.
        for_try (\<lambda>(path, content, mode) _. write_file path content mode) (pulse_files ts a d) ()))"

section \<open>All files or a prefix\<close>

text \<open>
  \<open>carries_out cs p\<close>: whatever the replies, \<open>p\<close> issues the commands of \<open>cs\<close> in order, goes on only
  while they work, ends with the first one that fails, and ends well exactly when it has issued
  them all and all have worked.
\<close>

definition no_fault :: "(cmd \<times> reply) list \<Rightarrow> bool" where
  "no_fault t \<longleftrightarrow> (\<forall>(c, r) \<in> set t. \<forall>f. r \<noteq> Failed f)"

definition carries_out :: "cmd list \<Rightarrow> unit rio \<Rightarrow> bool" where
  "carries_out cs p \<longleftrightarrow> (\<forall>t x. runs p t x \<longrightarrow>
     prefix (map fst t) cs \<and>
     (x = Inr () \<longrightarrow> map fst t = cs \<and> no_fault t) \<and>
     (\<forall>e. x = Inl e \<longrightarrow> (\<exists>u c f. t = u @ [(c, Failed f)] \<and> no_fault u)))"

lemma no_fault_simps [simp]:
  "no_fault []" "no_fault ((c, r) # t) \<longleftrightarrow> (\<forall>f. r \<noteq> Failed f) \<and> no_fault t"
  "no_fault (t @ u) \<longleftrightarrow> no_fault t \<and> no_fault u"
  by (auto simp: no_fault_def)

lemma carries_outD:
  assumes "carries_out cs p" "runs p t x"
  shows "prefix (map fst t) cs" "x = Inr () \<Longrightarrow> map fst t = cs \<and> no_fault t"
    "x = Inl e \<Longrightarrow> \<exists>u c f. t = u @ [(c, Failed f)] \<and> no_fault u"
  using assms unfolding carries_out_def by blast+

lemma carries_out_Ret [simp]: "carries_out [] (Ret (Inr ()))"
  by (simp add: carries_out_def)

lemma carries_out_call [simp]: "carries_out [c] (call c (as_unit w))"
proof -
  have "as_unit w r = Inr () \<and> (\<forall>f. r \<noteq> Failed f) \<or> (\<exists>f. r = Failed f \<and> as_unit w r = Inl (w f))" for r
    by (cases r) (simp_all add: as_unit_def)
  note u = this
  show ?thesis unfolding carries_out_def runs_call
  proof (intro allI impI, elim exE conjE)
    fix t x r
    assume "t = [(c, r)]" "x = as_unit w r"
    then show "prefix (map fst t) [c] \<and> (x = Inr () \<longrightarrow> map fst t = [c] \<and> no_fault t) \<and>
        (\<forall>e. x = Inl e \<longrightarrow> (\<exists>u c f. t = u @ [(c, Failed f)] \<and> no_fault u))"
      using u [of r] by auto
  qed
qed

lemma carries_out_ctx [simp]: "carries_out cs p \<Longrightarrow> carries_out cs (ctx m p)"
  unfolding carries_out_def runs_ctx
proof (intro allI impI, elim exE conjE)
  fix t x y
  assume a: "\<forall>t x. runs p t x \<longrightarrow> prefix (map fst t) cs \<and> (x = Inr () \<longrightarrow> map fst t = cs \<and> no_fault t) \<and>
      (\<forall>e. x = Inl e \<longrightarrow> (\<exists>u c f. t = u @ [(c, Failed f)] \<and> no_fault u))"
    and y: "runs p t y" "x = with_ctx m y"
  show "prefix (map fst t) cs \<and> (x = Inr () \<longrightarrow> map fst t = cs \<and> no_fault t) \<and>
      (\<forall>e. x = Inl e \<longrightarrow> (\<exists>u c f. t = u @ [(c, Failed f)] \<and> no_fault u))"
    using a [rule_format, OF y(1)] y(2) by (cases y) simp_all
qed

lemma carries_out_attempt:
  assumes "carries_out cs p" "carries_out ds (q ())"
  shows "carries_out (cs @ ds) (attempt p q)"
  unfolding carries_out_def
proof (intro allI impI)
  fix t x
  assume "runs (attempt p q) t x"
  then show "prefix (map fst t) (cs @ ds) \<and> (x = Inr () \<longrightarrow> map fst t = cs @ ds \<and> no_fault t) \<and>
     (\<forall>e. x = Inl e \<longrightarrow> (\<exists>u c f. t = u @ [(c, Failed f)] \<and> no_fault u))"
  proof (cases rule: runs_attemptE)
    case (err e)
    then show ?thesis using carries_outD [OF assms(1) err(1)] by (auto intro: prefix_prefix)
  next
    case (ok t1 t2 u)
    then have t1: "map fst t1 = cs" "no_fault t1" using carries_outD(2) [OF assms(1) ok(2)] by simp_all
    have q: "runs (q ()) t2 x" using ok(3) by simp
    have "\<exists>v c f. t = v @ [(c, Failed f)] \<and> no_fault v" if e: "x = Inl e" for e
    proof -
      obtain v c f where "t2 = v @ [(c, Failed f)]" "no_fault v"
        using carries_outD(3) [OF assms(2) q e] by blast
      then have "t = (t1 @ v) @ [(c, Failed f)]" "no_fault (t1 @ v)" using ok(1) t1 by simp_all
      then show ?thesis by blast
    qed
    then show ?thesis using t1 ok(1) carries_outD(1,2) [OF assms(2) q] by auto
  qed
qed

lemma carries_out_for_try:
  assumes "\<And>y. carries_out (f y) (p y)"
  shows "carries_out (concat (map f ys)) (for_try (\<lambda>y _. p y) ys ())"
  by (induction ys) (simp_all add: carries_out_attempt [OF assms])

text \<open>The commands that write one file: its directory if it names one, its content, its mode.\<close>

fun writing :: "string \<times> string \<times> nat \<Rightarrow> cmd list" where
  "writing (path, content, mode) =
     (case path_parent path of None \<Rightarrow> [] | Some dir \<Rightarrow> [MakeDir dir]) @
     [WriteFile path content, SetMode path mode]"

lemma write_file_carries_out: "carries_out (writing (path, content, mode)) (write_file path content mode)"
proof -
  have "carries_out (case path_parent path of None \<Rightarrow> [] | Some dir \<Rightarrow> [MakeDir dir]) (create_parent m path)" for m
    by (simp add: create_parent_def split: option.split)
  then show ?thesis
    unfolding write_file_def writing.simps put_file_def
    using carries_out_attempt [of "[WriteFile path content]" _ "[SetMode path mode]"]
    by (intro carries_out_attempt) simp_all
qed

lemma pulse_main_runs:
  assumes "runs (pulse_main ts a) t x"
  shows "(\<forall>(c, r) \<in> set t. \<not> mutates c) \<and> x \<noteq> Inr () \<or>
    (\<exists>d t1 t2. t = t1 @ t2 \<and> runs resolve_instance_data t1 (Inr d) \<and> (\<forall>(c, r) \<in> set t1. \<not> mutates c) \<and>
       prefix (map fst t2) (concat (map writing (pulse_files ts a d))) \<and>
       (x = Inr () \<longrightarrow> map fst t2 = concat (map writing (pulse_files ts a d)) \<and> no_fault t2) \<and>
       (x \<noteq> Inr () \<longrightarrow> (\<exists>u c f. t2 = u @ [(c, Failed f)] \<and> no_fault u)))"
proof (cases "pa_enable_track_forward a \<and> pa_track_probe_host a = None")
  case False
  let ?wf = "\<lambda>(path, content, mode). write_file path content mode"
  have f: "(\<lambda>(path, content, mode) _. write_file path content mode) = (\<lambda>y (_ :: unit). ?wf y)"
    by (auto simp: fun_eq_iff)
  have "pulse_main ts a = attempt resolve_instance_data (\<lambda>d. for_try (\<lambda>y _. ?wf y) (pulse_files ts a d) ())"
    unfolding pulse_main_def f by (rule if_not_P [OF False])
  with assms have "runs (attempt resolve_instance_data (\<lambda>d.
      for_try (\<lambda>y _. ?wf y) (pulse_files ts a d) ())) t x"
    by simp
  then show ?thesis
  proof (cases rule: runs_attemptE)
    case (err e)
    then show ?thesis using emits_runs [OF err(1) emits_resolve] by auto
  next
    case (ok t1 t2 d)
    have c: "carries_out (concat (map writing (pulse_files ts a d))) (for_try (\<lambda>y _. ?wf y) (pulse_files ts a d) ())"
    proof (rule carries_out_for_try)
      fix y show "carries_out (writing y) (?wf y)" by (cases y) (simp add: write_file_carries_out del: writing.simps)
    qed
    have "\<forall>(c, r) \<in> set t1. \<not> mutates c" using emits_runs [OF ok(2) emits_resolve] by blast
    moreover have "\<exists>u c f. t2 = u @ [(c, Failed f)] \<and> no_fault u" if "x \<noteq> Inr ()"
      using that carries_outD(3) [OF c ok(3)] by (cases x) simp_all
    ultimately show ?thesis
      using ok(1,2) carries_outD(1,2) [OF c ok(3)]
      by - (rule disjI2, rule exI [of _ d], rule exI [of _ t1], rule exI [of _ t2], intro conjI impI, simp_all)
  qed
qed (use assms in \<open>simp add: pulse_main_def\<close>)

section \<open>Reading a text line by line\<close>

definition single_line :: "string \<Rightarrow> bool" where
  "single_line s \<longleftrightarrow> newline \<notin> set s"

definition config_lines :: "string \<Rightarrow> string list" where
  "config_lines text = splits (\<lambda>c. c = newline) text"

text \<open>What stands between a given beginning and a given end of a line, for all lines that have both.\<close>

definition between :: "string \<Rightarrow> string \<Rightarrow> string \<Rightarrow> string option" where
  "between start stop l = Option.bind (strip_prefix start l) (\<lambda>r. strip_suffix stop r)"

definition entries :: "string \<Rightarrow> string \<Rightarrow> string \<Rightarrow> string list" where
  "entries start stop text = List.map_filter (between start stop) (config_lines text)"

lemma single_line_simps [simp]:
  "single_line []" "single_line (c # s) \<longleftrightarrow> c \<noteq> newline \<and> single_line s"
  "single_line (s @ t) \<longleftrightarrow> single_line s \<and> single_line t"
  by (auto simp: single_line_def)

lemma single_line_show [simp]:
  "single_line (show_nat n)" "single_line (show_word w)" "single_line (show_int i)" "single_line (show_ip ip)"
proof -
  have n: "newline \<notin> set (show_nat n)" for n by (rule show_nat_no_char) (simp add: newline_def)
  then show "single_line (show_nat n)" "single_line (show_word w)" "single_line (show_int i)"
      "single_line (show_ip ip)"
    by (auto simp: single_line_def show_word_def show_int_def show_ip_def newline_def)
qed

lemma single_line_marks [simp]:
  "single_line em_dash" "single_line en_dash" "single_line arrow" "single_line (rule n)"
  "dquote \<noteq> newline" "bslash \<noteq> newline"
  by (induction n) (simp_all add: em_dash_def en_dash_def arrow_def rule_def newline_def dquote_def bslash_def)

lemma config_lines_line: "single_line l \<Longrightarrow> config_lines (l @ newline # s) = l # config_lines s"
  using splits_append [of l "\<lambda>c. c = newline" newline s]
  by (auto simp: config_lines_def single_line_def)

lemma text_lines_simps:
  "text_lines (l # ls) = l @ newline # text_lines ls" "text_lines [] = []"
  by (simp_all add: text_lines_def)

lemma config_lines_block:
  "list_all single_line ls \<Longrightarrow> config_lines (text_lines ls @ s) = ls @ config_lines s"
  by (induction ls) (simp_all add: text_lines_simps config_lines_line)

text \<open>The lines of a text whose entries are lines, blocks of lines, or blocks before a line.\<close>

lemma config_lines_simps [simp]:
  "config_lines (text_lines []) = [[]]"
  "single_line l \<Longrightarrow> config_lines (text_lines (l # ls)) = l # config_lines (text_lines ls)"
  "list_all single_line bs \<Longrightarrow>
     config_lines (text_lines (text_lines bs # ls)) = bs @ [] # config_lines (text_lines ls)"
  "list_all single_line bs \<Longrightarrow>
     config_lines (text_lines ((text_lines bs @ l) # ls)) = bs @ config_lines (text_lines (l # ls))"
  using config_lines_line [of "[]"]
  by (simp_all add: text_lines_simps config_lines_line config_lines_block) (simp add: config_lines_def)

lemma text_lines_concat: "concat (map (\<lambda>x. text_lines (f x)) xs) = text_lines (concat (map f xs))"
  by (induction xs) (simp_all add: text_lines_def)

lemma map_filter_simps' [simp]:
  "List.map_filter f [] = []"
  "List.map_filter f (x # xs) = (case f x of None \<Rightarrow> [] | Some y \<Rightarrow> [y]) @ List.map_filter f xs"
  "List.map_filter f (xs @ ys) = List.map_filter f xs @ List.map_filter f ys"
  by (auto simp: List.map_filter_def split: option.splits)

section \<open>backends.conf\<close>

definition track_file_lines :: "ipv4 \<Rightarrow> string list" where
  "track_file_lines ip =
     [''track_file backend_'' @ show_ip ip @ '' {'',
      ''    file '' @ [dquote] @ ''/etc/keepalived/weights/backend-'' @ show_ip ip @ ''.weight'' @ [dquote], ''}'']"

definition real_server_lines :: "ipv4 \<Rightarrow> string list" where
  "real_server_lines ip =
     [''    real_server '' @ show_ip ip @ '' 21 {'', ''        weight 1'', ''        FILE_CHECK {'',
      ''            track_file backend_'' @ show_ip ip, ''            weight 1'', ''        }'', ''    }'']"

definition slot_ips :: "instance_data \<Rightarrow> ipv4 list" where
  "slot_ips d = map (ip_for_slot (id_slot_network d)) (slots_below (id_slot_count d))"

lemma block_lines [simp]:
  "track_file_block ip = text_lines (track_file_lines ip)"
  "real_server_block ip = text_lines (real_server_lines ip)"
  by (simp_all add: track_file_block_def track_file_lines_def real_server_block_def real_server_lines_def)

lemma slot_blocks_lines:
  "slot_blocks track_file_block d = text_lines (concat (map track_file_lines (slot_ips d)))"
  "slot_blocks real_server_block d = text_lines (concat (map real_server_lines (slot_ips d)))"
  by (simp_all add: slot_blocks_def slot_ips_def text_lines_concat comp_def)

lemma eq_mark [simp]:
  "(c = newline) = (c = CHR 0x0A)" "(c = dquote) = (c = CHR 0x22)" "(dquote = c) = (CHR 0x22 = c)"
  by (auto simp: newline_def dquote_def)

lemma slot_lines_single [simp]:
  "list_all single_line (concat (map track_file_lines ips))"
  "list_all single_line (concat (map real_server_lines ips))"
  by (induction ips) (simp_all add: track_file_lines_def real_server_lines_def)

lemma between_Some_iff: "between start stop l = Some v \<longleftrightarrow> l = start @ v @ stop"
  by (auto simp: between_def strip_prefix_Some_iff strip_suffix_Some_iff split: bind_splits)

lemma map_filter_concat: "List.map_filter f (concat (map g xs)) = concat (map (\<lambda>x. List.map_filter f (g x)) xs)"
  by (induction xs) simp_all

text \<open>What the two kinds of blocks say.\<close>

lemma track_file_says:
  "List.map_filter (between (''    file '' @ [dquote]) [dquote]) (track_file_lines ip) =
     [weight_path ''/etc/keepalived/weights'' ip]"
  "List.map_filter (between ''track_file backend_'' '' {'') (track_file_lines ip) = [show_ip ip]"
  "List.map_filter (between ''    real_server '' '' 21 {'') (track_file_lines ip) = []"
  "List.map_filter (between ''            track_file backend_'' []) (track_file_lines ip) = []"
proof -
  have v: "between (''    file '' @ [dquote]) [dquote]
      (''    file '' @ [dquote] @ ''/etc/keepalived/weights/backend-'' @ show_ip ip @ ''.weight'' @ [dquote]) =
        Some (weight_path ''/etc/keepalived/weights'' ip)"
    "between ''track_file backend_'' '' {'' (''track_file backend_'' @ show_ip ip @ '' {'') = Some (show_ip ip)"
    by (simp_all add: between_Some_iff weight_path_def)
  show "List.map_filter (between (''    file '' @ [dquote]) [dquote]) (track_file_lines ip) =
     [weight_path ''/etc/keepalived/weights'' ip]"
    "List.map_filter (between ''track_file backend_'' '' {'') (track_file_lines ip) = [show_ip ip]"
    using v by (simp_all add: track_file_lines_def) (simp_all add: between_def)
qed (simp_all add: track_file_lines_def between_def)

lemma real_server_says:
  "List.map_filter (between (''    file '' @ [dquote]) [dquote]) (real_server_lines ip) = []"
  "List.map_filter (between ''track_file backend_'' '' {'') (real_server_lines ip) = []"
  "List.map_filter (between ''    real_server '' '' 21 {'') (real_server_lines ip) = [show_ip ip]"
  "List.map_filter (between ''            track_file backend_'' []) (real_server_lines ip) = [show_ip ip]"
proof -
  have v: "between ''    real_server '' '' 21 {'' (''    real_server '' @ show_ip ip @ '' 21 {'') = Some (show_ip ip)"
    "between ''            track_file backend_'' [] (''            track_file backend_'' @ show_ip ip) =
       Some (show_ip ip)"
    by (simp_all add: between_Some_iff)
  show "List.map_filter (between ''    real_server '' '' 21 {'') (real_server_lines ip) = [show_ip ip]"
    "List.map_filter (between ''            track_file backend_'' []) (real_server_lines ip) = [show_ip ip]"
    using v by (simp_all add: real_server_lines_def) (simp_all add: between_def)
qed (simp_all add: real_server_lines_def between_def)

text \<open>A reading of the whole file that finds nothing in its fixed lines is the reading of the blocks.\<close>

lemma backends_conf_entries:
  assumes "single_line ts" "single_line (id_instance_id d)" "single_line (id_vip_outside d)"
    "single_line (pa_lvs_sched a)"
  shows "entries (''    file '' @ [dquote]) [dquote] (render_backends_conf ts a d) =
      map (weight_path ''/etc/keepalived/weights'') (slot_ips d)"
    "entries ''track_file backend_'' '' {'' (render_backends_conf ts a d) = map show_ip (slot_ips d)"
    "entries ''    real_server '' '' 21 {'' (render_backends_conf ts a d) = map show_ip (slot_ips d)"
    "entries ''            track_file backend_'' [] (render_backends_conf ts a d) = map show_ip (slot_ips d)"
  using assms
  by (simp_all add: entries_def render_backends_conf_def slot_blocks_lines map_filter_concat between_def
      track_file_says [simplified] real_server_says [simplified] concat_map_singleton del: block_lines)

section \<open>vrrp.conf\<close>

text \<open>The scripts that the \<open>track_script\<close> blocks refer to: their lines that are not comments.\<close>

fun script_refs :: "bool \<Rightarrow> string list \<Rightarrow> string list" where
  "script_refs inside [] = []"
| "script_refs inside (l # ls) =
     (if \<not> inside then script_refs (l = ''    track_script {'') ls
      else if l = ''    }'' then script_refs False ls
      else (if starts_with (trim_start l) ''#'' then [] else [trim_start l]) @ script_refs True ls)"

definition enabled_scripts :: "pulse_args \<Rightarrow> string list" where
  "enabled_scripts a =
     (if pa_enable_track_backends a then [''chk_backends''] else []) @
     (if pa_enable_track_forward a then [''chk_forward_path''] else [])"

definition enabled_paths :: "pulse_args \<Rightarrow> string list" where
  "enabled_paths a =
     (if pa_enable_track_backends a then [pa_chk_backends_out a] else []) @
     (if pa_enable_track_forward a then [pa_chk_forward_out a] else [])"

text \<open>The values that are filled into the file stay on their lines.\<close>

definition plain_values :: "pulse_args \<Rightarrow> instance_data \<Rightarrow> bool" where
  "plain_values a d \<longleftrightarrow> list_all single_line
     [id_instance_id d, pa_out a, pa_notify_master_out a, pa_notify_backup_out a, pa_iface_outside a,
      pa_iface_inside a, pa_iface_sync a, pa_iface_vxlan a, id_vip_outside d, id_vip_inside d,
      ii_primary_ip (id_sync d), id_peer_sync_ip d, pa_auth_pass a, pa_chk_backends_out a,
      pa_chk_forward_out a]"

lemma references_text:
  "render_track_scripts_references a = text_lines
     [[], ''    track_script {'',
      if pa_enable_track_backends a then ''        chk_backends''
      else ''        # chk_backends    (enable with --enable-track-backends)'',
      if pa_enable_track_forward a then ''        chk_forward_path''
      else ''        # chk_forward_path    (enable with --enable-track-forward --track-probe-host <IP>)'',
      ''    }'']"
  by (simp add: render_track_scripts_references_def text_lines_def Let_def)

lemma role_single [simp]: "single_line (role_str r)" "single_line (vrrp_state r)"
  by (cases r) (simp_all add: vrrp_state_def)

lemma trims_of_refs [simp]:
  "trim_start ''        chk_backends'' = ''chk_backends''"
  "trim_start ''        chk_forward_path'' = ''chk_forward_path''"
  "trim_start ''        # chk_backends    (enable with --enable-track-backends)'' =
     ''# chk_backends    (enable with --enable-track-backends)''"
  "trim_start ''        # chk_forward_path    (enable with --enable-track-forward --track-probe-host <IP>)'' =
     ''# chk_forward_path    (enable with --enable-track-forward --track-probe-host <IP>)''"
  by code_simp+

text \<open>
  \<open>says s defs refs\<close>: the text \<open>s\<close> consists of whole lines, defines the scripts \<open>defs\<close> and refers to
  the scripts \<open>refs\<close>.  A line is neutral when it does neither.
\<close>

definition says :: "string \<Rightarrow> string list \<Rightarrow> string list \<Rightarrow> bool" where
  "says s defs refs \<longleftrightarrow> (\<exists>L. s = text_lines L \<and> list_all single_line L \<and>
     List.map_filter (between ''vrrp_script '' '' {'') L = defs \<and>
     (\<forall>ls. script_refs False (L @ ls) = refs @ script_refs False ls))"

definition neutral :: "string \<Rightarrow> bool" where
  "neutral l \<longleftrightarrow> single_line l \<and> l \<noteq> ''    track_script {'' \<and> between ''vrrp_script '' '' {'' l = None"

lemma text_lines_append: "text_lines xs @ text_lines ys = text_lines (xs @ ys)"
  by (simp add: text_lines_def)

lemma says_Nil: "says (text_lines []) [] []"
  by (auto simp: says_def text_lines_def intro!: exI [of _ "[]"])

lemma says_line: "neutral l \<Longrightarrow> says (text_lines ls) d r \<Longrightarrow> says (text_lines (l # ls)) d r"
  unfolding says_def neutral_def
  by (elim exE conjE, rule_tac x = "l # L" in exI) (simp add: text_lines_simps)

lemma says_append:
  "says s d r \<Longrightarrow> says s' d' r' \<Longrightarrow> D = d @ d' \<Longrightarrow> R = r @ r' \<Longrightarrow> says (s @ s') D R"
  unfolding says_def
  by (elim exE conjE, rule_tac x = "L @ La" in exI) (simp add: text_lines_append)

lemma says_block:
  "says s d r \<Longrightarrow> says (text_lines ([] # ls)) d' r' \<Longrightarrow> D = d @ d' \<Longrightarrow> R = r @ r' \<Longrightarrow>
   says (text_lines (s # ls)) D R"
  using says_append [of s d r "text_lines ([] # ls)" d' r' D R] by (simp add: text_lines_simps)

lemma says_before:
  "says s d r \<Longrightarrow> says (text_lines (l # ls)) d' r' \<Longrightarrow> D = d @ d' \<Longrightarrow> R = r @ r' \<Longrightarrow>
   says (text_lines ((s @ l) # ls)) D R"
  using says_append [of s d r "text_lines (l # ls)" d' r' D R] by (simp add: text_lines_simps)

lemmas neutral_defs = neutral_def between_def plain_values_def

lemma nopreempt_says: "says (nopreempt_line r) [] []"
proof (cases "r = MasterRole")
  case True
  then have "nopreempt_line r = text_lines [''    nopreempt'']"
    by (simp add: nopreempt_line_def text_lines_def)
  then show ?thesis by (simp add: says_line [OF _ says_Nil] neutral_defs)
next
  case False
  then show ?thesis using says_Nil by (simp add: nopreempt_line_def text_lines_def)
qed

lemma references_say: "says (render_track_scripts_references a) [] (enabled_scripts a)"
  unfolding says_def references_text
  by (rule exI, intro conjI, rule refl)
    (auto simp: between_def enabled_scripts_def starts_with_def)

lemma iface_says: "plain_values a d \<Longrightarrow> says (render_track_interface_block a) [] []"
  unfolding render_track_interface_block_def
  by (cases "pa_enable_track_interface a"; simp only: if_True if_False)
    (intro says_line says_Nil; simp add: neutral_defs)+

lemma lvs_says: "plain_values a d \<Longrightarrow> says (render_lvs_sync_daemon a) [] []"
  unfolding render_lvs_sync_daemon_def by (intro says_line says_Nil; simp add: neutral_defs)

lemma says_defines:
  "single_line n \<Longrightarrow> says (text_lines ls) d r \<Longrightarrow> says (text_lines ((''vrrp_script '' @ n @ '' {'') # ls)) (n # d) r"
proof -
  assume n: "single_line n" and "says (text_lines ls) d r"
  moreover have "between ''vrrp_script '' '' {'' (''vrrp_script '' @ n @ '' {'') = Some n"
    by (simp only: between_Some_iff)
  ultimately show ?thesis
    unfolding says_def
    by (elim exE conjE, rule_tac x = "(''vrrp_script '' @ n @ '' {'') # L" in exI)
      (simp add: text_lines_simps)
qed

lemma definitions_say:
  assumes "plain_values a d"
  shows "says (render_vrrp_scripts_definitions a) (enabled_scripts a) []"
proof -
  have b: "says (chk_backends_definition a) [''chk_backends''] []"
    unfolding chk_backends_definition_def
    by (rule says_line, simp add: neutral_defs,
        rule says_defines [where n = "''chk_backends''", simplified append.simps], simp,
        intro says_line says_Nil; use assms in \<open>simp add: neutral_defs\<close>)
  have f: "says (chk_forward_definition a) [''chk_forward_path''] []"
    unfolding chk_forward_definition_def
    by (rule says_line, simp add: neutral_defs,
        rule says_defines [where n = "''chk_forward_path''", simplified append.simps], simp,
        intro says_line says_Nil; use assms in \<open>simp add: neutral_defs\<close>)
  have n: "says scripts_disabled_note [] []"
    unfolding scripts_disabled_note_def by (intro says_line says_Nil; simp add: neutral_defs)
  have e: "says [] [] []" using says_Nil by (simp add: text_lines_def)
  show ?thesis
    unfolding render_vrrp_scripts_definitions_def enabled_scripts_def
    using b f n e says_append [OF b f] by (auto simp: append_assoc)
qed

lemma vrrp_conf_says:
  assumes "single_line ts" "plain_values a d"
  shows "says (render_vrrp_conf ts a d) (enabled_scripts a) (enabled_scripts a @ enabled_scripts a)"
proof -
  note blocks = definitions_say [OF assms(2)] lvs_says [OF assms(2)] iface_says [OF assms(2)]
    nopreempt_says references_say
  show ?thesis
    unfolding render_vrrp_conf_def
    by ((rule says_line, use assms in \<open>simp add: neutral_defs; fail\<close>)
       | (rule says_block, rule blocks)
       | (rule says_before, rule blocks) | rule says_Nil)+
      simp_all
qed

lemma vrrp_conf_scripts:
  assumes "single_line ts" "plain_values a d"
  shows "entries ''vrrp_script '' '' {'' (render_vrrp_conf ts a d) = enabled_scripts a"
    "script_refs False (config_lines (render_vrrp_conf ts a d)) = enabled_scripts a @ enabled_scripts a"
proof -
  obtain L where L: "render_vrrp_conf ts a d = text_lines L" "list_all single_line L"
      "List.map_filter (between ''vrrp_script '' '' {'') L = enabled_scripts a"
      "\<forall>ls. script_refs False (L @ ls) = (enabled_scripts a @ enabled_scripts a) @ script_refs False ls"
    using vrrp_conf_says [OF assms] unfolding says_def by blast
  have "config_lines (text_lines L) = L @ [[]]"
    using config_lines_block [OF L(2), of "[]"] by (simp add: config_lines_def)
  then show "entries ''vrrp_script '' '' {'' (render_vrrp_conf ts a d) = enabled_scripts a"
    "script_refs False (config_lines (render_vrrp_conf ts a d)) = enabled_scripts a @ enabled_scripts a"
    using L(3,4) by (simp_all add: entries_def L(1) between_def)
qed

end
