(* ===== verification/Aeroftp_Session.thy ===== *)
theory Aeroftp_Session
  imports Slot_Network
begin

text \<open>
  \<open>aeroftp/src/ftp/\<close>: the login of a device (\<open>auth.rs\<close>, \<open>provider.rs\<close>, \<open>user.rs\<close>) and the upload
  of a file (\<open>storage.rs\<close>).  The checking of passwords is the FTP library's authenticator, a
  parameter; the object store and the data connection are commands of their own, and so is a request
  to the library's back end, to which the storage delegates everything but the upload.
\<close>

section \<open>Users\<close>

text \<open>An IP address; a v6 address is given by its text.\<close>

datatype ip_addr = V4 ipv4 | V6 string

fun show_ip_addr :: "ip_addr \<Rightarrow> string" where
  "show_ip_addr (V4 ip) = show_ip ip"
| "show_ip_addr (V6 s) = s"

record aero_user =
  au_username :: string
  au_client_ip :: ip_addr
  au_system_meta :: "string \<Rightarrow> string option"
  au_quarantined :: bool

definition user_require :: "aero_user \<Rightarrow> string \<Rightarrow> string result" where
  "user_require u key =
     (case au_system_meta u key of
        Some s \<Rightarrow> Inr s
      | None \<Rightarrow> Inl (Bail (''system metadata missing required field '' @ single_quoted key)))"

definition account_enabled :: "aero_user \<Rightarrow> bool" where
  "account_enabled u = True"

definition show_user :: "aero_user \<Rightarrow> string" where
  "show_user u = au_username u @ ''@'' @ show_ip_addr (au_client_ip u)"

section \<open>Login\<close>

record principal =
  p_username :: string
  p_source_ip :: "ip_addr option"

record credentials =
  c_password :: "string option"
  c_source_ip :: ip_addr

text \<open>\<open>AeroAuthenticator\<close>: the inner authenticator decides, the address is stamped on its principal.\<close>

definition authenticate ::
    "(string \<Rightarrow> credentials \<Rightarrow> err + principal) \<Rightarrow> string \<Rightarrow> credentials \<Rightarrow> err + principal" where
  "authenticate inner username creds =
     (case inner username creds of
        Inl e \<Rightarrow> Inl e
      | Inr p \<Rightarrow> Inr (p\<lparr>p_source_ip := Some (c_source_ip creds)\<rparr>))"

definition by_ip_key :: "ip_addr \<Rightarrow> string" where
  "by_ip_key ip = ''systems:by-ip:'' @ show_ip_addr ip"

text \<open>The fields of a hash as a \<open>HashMap\<close>: a later field of the same name wins.\<close>

definition hash_map :: "(string \<times> string) list \<Rightarrow> string \<Rightarrow> string option" where
  "hash_map fs = map_of (rev fs)"

definition lookup_failed :: "string \<Rightarrow> string" where
  "lookup_failed key = ''Redis error looking up '' @ single_quoted key"

definition provide_user_detail :: "principal \<Rightarrow> aero_user rio" where
  "provide_user_detail p =
     (case p_source_ip p of
        None \<Rightarrow> Ret (Inl (Bail ''Principal is missing source_ip - AeroAuthenticator must be used''))
      | Some client_ip \<Rightarrow>
          let key = by_ip_key client_ip in
          attempt (ctx (lookup_failed key)
            (call (Redis (HGETALL key)) as_hash)) (\<lambda>fs.
          Ret (Inr (if fs = []
            then \<lparr>au_username = p_username p, au_client_ip = client_ip,
                  au_system_meta = (\<lambda>_. None), au_quarantined = True\<rparr>
            else \<lparr>au_username = p_username p, au_client_ip = client_ip,
                  au_system_meta = hash_map fs, au_quarantined = False\<rparr>))))"

text \<open>The login as the FTP library runs it: authenticate, then ask for the user.\<close>

definition login ::
    "(string \<Rightarrow> credentials \<Rightarrow> err + principal) \<Rightarrow> string \<Rightarrow> credentials \<Rightarrow> aero_user rio" where
  "login inner username creds =
     attempt (Ret (authenticate inner username creds)) provide_user_detail"

lemma hash_map_empty: "hash_map fs = (\<lambda>_. None) \<longleftrightarrow> fs = []"
  using map_of_eq_empty_iff [of "rev fs"] by (simp add: hash_map_def)

lemma provide_runs:
  assumes "runs (provide_user_detail p) t x"
  shows "case p_source_ip p of
      None \<Rightarrow> t = [] \<and> (\<exists>e. x = Inl e)
    | Some ip \<Rightarrow> (\<exists>r. t = [(Redis (HGETALL (by_ip_key ip)), r)] \<and>
        ((\<exists>e. x = Inl e) \<longleftrightarrow> (\<forall>fs. r \<noteq> Hash fs)) \<and>
        (\<forall>fs. r = Hash fs \<longrightarrow> x = Inr \<lparr>au_username = p_username p, au_client_ip = ip,
           au_system_meta = hash_map fs, au_quarantined = (fs = [])\<rparr>))"
proof (cases "p_source_ip p")
  case (Some ip)
  let ?c = "Redis (HGETALL (by_ip_key ip))"
  let ?u = "\<lambda>fs. \<lparr>au_username = p_username p, au_client_ip = ip, au_system_meta = hash_map fs,
    au_quarantined = (fs = [])\<rparr>"
  have "(if fs = [] then \<lparr>au_username = p_username p, au_client_ip = ip, au_system_meta = (\<lambda>_. None),
      au_quarantined = True\<rparr> else \<lparr>au_username = p_username p, au_client_ip = ip,
      au_system_meta = hash_map fs, au_quarantined = False\<rparr>) = ?u fs" for fs
    by (simp add: hash_map_def)
  then have "runs (attempt (ctx (lookup_failed (by_ip_key ip)) (call ?c as_hash))
      (\<lambda>fs. Ret (Inr (?u fs)))) t x"
    using assms Some by (simp add: provide_user_detail_def Let_def)
  then show ?thesis
  proof (cases rule: runs_attemptE)
    case (err e)
    then obtain r where "t = [(?c, r)]" "Inl e = with_ctx (lookup_failed (by_ip_key ip)) (as_hash r)"
      by (auto simp: runs_ctx runs_call)
    then show ?thesis using err(2) Some by (cases r) (auto simp: decode_defs)
  next
    case (ok t1 t2 fs)
    then have "t = [(?c, Hash fs)]" "x = Inr (?u fs)"
      by (auto simp: runs_ctx runs_call decode_Inr dest!: sym [of "Inr _"])
    then show ?thesis using Some by simp
  qed
qed (use assms in \<open>simp add: provide_user_detail_def\<close>)

text \<open>A login that goes through is quarantined exactly when the device is unknown.\<close>

lemma login_runs:
  assumes "runs (login inner username creds) t (Inr u)"
  shows "\<exists>p fs. inner username creds = Inr p \<and>
    t = [(Redis (HGETALL (by_ip_key (c_source_ip creds))), Hash fs)] \<and>
    u = \<lparr>au_username = p_username p, au_client_ip = c_source_ip creds,
      au_system_meta = hash_map fs, au_quarantined = (fs = [])\<rparr>"
proof -
  obtain p where p: "inner username creds = Inr p"
    and run: "runs (provide_user_detail (p\<lparr>p_source_ip := Some (c_source_ip creds)\<rparr>)) t (Inr u)"
    using assms by (auto simp: login_def runs_attempt_iff authenticate_def split: sum.splits)
  from provide_runs [OF run] show ?thesis using p by auto
qed

section \<open>Upload\<close>

text \<open>The operations that the library's back end carries out itself.\<close>

datatype storage_op =
    StorMetadata string
  | StorList string
  | StorGet string u64            \<comment> \<open>path and start position\<close>
  | StorDel string
  | StorMkd string
  | StorRename string string
  | StorRmd string
  | StorCwd string

datatype sto_cmd =
    OpenWriter string "string \<Rightarrow> string option"   \<comment> \<open>path and user metadata\<close>
  | ReadInput nat                                  \<comment> \<open>at most so many bytes\<close>
  | WriteAll string
  | Shutdown
  | Delegate aero_user storage_op

datatype sto_reply = StoErr string | StoOk | StoBytes string

type_synonym 'a sto = "(sto_cmd, sto_reply, 'a) prog"

text \<open>
  \<open>copy_read_write_loop\<close>: read, stop at the end of the input, write all, count.  The count is a
  \<open>u64\<close>.  \<open>None\<close> is a loop whose fuel has run out.
\<close>

fun copy_loop :: "nat \<Rightarrow> u64 \<Rightarrow> (string + u64) option sto" where
  "copy_loop 0 copied = Ret None"
| "copy_loop (Suc fuel) copied =
     Op (ReadInput 8192) (\<lambda>r.
     case r of
       StoErr e \<Rightarrow> Ret (Some (Inl e))
     | StoOk \<Rightarrow> Ret (Some (Inl ''unexpected reply''))
     | StoBytes buf \<Rightarrow>
         if buf = [] then Ret (Some (Inr copied))
         else Op (WriteAll buf) (\<lambda>w.
           case w of
             StoErr e \<Rightarrow> Ret (Some (Inl e))
           | _ \<Rightarrow> copy_loop fuel (copied + word_of_nat (length buf))))"

definition copy_read_write_loop :: "nat \<Rightarrow> (string + u64) option sto" where
  "copy_read_write_loop fuel = copy_loop fuel 0"

text \<open>\<open>AeroStorage::put\<close>; an error is a local error with this message.\<close>

definition put_result :: "string + u64 \<Rightarrow> sto_reply \<Rightarrow> string + u64" where
  "put_result copy_result shutdown_result =
     (case (copy_result, shutdown_result) of
        (Inr bytes, StoErr e) \<Rightarrow> Inl (''shutdown failed: '' @ e)
      | (Inr bytes, _) \<Rightarrow> Inr bytes
      | (Inl ce, StoErr se) \<Rightarrow> Inl (''copy failed: '' @ ce @ ''; shutdown failed: '' @ se)
      | (Inl e, _) \<Rightarrow> Inl (''copy failed: '' @ e))"

definition put_object :: "nat \<Rightarrow> aero_user \<Rightarrow> string \<Rightarrow> (string + u64) option sto" where
  "put_object fuel user ftp_path =
     Op (OpenWriter ftp_path (au_system_meta user)) (\<lambda>r.
     case r of
       StoErr e \<Rightarrow> Ret (Some (Inl e))
     | _ \<Rightarrow>
       bind (copy_read_write_loop fuel) (\<lambda>copied.
       case copied of
         None \<Rightarrow> Ret None
       | Some copy_result \<Rightarrow> Op Shutdown (\<lambda>s. Ret (Some (put_result copy_result s)))))"

text \<open>The bytes read from the client, and the bytes that writes which worked have stored.\<close>

definition chunk_in :: "sto_cmd \<times> sto_reply \<Rightarrow> string" where
  "chunk_in x = (case x of (ReadInput n, StoBytes b) \<Rightarrow> b | _ \<Rightarrow> [])"

definition chunk_out :: "sto_cmd \<times> sto_reply \<Rightarrow> string" where
  "chunk_out x = (case x of (WriteAll b, StoErr e) \<Rightarrow> [] | (WriteAll b, r) \<Rightarrow> b | _ \<Rightarrow> [])"

definition bytes_in :: "(sto_cmd \<times> sto_reply) list \<Rightarrow> string" where
  "bytes_in t = concat (map chunk_in t)"

definition bytes_out :: "(sto_cmd \<times> sto_reply) list \<Rightarrow> string" where
  "bytes_out t = concat (map chunk_out t)"

definition faultless :: "(sto_cmd \<times> sto_reply) list \<Rightarrow> bool" where
  "faultless t \<longleftrightarrow> (\<forall>(c, r) \<in> set t. \<forall>e. r \<noteq> StoErr e)"

definition chunks_read :: "(sto_cmd \<times> sto_reply) list \<Rightarrow> nat" where
  "chunks_read t = length (filter (\<lambda>x. chunk_in x \<noteq> []) t)"

lemma bytes_simps [simp]:
  "bytes_in [] = []" "bytes_in (x # t) = chunk_in x @ bytes_in t" "bytes_in (t @ u) = bytes_in t @ bytes_in u"
  "bytes_out [] = []" "bytes_out (x # t) = chunk_out x @ bytes_out t" "bytes_out (t @ u) = bytes_out t @ bytes_out u"
  "chunks_read [] = 0" "chunks_read (x # t) = (if chunk_in x = [] then 0 else 1) + chunks_read t"
  "chunks_read (t @ u) = chunks_read t + chunks_read u"
  by (simp_all add: bytes_in_def bytes_out_def chunks_read_def)

lemma faultless_simps [simp]:
  "faultless []" "faultless ((c, r) # t) \<longleftrightarrow> (\<forall>e. r \<noteq> StoErr e) \<and> faultless t"
  "faultless (t @ u) \<longleftrightarrow> faultless t \<and> faultless u"
  by (auto simp: faultless_def)

lemma chunk_simps [simp]:
  "chunk_in (ReadInput n, StoBytes b) = b" "chunk_in (ReadInput n, StoOk) = []"
  "chunk_in (ReadInput n, StoErr e) = []" "chunk_in (WriteAll b, r) = []" "chunk_in (Shutdown, r) = []"
  "chunk_in (OpenWriter p m, r) = []" "chunk_in (Delegate u op, r) = []" "chunk_out (Delegate u op, r) = []"
  "\<forall>e. r \<noteq> StoErr e \<Longrightarrow> chunk_out (WriteAll b, r) = b" "chunk_out (ReadInput n, r) = []" "chunk_out (Shutdown, r) = []"
  "chunk_out (OpenWriter p m, r) = []"
  by (simp_all add: chunk_in_def chunk_out_def split: sto_reply.split)

lemma copy_loop_runs:
  "runs (copy_loop fuel copied) t x \<Longrightarrow>
   (x = None \<longrightarrow> chunks_read t = fuel) \<and>
   (\<forall>n. x = Some (Inr n) \<longrightarrow> faultless t \<and> bytes_out t = bytes_in t \<and> n = copied + word_of_nat (length (bytes_in t)) \<and>
      (\<exists>t'. t = t' @ [(ReadInput 8192, StoBytes [])])) \<and>
   (\<forall>(c, r) \<in> set t. c = ReadInput 8192 \<or> (\<exists>b. c = WriteAll b))"
proof (induction fuel arbitrary: copied t)
  case (Suc fuel)
  obtain r t1 where t: "t = (ReadInput 8192, r) # t1"
    and rest: "runs (case r of
        StoErr e \<Rightarrow> Ret (Some (Inl e)) | StoOk \<Rightarrow> Ret (Some (Inl ''unexpected reply''))
      | StoBytes buf \<Rightarrow> if buf = [] then Ret (Some (Inr copied))
          else Op (WriteAll buf) (\<lambda>w. case w of StoErr e \<Rightarrow> Ret (Some (Inl e))
            | _ \<Rightarrow> copy_loop fuel (copied + word_of_nat (length buf)))) t1 x"
    using Suc.prems by (auto simp: runs_Op_iff)
  show ?case
  proof (cases "\<exists>buf. r = StoBytes buf \<and> buf \<noteq> []")
    case False
    then show ?thesis using t rest by (auto split: sto_reply.splits if_splits)
  next
    case True
    then obtain buf w t2 where b: "r = StoBytes buf" "buf \<noteq> []" and t1: "t1 = (WriteAll buf, w) # t2"
      and rest': "runs (case w of StoErr e \<Rightarrow> Ret (Some (Inl e))
        | _ \<Rightarrow> copy_loop fuel (copied + word_of_nat (length buf))) t2 x"
      using rest by (auto simp: runs_Op_iff)
    show ?thesis
    proof (cases "\<exists>e. w = StoErr e")
      case True
      then show ?thesis using t b t1 rest' by auto
    next
      case False
      then have "runs (copy_loop fuel (copied + word_of_nat (length buf))) t2 x" and w: "\<forall>e. w \<noteq> StoErr e"
        using rest' by (cases w; auto)+
      from Suc.IH [OF this(1)] show ?thesis
        using t b t1 w by (auto simp: algebra_simps)
    qed
  qed
qed simp

lemma put_object_cases:
  assumes "runs (put_object fuel user path) t x"
  obtains (refused) e where "t = [(OpenWriter path (au_system_meta user), StoErr e)]" "x = Some (Inl e)"
  | (starved) r u where "t = (OpenWriter path (au_system_meta user), r) # u" "x = None"
      "runs (copy_loop fuel 0) u None"
  | (closed) r u c s where "t = (OpenWriter path (au_system_meta user), r) # u @ [(Shutdown, s)]"
      "\<forall>e. r \<noteq> StoErr e" "runs (copy_loop fuel 0) u (Some c)" "x = Some (put_result c s)"
proof -
  let ?copy = "bind (copy_read_write_loop fuel) (\<lambda>copied. case copied of None \<Rightarrow> Ret None
       | Some copy_result \<Rightarrow> Op Shutdown (\<lambda>s. Ret (Some (put_result copy_result s))))"
  obtain r t1 where t: "t = (OpenWriter path (au_system_meta user), r) # t1"
    and rest: "runs (case r of StoErr e \<Rightarrow> Ret (Some (Inl e)) | _ \<Rightarrow> ?copy) t1 x"
    using assms by (auto simp: put_object_def runs_Op_iff)
  show ?thesis
  proof (cases "\<exists>e. r = StoErr e")
    case True
    then show ?thesis using t rest refused by auto
  next
    case False
    then have "runs ?copy t1 x" using rest by (cases r) auto
    then obtain u1 u2 c where u: "t1 = u1 @ u2" "runs (copy_loop fuel 0) u1 c"
      and fin: "runs (case c of None \<Rightarrow> Ret None
         | Some copy_result \<Rightarrow> Op Shutdown (\<lambda>s. Ret (Some (put_result copy_result s)))) u2 x"
      unfolding copy_read_write_loop_def by (rule runs_bindE)
    show ?thesis
    proof (cases c)
      case None
      then show ?thesis using t u fin starved by simp
    next
      case (Some cr)
      then obtain s where "u2 = [(Shutdown, s)]" "x = Some (put_result cr s)"
        using fin by (auto simp: runs_Op_iff)
      then show ?thesis using t u Some False closed by blast
    qed
  qed
qed

text \<open>
  A successful upload stored exactly the bytes of the client, in order, at the client's path, with
  the device's metadata, reached the end of the input, and closed the object.
\<close>

lemma put_object_ok:
  assumes "runs (put_object fuel user path) t (Some (Inr n))"
  shows "\<exists>r t' s. t = (OpenWriter path (au_system_meta user), r) # t' @
      [(ReadInput 8192, StoBytes []), (Shutdown, s)] \<and> faultless t \<and>
    bytes_out t = bytes_in t \<and> n = word_of_nat (length (bytes_in t))"
  using assms
proof (cases rule: put_object_cases)
  case (closed r u c s)
  then have "c = Inr n" "\<forall>e. s \<noteq> StoErr e"
    by (auto simp: put_result_def split: sum.splits sto_reply.splits)
  with copy_loop_runs [OF closed(3)] closed show ?thesis by auto
qed auto

text \<open>Once the object is open it is closed, whatever happens to the copy, and closing is last.\<close>

lemma put_object_closes:
  assumes "runs (put_object fuel user path) t (Some x)" "(OpenWriter path (au_system_meta user), StoOk) \<in> set t"
  shows "\<exists>t' s. t = t' @ [(Shutdown, s)] \<and> (\<forall>r. (Shutdown, r) \<notin> set t')"
  using assms(1)
proof (cases rule: put_object_cases)
  case (closed r u c s)
  have "\<forall>(c, r) \<in> set u. c = ReadInput 8192 \<or> (\<exists>b. c = WriteAll b)"
    using copy_loop_runs [OF closed(3)] by blast
  then have "(Shutdown, r') \<notin> set u" for r' by auto
  then have "t = ((OpenWriter path (au_system_meta user), r) # u) @ [(Shutdown, s)]"
    "\<forall>r'. (Shutdown, r') \<notin> set ((OpenWriter path (au_system_meta user), r) # u)"
    using closed(1) by auto
  then show ?thesis by blast
qed (use assms(2) in auto)

text \<open>The upload ends once the input does: fuel beyond the number of chunks is never used up.\<close>

lemma put_object_ends:
  assumes "runs (put_object fuel user path) t x" "chunks_read t < fuel"
  shows "x \<noteq> None"
  using assms(1)
proof (cases rule: put_object_cases)
  case (starved r u)
  then show ?thesis using copy_loop_runs [OF starved(3)] assms(2) by auto
qed auto

section \<open>The storage back end\<close>

text \<open>
  \<open>AeroStorage\<close> as the FTP library sees it: a \<open>put\<close>, whose start position is not used, goes to the
  operator of the object store; everything else goes to the inner back end, whose answer is passed
  on.
\<close>

datatype storage_request = Put string u64 | Inner storage_op

datatype storage_answer = Stored "(string + u64) option" | Answered sto_reply

fun aero_storage :: "nat \<Rightarrow> aero_user \<Rightarrow> storage_request \<Rightarrow> storage_answer sto" where
  "aero_storage fuel user (Put path start_pos) = bind (put_object fuel user path) (\<lambda>x. Ret (Stored x))"
| "aero_storage fuel user (Inner op) = Op (Delegate user op) (\<lambda>r. Ret (Answered r))"

lemma copy_loop_no_delegate: "emits (\<lambda>c. \<forall>u op. c \<noteq> Delegate u op) (copy_loop fuel copied)"
  by (induction fuel arbitrary: copied) (auto split: sto_reply.splits)

lemma put_object_no_delegate: "emits (\<lambda>c. \<forall>u op. c \<noteq> Delegate u op) (put_object fuel user path)"
  unfolding put_object_def copy_read_write_loop_def
  by (auto intro!: emits_bindI copy_loop_no_delegate split: sto_reply.splits option.splits)

text \<open>
  Only an upload writes to the object store, and an upload leaves the inner back end alone; every
  other request is handed on as it is, for the same user, and so is its answer.
\<close>

lemma storage_delegates:
  "runs (aero_storage fuel user (Inner op)) t x \<longleftrightarrow> (\<exists>r. t = [(Delegate user op, r)] \<and> x = Answered r)"
  "emits (\<lambda>c. \<forall>u op. c \<noteq> Delegate u op) (aero_storage fuel user (Put path n))"
  "runs (aero_storage fuel user q) t x \<Longrightarrow> (WriteAll b, r) \<in> set t \<Longrightarrow> \<exists>path n. q = Put path n"
  by (auto simp: runs_Op_iff intro!: emits_bindI put_object_no_delegate) (cases q; auto simp: runs_Op_iff)

end
