(* ===== verification/Aeroftp_Server.thy ===== *)
theory Aeroftp_Server
  imports Effects
begin

text \<open>
  The frame of aeroftp: the start of the FTP server from the environment
  (\<open>aeroftp/src/ftp/server.rs\<close>) and the restart loop (\<open>main.rs\<close>, \<open>signal/watcher.rs\<close>).  The FTP
  library, the object store client, the tracing libraries and the start of the tasks are commands.
\<close>

section \<open>Passive ports\<close>

record passive_port_range =
  pp_start :: u16
  pp_end :: u16

definition passive_port_range_new :: "u16 \<Rightarrow> u16 \<Rightarrow> passive_port_range result" where
  "passive_port_range_new s e =
     (if e < s
      then Inl (Bail (''Passive port range start ('' @ show_word s @ '') cannot be greater than end (''
        @ show_word e @ '')''))
      else Inr \<lparr>pp_start = s, pp_end = e\<rparr>)"

definition passive_ports :: "passive_port_range \<Rightarrow> u16 \<times> u16" where
  "passive_ports r = (pp_start r, pp_end r)"

definition show_port_range :: "passive_port_range \<Rightarrow> string" where
  "show_port_range r = show_word (pp_start r) @ ''-'' @ show_word (pp_end r)"

lemma passive_ports_ok:
  "passive_port_range_new s e = Inr r \<Longrightarrow> passive_ports r = (s, e) \<and> s \<le> e"
  "s \<le> e \<Longrightarrow> \<exists>r. passive_port_range_new s e = Inr r"
  by (auto simp: passive_port_range_new_def passive_ports_def not_less split: if_splits)

section \<open>Start of the FTP server\<close>

record ftp_config =
  fc_idle_timeout_secs :: u64
  fc_grace_period_secs :: u64
  fc_passive_ports :: "u16 \<times> u16"
  fc_address :: string

definition FTP_ADDRESS :: string where
  "FTP_ADDRESS = ''0.0.0.0''"

definition CONTROL_PORT :: u16 where
  "CONTROL_PORT = 21"

definition DEFAULT_IDLE_SESSION_TIMEOUT_SECS :: u64 where
  "DEFAULT_IDLE_SESSION_TIMEOUT_SECS = 600"

definition DEFAULT_SHUTDOWN_GRACE_PERIOD_SECS :: u64 where
  "DEFAULT_SHUTDOWN_GRACE_PERIOD_SECS = 10"

text \<open>The commands of the frame, and their replies.\<close>

datatype frame_cmd =
    EnvVar string
  | OpenStore string string string      \<comment> \<open>endpoint, region, bucket\<close>
  | OpenRedis string
  | ConnectRedis
  | LoadCredentials string
  | BuildServer ftp_config
  | SpawnListen string
  | SpawnHttp string
  | SpawnFtp
  | RegisterSignals string
  | NextSignal
  | DropShutdown
  | JoinServers
  | InstallCrypto
  | FilterFromEnv
  | BuildExporter string               \<comment> \<open>endpoint\<close>
  | BuildProvider string               \<comment> \<open>service name\<close>
  | SetTracerProvider
  | InitSubscriber bool                \<comment> \<open>with the layer that exports spans\<close>
  | ShutdownTracer

datatype exit_signal = SigTerm | SigInt | SigHup

datatype frame_reply = Fault string | Ok | Value string | Got exit_signal

type_synonym 'a frame = "(frame_cmd, frame_reply, 'a) prog"

definition ok :: "frame_reply \<Rightarrow> unit result" where
  "ok r = (case r of Fault e \<Rightarrow> Inl (LibFault (OtherFault e)) | _ \<Rightarrow> Inr ())"

definition value_of :: "frame_reply \<Rightarrow> string result" where
  "value_of r =
     (case r of Value s \<Rightarrow> Inr s | Fault e \<Rightarrow> Inl (LibFault (OtherFault e)) | _ \<Rightarrow> Inl (LibFault TypeMismatch))"

definition env_var :: "string \<Rightarrow> string result frame" where
  "env_var name = call (EnvVar name) value_of"

definition port_var :: "string \<Rightarrow> u16 result frame" where
  "port_var name =
     attempt (env_var name) (\<lambda>s.
     Ret (case parse_u16 s of
         None \<Rightarrow> Inl (Bail (name @ '' must be a valid port number''))
       | Some p \<Rightarrow> Inr p))"

definition start_ftp :: "unit result frame" where
  "start_ftp =
     attempt (env_var ''AWS_S3_REGION'') (\<lambda>region.
     attempt (env_var ''AWS_S3_BUCKET'') (\<lambda>bucket.
     bind (env_var ''AWS_S3_ENDPOINT'') (\<lambda>ep.
     let endpoint = (case ep of Inl e \<Rightarrow> ''https://s3.amazonaws.com'' | Inr s \<Rightarrow> s) in
     attempt (call (OpenStore endpoint region bucket) ok) (\<lambda>_.
     attempt (ctx ''REDIS_URL must be set (e.g. redis://127.0.0.1:6379)'' (env_var ''REDIS_URL'')) (\<lambda>url.
     attempt (ctx ''invalid REDIS_URL'' (call (OpenRedis url) ok)) (\<lambda>_.
     attempt (ctx ''could not connect to Redis'' (call ConnectRedis ok)) (\<lambda>_.
     attempt (ctx ''could not load credentials file'' (call (LoadCredentials ''credentials.json'') ok)) (\<lambda>_.
     attempt (port_var ''FTP_PASSIVE_PORT_START'') (\<lambda>first.
     attempt (port_var ''FTP_PASSIVE_PORT_END'') (\<lambda>last.
     attempt (Ret (with_ctx ''Invalid passive port range configuration'' (passive_port_range_new first last)))
       (\<lambda>range.
     attempt (call (BuildServer \<lparr>fc_idle_timeout_secs = DEFAULT_IDLE_SESSION_TIMEOUT_SECS,
         fc_grace_period_secs = DEFAULT_SHUTDOWN_GRACE_PERIOD_SECS, fc_passive_ports = passive_ports range,
         fc_address = FTP_ADDRESS @ '':'' @ show_word CONTROL_PORT\<rparr>) ok) (\<lambda>_.
     call (SpawnListen (FTP_ADDRESS @ '':'' @ show_word CONTROL_PORT)) (\<lambda>_. Inr ())))))))))))))"

text \<open>The server is only built and started with a usable port range.\<close>

definition ports_usable :: "frame_cmd \<Rightarrow> bool" where
  "ports_usable c = (case c of BuildServer cfg \<Rightarrow> fst (fc_passive_ports cfg) \<le> snd (fc_passive_ports cfg) | _ \<Rightarrow> True)"

lemma start_ftp_ports: "emits ports_usable start_ftp"
proof -
  have v: "emits ports_usable (env_var n)" "emits ports_usable (port_var n)" for n
    by (simp_all add: env_var_def port_var_def ports_usable_def emits_attemptI)
  have r: "returns (\<lambda>x. \<forall>r. x = Inr r \<longrightarrow> fst (passive_ports r) \<le> snd (passive_ports r))
      (Ret (with_ctx m (passive_port_range_new a b)))" for m a b
    using passive_ports_ok(1) [of a b] by (auto simp: with_ctx_def split: sum.splits)
  show ?thesis
    unfolding start_ftp_def Let_def
    by (intro emits_attemptI emits_bindI v emits_attempt [OF _ r])
      (simp_all add: v ports_usable_def)
qed

section \<open>Signals and the restart loop\<close>

fun show_signal :: "exit_signal \<Rightarrow> string" where
  "show_signal SigTerm = ''SIG_TERM''"
| "show_signal SigInt = ''SIG_INT''"
| "show_signal SigHup = ''SIG_HUP''"

definition signal_of :: "frame_reply \<Rightarrow> exit_signal result" where
  "signal_of r =
     (case r of Got s \<Rightarrow> Inr s | Fault e \<Rightarrow> Inl (LibFault (OtherFault e)) | _ \<Rightarrow> Inl (LibFault TypeMismatch))"

text \<open>The first signal of the three streams; the choice of \<open>select!\<close> is the reply.\<close>

definition listen_for_signals :: "exit_signal result frame" where
  "listen_for_signals =
     attempt (ctx ''could not listen for TERM signals'' (call (RegisterSignals ''TERM'') ok)) (\<lambda>_.
     attempt (ctx ''could not listen for INT signal'' (call (RegisterSignals ''INT'') ok)) (\<lambda>_.
     attempt (ctx ''could not listen for HUP signal'' (call (RegisterSignals ''HUP'') ok)) (\<lambda>_.
     call NextSignal signal_of)))"

text \<open>
  \<open>main_task\<close>: start both servers, wait for a signal, tell the servers to stop, and wait for them
  (only after a signal; an error is returned at once).
\<close>

definition main_task :: "exit_signal result frame" where
  "main_task =
     Op (SpawnHttp ''[::]:9090'') (\<lambda>_.
     Op SpawnFtp (\<lambda>_.
     bind listen_for_signals (\<lambda>x.
     case x of
       Inr sig \<Rightarrow> Op DropShutdown (\<lambda>_. Op JoinServers (\<lambda>_. Ret (Inr sig)))
     | Inl e \<Rightarrow> Op DropShutdown (\<lambda>_. Ret (Inl e)))))"

fun ftp_run :: "nat \<Rightarrow> unit result option frame" where
  "ftp_run 0 = Ret None"
| "ftp_run (Suc n) =
     bind main_task (\<lambda>x.
     case x of
       Inl e \<Rightarrow> Ret (Some (Inl e))
     | Inr sig \<Rightarrow> if sig = SigHup then ftp_run n else Ret (Some (Inr ())))"

text \<open>The signals of a run, in order.\<close>

definition signals :: "(frame_cmd \<times> frame_reply) list \<Rightarrow> exit_signal list" where
  "signals t = List.map_filter (\<lambda>x. case x of (NextSignal, Got s) \<Rightarrow> Some s | _ \<Rightarrow> None) t"

text \<open>
  The two tasks of a round are up from their start until they are joined; \<open>one_generation\<close> holds when
  no tasks are started while those of an earlier round are up.  The FTP task only starts the
  listener and ends, so joining it does not wait for the listener.
\<close>

fun one_generation :: "bool \<Rightarrow> (frame_cmd \<times> frame_reply) list \<Rightarrow> bool" where
  "one_generation up [] = True"
| "one_generation up ((c, r) # t) =
     (if c = SpawnHttp ''[::]:9090'' then \<not> up \<and> one_generation True t
      else if c = JoinServers then one_generation False t
      else one_generation up t)"

lemma signals_simps [simp]:
  "signals [] = []" "signals (t @ u) = signals t @ signals u"
  "signals ((c, r) # t) = (case (c, r) of (NextSignal, Got s) \<Rightarrow> [s] | _ \<Rightarrow> []) @ signals t"
  by (auto simp: signals_def List.map_filter_def split: frame_cmd.splits frame_reply.splits)

lemma next_signal_runs:
  "runs (call NextSignal signal_of) t x \<Longrightarrow>
   (\<exists>r. t = [(NextSignal, r)]) \<and> (case x of Inr sig \<Rightarrow> signals t = [sig] | Inl e \<Rightarrow> signals t = [])"
proof -
  assume "runs (call NextSignal signal_of) t x"
  then obtain r where "t = [(NextSignal, r)]" "x = signal_of r" by (auto simp: runs_call)
  then show ?thesis by (cases r) (auto simp: signal_of_def)
qed

lemma listen_runs:
  assumes "runs listen_for_signals t x"
  shows "(case x of Inr sig \<Rightarrow> signals t = [sig] | Inl e \<Rightarrow> signals t = []) \<and>
    (\<forall>(c, r) \<in> set t. c = NextSignal \<or> (\<exists>s. c = RegisterSignals s))"
  using assms unfolding listen_for_signals_def
  by (auto simp: runs_attempt_iff runs_ctx runs_call [of "RegisterSignals _"] dest!: next_signal_runs
      split: sum.splits)

lemma one_generation_quiet:
  "\<forall>(c, r) \<in> set t. c \<noteq> SpawnHttp ''[::]:9090'' \<and> c \<noteq> JoinServers \<Longrightarrow>
   one_generation up (t @ u) = one_generation up u"
  by (induction t) auto

text \<open>One round: a signal ends it with the servers joined; an error ends it without.\<close>

lemma main_task_runs:
  assumes "runs main_task t x"
  shows "(case x of Inr sig \<Rightarrow> signals t = [sig] \<and> (\<forall>u. one_generation False (t @ u) = one_generation False u)
    | Inl e \<Rightarrow> signals t = [] \<and> one_generation False t)"
proof -
  obtain r1 r2 t1 t2 y where t: "t = (SpawnHttp ''[::]:9090'', r1) # (SpawnFtp, r2) # t1 @ t2"
    and y: "runs listen_for_signals t1 y"
    and rest: "runs (case y of Inr sig \<Rightarrow> Op DropShutdown (\<lambda>_. Op JoinServers (\<lambda>_. Ret (Inr sig)))
      | Inl e \<Rightarrow> Op DropShutdown (\<lambda>_. Ret (Inl e))) t2 x"
    using assms by (auto simp: main_task_def runs_Op_iff elim!: runs_bindE)
  note l = listen_runs [OF y]
  have q: "one_generation up (t1 @ u) = one_generation up u" for up u
    by (rule one_generation_quiet) (use l in auto)
  show ?thesis
    using rest l t q by (cases y) (auto simp: runs_Op_iff)
qed

text \<open>
  The loop restarts exactly on HUP: a run that ends well saw some HUPs and then one other signal;
  a failing run and a run that goes on saw only HUPs.
\<close>

lemma ftp_run_signals:
  "runs (ftp_run n) t x \<Longrightarrow>
   one_generation False t \<and>
   (case x of
      None \<Rightarrow> signals t = replicate n SigHup
    | Some (Inl e) \<Rightarrow> set (signals t) \<subseteq> {SigHup}
    | Some (Inr u) \<Rightarrow> \<exists>k s. signals t = replicate k SigHup @ [s] \<and> s \<noteq> SigHup)"
proof (induction n arbitrary: t)
  case (Suc n)
  obtain t1 t2 y where t: "t = t1 @ t2" and y: "runs main_task t1 y"
    and rest: "runs (case y of Inl e \<Rightarrow> Ret (Some (Inl e))
      | Inr sig \<Rightarrow> if sig = SigHup then ftp_run n else Ret (Some (Inr ()))) t2 x"
    using Suc.prems by (auto elim!: runs_bindE)
  note m = main_task_runs [OF y]
  show ?case
  proof (cases "y = Inr SigHup")
    case True
    then have r: "runs (ftp_run n) t2 x" using rest by simp
    have s: "signals t = SigHup # signals t2" and g: "one_generation False t = one_generation False t2"
      using m t True by auto
    note ih = Suc.IH [OF r]
    show ?thesis
    proof (cases x)
      case None
      then show ?thesis using ih s g by simp
    next
      case (Some z)
      show ?thesis
      proof (cases z)
        case (Inl e)
        then show ?thesis using ih s g Some by auto
      next
        case (Inr u)
        then obtain k sig where "signals t2 = replicate k SigHup @ [sig]" "sig \<noteq> SigHup"
          using ih Some by auto
        then have "signals t = replicate (Suc k) SigHup @ [sig]" "sig \<noteq> SigHup" using s by simp_all
        then have "\<exists>k sig. signals t = replicate k SigHup @ [sig] \<and> sig \<noteq> SigHup" by blast
        then show ?thesis using ih g Some Inr by simp
      qed
    qed
  next
    case False
    then have t2: "t2 = []" "x = (case y of Inl e \<Rightarrow> Some (Inl e) | Inr sig \<Rightarrow> Some (Inr ()))"
      using rest by (auto split: sum.splits if_splits)
    show ?thesis
    proof (cases y)
      case (Inl e)
      then show ?thesis using m t t2 by simp
    next
      case (Inr sig)
      have "signals t1 = [sig]" and q: "\<forall>u. one_generation False (t1 @ u) = one_generation False u"
        using m Inr by simp_all
      then have "signals t = replicate 0 SigHup @ [sig]" "sig \<noteq> SigHup" using t t2 False Inr by simp_all
      moreover have "one_generation False t" using q [THEN spec, of "[]"] t t2 by simp
      moreover from calculation(1,2) have "\<exists>k sig. signals t = replicate k SigHup @ [sig] \<and> sig \<noteq> SigHup" by blast
      ultimately show ?thesis using t2(2) Inr by simp
    qed
  qed
qed simp

end
