(* ===== verification/Aeroftp_Http.thy ===== *)
theory Aeroftp_Http
  imports Effects
begin

text \<open>
  The HTTP server of aeroftp (\<open>aeroftp/src/http/server.rs\<close>): routing, the metrics, the change of the
  log filter at run time, and the accept loop with its shutdown.  Collecting a body, gathering
  metrics, modifying the filter and the operations of the listener are commands; the JSON reader
  (\<open>from_json\<close>, the value of \<open>log_level\<close>), the parser of filter directives (\<open>try_new\<close>) and that of socket
  addresses are parameters.
\<close>

section \<open>Requests and responses\<close>

datatype endpoint = MetricsEndpoint | ConfigEndpoint

definition endpoint_from_str :: "string \<Rightarrow> string + endpoint" where
  "endpoint_from_str s =
     (if s = ''/metrics'' then Inr MetricsEndpoint
      else if s = ''/config'' then Inr ConfigEndpoint
      else Inl ''Unknown endpoint'')"

fun show_endpoint :: "endpoint \<Rightarrow> string" where
  "show_endpoint MetricsEndpoint = ''/metrics''"
| "show_endpoint ConfigEndpoint = ''/config''"

lemma endpoint_round_trip: "endpoint_from_str s = Inr e \<longleftrightarrow> s = show_endpoint e"
  by (cases e) (auto simp: endpoint_from_str_def)

datatype http_method = MGet | MPost | MOther string

datatype 'f http_cmd = GatherMetrics | CollectBody | ModifyFilter 'f

datatype http_reply = HFault string | HOk | HBytes string

record http_response =
  hr_status :: nat
  hr_body :: string

definition respond :: "nat \<Rightarrow> string \<Rightarrow> http_response" where
  "respond st b = \<lparr>hr_status = st, hr_body = b\<rparr>"

type_synonym 'f handler = "('f http_cmd, http_reply, http_response) prog"

section \<open>Handlers\<close>

definition handle_metrics :: "'f handler" where
  "handle_metrics = Op GatherMetrics (\<lambda>r. Ret (case r of HBytes b \<Rightarrow> respond 200 b | _ \<Rightarrow> respond 500 []))"

definition MAX_BODY :: nat where
  "MAX_BODY = 8 * 1024"

definition handle_config :: "(string \<Rightarrow> string + string) \<Rightarrow> (string \<Rightarrow> string + 'f) \<Rightarrow> 'f handler" where
  "handle_config from_json try_new =
     Op CollectBody (\<lambda>r.
     case r of
       HBytes b \<Rightarrow>
         if MAX_BODY < length b then Ret (respond 400 ''request body too large'')
         else
           (case from_json b of
              Inl e \<Rightarrow> Ret (respond 400 (''invalid JSON: '' @ e))
            | Inr log_level \<Rightarrow>
                (case try_new log_level of
                   Inl e \<Rightarrow> Ret (respond 400 (''invalid log level '' @ single_quoted log_level @ '': '' @ e))
                 | Inr new_filter \<Rightarrow>
                     Op (ModifyFilter new_filter) (\<lambda>m.
                     Ret (case m of HFault e \<Rightarrow> respond 500 [] | _ \<Rightarrow> respond 200 []))))
     | _ \<Rightarrow> Ret (respond 400 []))"

definition router ::
    "(string \<Rightarrow> string + string) \<Rightarrow> (string \<Rightarrow> string + 'f) \<Rightarrow> http_method \<Rightarrow> string \<Rightarrow> 'f handler" where
  "router from_json try_new meth path =
     (case (meth, endpoint_from_str path) of
        (MGet, Inr MetricsEndpoint) \<Rightarrow> handle_metrics
      | (MPost, Inr ConfigEndpoint) \<Rightarrow> handle_config from_json try_new
      | (_, Inl e) \<Rightarrow> Ret (respond 404 [])
      | _ \<Rightarrow> Ret (respond 405 []))"

section \<open>What a request can do\<close>

lemma handle_config_runs:
  assumes "runs (handle_config from_json try_new) t resp"
  obtains (rejected) r where "t = [(CollectBody, r)]" "hr_status resp = 400"
  | (applied) b lvl f r where "t = [(CollectBody, HBytes b), (ModifyFilter f, r)]" "length b \<le> MAX_BODY"
      "from_json b = Inr lvl" "try_new lvl = Inr f"
      "hr_status resp = (if \<exists>e. r = HFault e then 500 else 200)"
proof -
  obtain r t1 where t: "t = (CollectBody, r) # t1"
    and rest: "runs (case r of HBytes b \<Rightarrow>
         if MAX_BODY < length b then Ret (respond 400 ''request body too large'')
         else (case from_json b of Inl e \<Rightarrow> Ret (respond 400 (''invalid JSON: '' @ e))
          | Inr log_level \<Rightarrow> (case try_new log_level of
              Inl e \<Rightarrow> Ret (respond 400 (''invalid log level '' @ single_quoted log_level @ '': '' @ e))
            | Inr new_filter \<Rightarrow> Op (ModifyFilter new_filter) (\<lambda>m.
                Ret (case m of HFault e \<Rightarrow> respond 500 [] | _ \<Rightarrow> respond 200 []))))
       | _ \<Rightarrow> Ret (respond 400 [])) t1 resp"
    using assms by (auto simp: handle_config_def runs_Op_iff)
  show ?thesis
  proof (cases "\<exists>b lvl f. r = HBytes b \<and> length b \<le> MAX_BODY \<and> from_json b = Inr lvl \<and> try_new lvl = Inr f")
    case True
    then obtain b lvl f m where "r = HBytes b" "length b \<le> MAX_BODY" "from_json b = Inr lvl"
        "try_new lvl = Inr f" "t1 = [(ModifyFilter f, m)]"
        "resp = (case m of HFault e \<Rightarrow> respond 500 [] | _ \<Rightarrow> respond 200 [])"
      using rest by (auto simp: runs_Op_iff)
    then show ?thesis using t applied [of b f m lvl] by (cases m) (auto simp: respond_def)
  next
    case False
    then have "t1 = [] \<and> hr_status resp = 400"
      using rest by (cases r) (auto simp: respond_def split: sum.splits if_splits)
    then show ?thesis using t rejected by simp
  qed
qed

text \<open>The filter changes only through a valid, accepted directive posted to the config endpoint.\<close>

lemma router_modifies:
  assumes "runs (router from_json try_new meth path) t resp" "(ModifyFilter f, r) \<in> set t"
  shows "meth = MPost \<and> path = ''/config'' \<and>
    (\<exists>b lvl. t = [(CollectBody, HBytes b), (ModifyFilter f, r)] \<and> length b \<le> MAX_BODY \<and>
       from_json b = Inr lvl \<and> try_new lvl = Inr f) \<and>
    hr_status resp = (if \<exists>e. r = HFault e then 500 else 200)"
proof (cases "meth = MPost \<and> path = ''/config''")
  case True
  then have "runs (handle_config from_json try_new) t resp"
    using assms(1) by (simp add: router_def endpoint_from_str_def)
  then show ?thesis
    by (cases rule: handle_config_runs) (use assms(2) True in auto)
next
  case False
  then show ?thesis
    using assms
    by (auto simp: router_def endpoint_from_str_def handle_metrics_def runs_Op_iff
        split: http_method.splits if_splits)
qed

text \<open>Unknown paths and wrong methods do nothing, and are told apart.\<close>

lemma router_refuses:
  "(\<forall>e. path \<noteq> show_endpoint e) \<Longrightarrow> router from_json try_new meth path = Ret (respond 404 [])"
  "meth \<noteq> MGet \<Longrightarrow> router from_json try_new meth ''/metrics'' = Ret (respond 405 [])"
  "meth \<noteq> MPost \<Longrightarrow> router from_json try_new meth ''/config'' = Ret (respond 405 [])"
  by (cases meth; auto simp: router_def endpoint_from_str_def dest: spec [of _ MetricsEndpoint]
      spec [of _ ConfigEndpoint])+

section \<open>The accept loop\<close>

text \<open>
  The next event of the loop's \<open>select!\<close> is a connection, an error of \<open>accept\<close>, or the end of the
  shutdown channel; the wait at the end is for the open connections or five seconds.
\<close>

datatype ('a, 'c) listen_cmd =
    BindHttp 'a
  | NextEvent
  | SpawnConnection 'c
  | CloseListener
  | GracefulOrTimeout nat

datatype 'c listen_reply = LFault string | LOk | Connection 'c | AcceptError string | ChannelClosed

type_synonym ('a, 'c, 'x) listening = "(('a, 'c) listen_cmd, 'c listen_reply, 'x) prog"

fun accept_loop :: "nat \<Rightarrow> ('a, 'c, unit option) listening" where
  "accept_loop 0 = Ret None"
| "accept_loop (Suc n) =
     Op NextEvent (\<lambda>r.
     case r of
       Connection c \<Rightarrow> Op (SpawnConnection c) (\<lambda>_. accept_loop n)
     | AcceptError e \<Rightarrow> accept_loop n
     | _ \<Rightarrow> Op CloseListener (\<lambda>_. Ret (Some ())))"

definition bound :: "'c listen_reply \<Rightarrow> unit result" where
  "bound r = (case r of LFault e \<Rightarrow> Inl (LibFault (OtherFault e)) | _ \<Rightarrow> Inr ())"

definition http_start ::
    "nat \<Rightarrow> (string \<Rightarrow> 'a result) \<Rightarrow> string \<Rightarrow> ('a, 'c, unit result option) listening" where
  "http_start fuel parse bind_addr =
     fuelled (ended (Ret (with_ctx (''unable to parse HTTP address '' @ bind_addr) (parse bind_addr))))
       (\<lambda>http_addr.
     fuelled (ended (ctx (''unable to bind HTTP address '' @ bind_addr) (call (BindHttp http_addr) bound))) (\<lambda>_.
     bind (accept_loop fuel) (\<lambda>x.
     case x of
       None \<Rightarrow> Ret None
     | Some u \<Rightarrow> Op (GracefulOrTimeout 5) (\<lambda>_. Ret (Some (Inr ()))))))"

lemma bound_Inr: "(Inr u = bound r) = (\<forall>e. r \<noteq> LFault e)"
  by (cases r) (auto simp: bound_def)

text \<open>The connections that were accepted and those that are served, in order.\<close>

definition accepted :: "(('a, 'c) listen_cmd \<times> 'c listen_reply) list \<Rightarrow> 'c list" where
  "accepted t = List.map_filter (\<lambda>x. case snd x of Connection c \<Rightarrow> if fst x = NextEvent then Some c else None | _ \<Rightarrow> None) t"

definition connections :: "(('a, 'c) listen_cmd \<times> 'c listen_reply) list \<Rightarrow> 'c list" where
  "connections t = List.map_filter (\<lambda>x. case fst x of SpawnConnection c \<Rightarrow> Some c | _ \<Rightarrow> None) t"

lemma connections_simps [simp]:
  "accepted [] = []" "accepted (t @ u) = accepted t @ accepted u" "connections [] = []"
  "connections (t @ u) = connections t @ connections u"
  "accepted ((NextEvent, r) # t) = (case r of Connection c \<Rightarrow> [c] | _ \<Rightarrow> []) @ accepted t"
  "accepted ((SpawnConnection c, r) # t) = accepted t" "accepted ((BindHttp a, r) # t) = accepted t"
  "accepted ((CloseListener, r) # t) = accepted t" "accepted ((GracefulOrTimeout n, r) # t) = accepted t"
  "connections ((NextEvent, r) # t) = connections t" "connections ((SpawnConnection c, r) # t) = c # connections t"
  "connections ((BindHttp a, r) # t) = connections t" "connections ((CloseListener, r) # t) = connections t"
  "connections ((GracefulOrTimeout n, r) # t) = connections t"
  by (auto simp: accepted_def connections_def List.map_filter_def split: listen_reply.splits)

text \<open>An event that ends the loop.\<close>

definition stops :: "'c listen_reply \<Rightarrow> bool" where
  "stops r \<longleftrightarrow> (\<forall>c. r \<noteq> Connection c) \<and> (\<forall>e. r \<noteq> AcceptError e)"

lemma accept_loop_runs:
  "runs (accept_loop n) t x \<Longrightarrow>
   connections t = accepted t \<and>
   (x \<noteq> None \<longrightarrow> (\<exists>u r r'. t = u @ [(NextEvent, r), (CloseListener, r')] \<and> stops r \<and>
      (\<forall>r. (NextEvent, r) \<in> set u \<longrightarrow> \<not> stops r) \<and> (\<forall>r. (CloseListener, r) \<notin> set u))) \<and>
   (x = None \<longrightarrow> length (filter (\<lambda>y. fst y = NextEvent) t) = n)"
proof (induction n arbitrary: t)
  case (Suc n)
  obtain r t1 where t: "t = (NextEvent, r) # t1"
    and rest: "runs (case r of Connection c \<Rightarrow> Op (SpawnConnection c) (\<lambda>_. accept_loop n)
      | AcceptError e \<Rightarrow> accept_loop n | _ \<Rightarrow> Op CloseListener (\<lambda>_. Ret (Some ()))) t1 x"
    using Suc.prems by (auto simp: runs_Op_iff)
  show ?case
  proof (cases "stops r")
    case True
    then obtain r' where "t1 = [(CloseListener, r')]" "x = Some ()"
      using rest by (cases r) (auto simp: stops_def runs_Op_iff)
    then have "t = [] @ [(NextEvent, r), (CloseListener, r')]" using t by simp
    then show ?thesis
      using True \<open>x = Some ()\<close> by (cases r) (auto simp: stops_def)
  next
    case False
    then obtain s t2 where s: "t1 = s @ t2" and loop: "runs (accept_loop n) t2 x"
      and head: "(s = [] \<and> (\<exists>e. r = AcceptError e)) \<or> (\<exists>c r'. s = [(SpawnConnection c, r')] \<and> r = Connection c)"
    proof (cases r)
      case (Connection c)
      then obtain r' t2 where "t1 = [(SpawnConnection c, r')] @ t2" "runs (accept_loop n) t2 x"
        using rest by (auto simp: runs_Op_iff)
      then show ?thesis using that Connection by blast
    next
      case (AcceptError e)
      then show ?thesis using that [of "[]" t1] rest by simp
    qed (use False in \<open>auto simp: stops_def\<close>)
    note ih = Suc.IH [OF loop]
    have "connections t = accepted t" using ih t s head by auto
    moreover have "\<exists>u r r'. t = u @ [(NextEvent, r), (CloseListener, r')] \<and> stops r \<and>
        (\<forall>r. (NextEvent, r) \<in> set u \<longrightarrow> \<not> stops r) \<and> (\<forall>r. (CloseListener, r) \<notin> set u)" if returned: "x \<noteq> None"
    proof -
      obtain u q q' where "t2 = u @ [(NextEvent, q), (CloseListener, q')]" "stops q"
          "\<forall>r. (NextEvent, r) \<in> set u \<longrightarrow> \<not> stops r" "\<forall>r. (CloseListener, r) \<notin> set u"
        using ih returned by blast
      then show ?thesis
        using t s head False
        by (intro exI [of _ "(NextEvent, r) # s @ u"] exI [of _ q] exI [of _ q']) auto
    qed
    moreover have "length (filter (\<lambda>y. fst y = NextEvent) t) = Suc n" if "x = None"
      using ih that t s head by auto
    ultimately show ?thesis by blast
  qed
qed simp

text \<open>
  A server that ends well has served exactly the connections it accepted, in order, stopped
  accepting at the first event that was not a connection, and closed its listener before it waited
  for the open connections, at most five seconds.
\<close>

lemma http_start_runs:
  assumes "runs (http_start fuel parse addr) t (Some (Inr ()))"
  shows "connections t = accepted t \<and>
    (\<exists>a b u r r' r''. parse addr = Inr a \<and>
       t = (BindHttp a, b) # u @ [(NextEvent, r), (CloseListener, r'), (GracefulOrTimeout 5, r'')] \<and>
       stops r \<and> (\<forall>r. (NextEvent, r) \<in> set u \<longrightarrow> \<not> stops r))"
proof -
  obtain a b t2 where a: "parse addr = Inr a" and t: "t = (BindHttp a, b) # t2"
    and loop: "runs (bind (accept_loop fuel) (\<lambda>x. case x of None \<Rightarrow> Ret None
        | Some u \<Rightarrow> Op (GracefulOrTimeout 5) (\<lambda>_. Ret (Some (Inr ()))))) t2 (Some (Inr ()) :: unit result option)"
    using assms unfolding http_start_def
    by (auto simp: runs_fuelled_iff runs_ended runs_ctx runs_call bound_Inr)
  obtain t3 t4 x where t2: "t2 = t3 @ t4" and l: "runs (accept_loop fuel) t3 x"
    and fin: "runs (case x of None \<Rightarrow> Ret None
        | Some u \<Rightarrow> Op (GracefulOrTimeout 5) (\<lambda>_. Ret (Some (Inr ())))) t4 (Some (Inr ()) :: unit result option)"
    using loop by (rule runs_bindE)
  then obtain g where x: "x \<noteq> None" and t4: "t4 = [(GracefulOrTimeout 5, g)]"
    by (auto simp: runs_Op_iff split: option.splits)
  from accept_loop_runs [OF l] x
  obtain u r r' where "connections t3 = accepted t3" "t3 = u @ [(NextEvent, r), (CloseListener, r')]" "stops r"
      "\<forall>r. (NextEvent, r) \<in> set u \<longrightarrow> \<not> stops r"
    by blast
  then show ?thesis using a t t2 t4 by auto
qed

text \<open>With more fuel than events the loop ends.\<close>

lemma accept_loop_ends:
  "runs (accept_loop n) t x \<Longrightarrow> length (filter (\<lambda>y. fst y = NextEvent) t) < n \<Longrightarrow> x \<noteq> None"
  using accept_loop_runs by fastforce

end
