(* ===== verification/Sample_Tools.thy ===== *)
theory Sample_Tools
  imports Sample_Runs Aeroplug_Safety Aeropulse_Main Aeroftp_Session Aeroftp_Server Aeroftp_Http
begin

text \<open>
  Concrete runs of the other programs: a takeover of an interface that is in use, the configuration
  of a load balancer with two slots, a login, an upload in two chunks, and a filter change.
\<close>

section \<open>A takeover\<close>

definition eni_xml :: "string \<Rightarrow> string" where
  "eni_xml st = ''<item><networkInterfaceId>eni-1</networkInterfaceId><status>'' @ st @
     ''</status><attachment><attachmentId>att-1</attachmentId></attachment></item>''"

definition sample_eni :: eni_args where
  "sample_eni = \<lparr>ea_eni_id = None, ea_name = None, ea_description = None, ea_tag = [], ea_slot = Some 3,
     ea_attach = False, ea_detach = False, ea_takeover = True, ea_takeover_timeout = 30,
     ea_device_index = 1, ea_write_ip_file = None, ea_force = False, ea_region = ''eu''\<rparr>"

definition eni_answer :: "cmd \<Rightarrow> reply" where
  "eni_answer c =
     (case c of
        AwsQuery h s r ps \<Rightarrow>
          if ps = poll_params ''eni-1'' then Text (eni_xml ''available'')
          else if aws_action ps = ''DescribeNetworkInterfaces'' then Text (eni_xml ''in-use'')
          else if aws_action ps = ''DetachNetworkInterface'' then Text ''<return>true</return>''
          else Text ''<attachmentId>att-2</attachmentId>''
      | NowInstant \<Rightarrow> Nanos 0
      | _ \<Rightarrow> Done)"

definition item_of :: "string \<Rightarrow> string" where
  "item_of st = ''<networkInterfaceId>eni-1</networkInterfaceId><status>'' @ st @
     ''</status><attachment><attachmentId>att-1</attachmentId></attachment>''"

lemma eni_items:
  "extract_balanced (eni_xml ''available'') ''item'' = Some (item_of ''available'')"
  "extract_balanced (eni_xml ''in-use'') ''item'' = Some (item_of ''in-use'')"
  "extract_scalar (item_of ''available'') ''status'' = Some ''available''"
  "extract_scalar (item_of ''in-use'') ''status'' = Some ''in-use''"
  "extract_scalar (item_of ''in-use'') ''networkInterfaceId'' = Some ''eni-1''"
  "attachment_of (item_of ''in-use'') = Some ''att-1''"
  "extract_scalar ''<return>true</return>'' ''return'' = Some ''true''"
  "extract_scalar ''<attachmentId>att-2</attachmentId>'' ''attachmentId'' = Some ''att-2''"
  by code_simp+

lemma eni_actions:
  "aws_action (describe_eni_params sel st) = ''DescribeNetworkInterfaces''"
  "aws_action (detach_params att f) = ''DetachNetworkInterface''"
  "aws_action (attach_params i e d) = ''AttachNetworkInterface''"
  "describe_eni_params (EniSlot n) None \<noteq> poll_params e"
  by (auto simp: aws_action_def describe_eni_params_def detach_params_def attach_params_def split_beta
      poll_params_def filter_params_def)

lemmas eni_run_defs = ec2_call_def aws_call_def trace_attempt exec_attempt trace_bind exec_bind
  answering_def eni_answer_def decode_defs need_def

abbreviation eni_query :: "(string \<times> string) list \<Rightarrow> cmd" where
  "eni_query ps \<equiv> AwsQuery (ec2_host ''eu'') ''ec2'' ''eu'' ps"

lemma target_run:
  "trace (answering eni_answer) (takeover_target ''eu'' (EniSlot 3)) () =
     [(eni_query (describe_eni_params (EniSlot 3) None), Text (eni_xml ''in-use''))]"
  "exec (answering eni_answer) (takeover_target ''eu'' (EniSlot 3)) () =
     (Inr (''eni-1'', ''in-use'', extract_scalar (item_of ''in-use'') ''privateIpAddress'', item_of ''in-use''), ())"
  by (simp_all add: takeover_target_def describe_eni_xml_def eni_run_defs eni_items eni_actions)

lemma detach_run:
  "trace (answering eni_answer) (do_detach_eni ''eu'' ''att-1'' True) () =
     [(eni_query (detach_params ''att-1'' True), Text ''<return>true</return>'')]"
  "exec (answering eni_answer) (do_detach_eni ''eu'' ''att-1'' True) () = (Inr (), ())"
  using detach_not_others(1) [of "''att-1''" True "''eni-1''"]
  by (simp_all add: do_detach_eni_def eni_run_defs eni_actions returned_true_def eni_items)

lemma poll_run:
  "trace (answering eni_answer) (poll_until_available (Suc n) ''eu'' ''eni-1'' 30) () =
     [(NowInstant, Nanos 0), (eni_query (poll_params ''eni-1''), Text (eni_xml ''available''))]"
  "exec (answering eni_answer) (poll_until_available (Suc n) ''eu'' ''eni-1'' 30) () = (Some (Inr ()), ())"
  by (simp_all add: poll_until_available_def instant_now_def as_nanos_def deadline_at_def nanos_per_sec_def
      eni_run_defs eni_status_def eni_items)

lemma attach_run:
  "trace (answering eni_answer) (do_attach_eni ''eu'' ''i-a'' ''eni-1'' 1) () =
     [(eni_query (attach_params ''i-a'' ''eni-1'' 1), Text ''<attachmentId>att-2</attachmentId>'')]"
  "exec (answering eni_answer) (do_attach_eni ''eu'' ''i-a'' ''eni-1'' 1) () = (Inr ''att-2'', ())"
  using attach_not_others(1) [of "''i-a''" "''eni-1''" 1 "''eni-1''"]
  by (simp_all add: do_attach_eni_def eni_run_defs eni_actions eni_items)

lemma takeover_trace:
  "trace (answering eni_answer) (cmd_takeover (Suc n) sample_eni (EniSlot 3) ''i-a'') () =
     [(eni_query (describe_eni_params (EniSlot 3) None), Text (eni_xml ''in-use'')),
      (eni_query (detach_params ''att-1'' True), Text ''<return>true</return>''),
      (NowInstant, Nanos 0), (eni_query (poll_params ''eni-1''), Text (eni_xml ''available'')),
      (eni_query (attach_params ''i-a'' ''eni-1'' 1), Text ''<attachmentId>att-2</attachmentId>'')]"
  by (simp add: cmd_takeover_def take_from_holder_def fuelled_def ended_def sample_eni_def write_ip_def
      trace_bind exec_bind target_run detach_run poll_run attach_run eni_items need_def)

section \<open>A load balancer with two slots\<close>

definition sample_pulse :: pulse_args where
  "sample_pulse = \<lparr>pa_auth_pass = ''p'', pa_out = ''/e/vrrp.conf'', pa_notify_master_out = ''/e/nm.sh'',
     pa_notify_backup_out = ''/e/nb.sh'', pa_chk_backends_out = ''/e/cb.sh'', pa_chk_forward_out = ''/e/cf.sh'',
     pa_backends_out = ''/e/backends.conf'', pa_iface_outside = ''eth0'', pa_iface_inside = ''eth1'',
     pa_iface_sync = ''eth2'', pa_iface_vxlan = ''vxlan0'', pa_vrid_outside = 51, pa_vrid_inside = 52,
     pa_advert_int = 1, pa_lvs_sync_id = 1, pa_lvs_sync_port = 8848, pa_down_timer_adverts = 3,
     pa_priority_master = 150, pa_priority_backup = 100, pa_enable_track_interface = True,
     pa_enable_track_backends = True, pa_track_min_backends = 1, pa_enable_track_forward = False,
     pa_track_probe_host = None, pa_track_probe_port = 80, pa_track_probe_timeout = 2,
     pa_track_weight = -60, pa_track_interval = 5, pa_track_fall = 2, pa_track_rise = 2,
     pa_lvs_sched = ''wlc'', pa_persistence_timeout = 30, pa_assign_bin = ''/b/aeroplug'', pa_region = ''eu''\<rparr>"

definition sample_balancer :: instance_data where
  "sample_balancer = \<lparr>id_instance_id = ''i-lb'', id_role = MasterRole,
     id_outside = \<lparr>ii_device_number = 0, ii_eni_id = ''eni-0'', ii_primary_ip = ''10.0.1.5''\<rparr>,
     id_inside = \<lparr>ii_device_number = 1, ii_eni_id = ''eni-1'', ii_primary_ip = ''10.0.0.5''\<rparr>,
     id_peer_sync_ip = ''10.0.2.6'',
     id_sync = \<lparr>ii_device_number = 2, ii_eni_id = ''eni-2'', ii_primary_ip = ''10.0.2.5''\<rparr>,
     id_vip_outside = ''10.0.1.100'', id_vip_inside = ''10.0.0.100'', id_slot_network = sample_net,
     id_slot_count = 2\<rparr>"

lemma sample_plain: "plain_values sample_pulse sample_balancer"
  by (simp add: plain_values_def sample_pulse_def sample_balancer_def)

lemma sample_slot_ips: "slot_ips sample_balancer = [167772180, 167772181]"
proof -
  have "[0..<2] = [0, 1 :: nat]" by (simp add: upt_rec)
  then show ?thesis
    by (simp add: slot_ips_def slots_below_def sample_balancer_def sample_net_def ip_for_slot_def
        slot_network_new_def)
qed

text \<open>The metadata of this load balancer, and the run of the tool on it.\<close>

definition imds_values :: "(string \<times> string) list" where
  "imds_values =
     [(''instance-id'', ''i-lb''),
      (''tags/instance/keepalived-role'', ''master''),
      (''network/interfaces/macs/'', ''02:00/'' @ newline # ''02:01/'' @ newline # ''02:02/''),
      (''network/interfaces/macs/02:00/device-number'', ''0''),
      (''network/interfaces/macs/02:00/interface-id'', ''eni-0''),
      (''network/interfaces/macs/02:00/local-ipv4s'', ''10.0.1.5''),
      (''network/interfaces/macs/02:01/device-number'', ''1''),
      (''network/interfaces/macs/02:01/interface-id'', ''eni-1''),
      (''network/interfaces/macs/02:01/local-ipv4s'', ''10.0.0.5''),
      (''network/interfaces/macs/02:01/subnet-ipv4-cidr-block'', ''10.0.0.0/24''),
      (''network/interfaces/macs/02:02/device-number'', ''2''),
      (''network/interfaces/macs/02:02/interface-id'', ''eni-2''),
      (''network/interfaces/macs/02:02/local-ipv4s'', ''10.0.2.5''),
      (''tags/instance/keepalived-peer-sync'', ''10.0.2.6''),
      (''tags/instance/aeroftp-vip-outside'', ''10.0.1.100''),
      (''tags/instance/aeroftp-vip-inside'', ''10.0.0.100''),
      (''tags/instance/aeroftp-slot-offset'', ''20''),
      (''tags/instance/aeroftp-slot-count'', ''2'')]"

definition imds_answer :: "cmd \<Rightarrow> reply" where
  "imds_answer c =
     (case c of
        ImdsToken \<Rightarrow> Text ''tok''
      | ImdsPath tok p \<Rightarrow> (case map_of imds_values p of Some v \<Rightarrow> Text v | None \<Rightarrow> Failed IoError)
      | _ \<Rightarrow> Done)"

lemma imds_texts:
  "mac_lines (''02:00/'' @ newline # ''02:01/'' @ newline # ''02:02/'') = [''02:00'', ''02:01'', ''02:02'']"
  "trim ''0'' = ''0''" "trim ''1'' = ''1''" "trim ''2'' = ''2''" "trim ''20'' = ''20''"
  "trim ''10.0.0.0/24'' = ''10.0.0.0/24''"
  "lines ''10.0.1.5'' = [''10.0.1.5'']" "lines ''10.0.0.5'' = [''10.0.0.5'']" "lines ''10.0.2.5'' = [''10.0.2.5'']"
  "trim ''10.0.1.5'' = ''10.0.1.5''" "trim ''10.0.0.5'' = ''10.0.0.5''" "trim ''10.0.2.5'' = ''10.0.2.5''"
  by code_simp+

lemma shown_nats:
  "show_nat 0 = ''0''" "show_nat (Suc 0) = ''1''" "show_nat 2 = ''2''" "show_nat 10 = ''10''" "show_nat 20 = ''20''"
  "show_nat 24 = ''24''"
  by code_simp+

lemma imds_numbers:
  "parse_u32 ''0'' = Some 0" "parse_u32 ''1'' = Some 1" "parse_u32 ''2'' = Some 2" "parse_u32 ''20'' = Some 20"
  using parse_u32_show [of 0] parse_u32_show [of 1] parse_u32_show [of 2] parse_u32_show [of 20]
  by (simp_all add: show_word_def shown_nats)

lemma imds_cidr: "parse_cidr ''10.0.0.0/24'' = Inr (167772160, 24)"
  using parse_cidr_render [of 24 167772160] by (simp add: show_ip_def octet_def shown_nats)

lemma imds_path_run:
  "map_of imds_values p = Some v \<Longrightarrow> trim v = v \<Longrightarrow>
     exec (answering imds_answer) (fetch_imds_path tok p) () = (Inr v, ())"
  by (simp add: fetch_imds_path_def answering_def imds_answer_def decode_defs exec_attempt)

lemma all_trimmed: "list_all (\<lambda>(p, v). trim v = v) imds_values"
  by code_simp

lemma imds_run:
  "map_of imds_values p = Some v \<Longrightarrow>
     exec (answering imds_answer) (fetch_imds_path tok p) () = (Inr v, ())"
  using all_trimmed map_of_SomeD [of imds_values p v] by (intro imds_path_run) (auto simp: list_all_iff)

lemma imds_lookups:
  "map_of imds_values ''instance-id'' = Some ''i-lb''"
  "map_of imds_values ''tags/instance/keepalived-role'' = Some ''master''"
  "map_of imds_values ''network/interfaces/macs/'' = Some (''02:00/'' @ newline # ''02:01/'' @ newline # ''02:02/'')"
  "map_of imds_values (mac_path ''02:00'' ''device-number'') = Some ''0''"
  "map_of imds_values (mac_path ''02:00'' ''interface-id'') = Some ''eni-0''"
  "map_of imds_values (mac_path ''02:00'' ''local-ipv4s'') = Some ''10.0.1.5''"
  "map_of imds_values (mac_path ''02:01'' ''device-number'') = Some ''1''"
  "map_of imds_values (mac_path ''02:01'' ''interface-id'') = Some ''eni-1''"
  "map_of imds_values (mac_path ''02:01'' ''local-ipv4s'') = Some ''10.0.0.5''"
  "map_of imds_values (mac_path ''02:01'' ''subnet-ipv4-cidr-block'') = Some ''10.0.0.0/24''"
  "map_of imds_values (mac_path ''02:02'' ''device-number'') = Some ''2''"
  "map_of imds_values (mac_path ''02:02'' ''interface-id'') = Some ''eni-2''"
  "map_of imds_values (mac_path ''02:02'' ''local-ipv4s'') = Some ''10.0.2.5''"
  "map_of imds_values ''tags/instance/keepalived-peer-sync'' = Some ''10.0.2.6''"
  "map_of imds_values ''tags/instance/aeroftp-vip-outside'' = Some ''10.0.1.100''"
  "map_of imds_values ''tags/instance/aeroftp-vip-inside'' = Some ''10.0.0.100''"
  "map_of imds_values ''tags/instance/aeroftp-slot-offset'' = Some ''20''"
  "map_of imds_values ''tags/instance/aeroftp-slot-count'' = Some ''2''"
  by code_simp+

lemmas imds_runs = imds_lookups [THEN imds_run]

lemma interface_runs:
  "exec (answering imds_answer) (fetch_interface tok ''02:00'') () = (Inr (id_outside sample_balancer), ())"
  "exec (answering imds_answer) (fetch_interface tok ''02:01'') () = (Inr (id_inside sample_balancer), ())"
  "exec (answering imds_answer) (fetch_interface tok ''02:02'') () = (Inr (id_sync sample_balancer), ())"
  by (simp_all add: fetch_interface_def exec_attempt imds_runs imds_numbers imds_texts sample_balancer_def)

lemma interfaces_run:
  "exec (answering imds_answer) (fetch_all_interfaces tok) () =
     (Inr [id_outside sample_balancer, id_inside sample_balancer, id_sync sample_balancer], ())"
  using imds_texts(1) by (simp add: fetch_all_interfaces_def exec_attempt imds_runs interface_runs)

lemma three_run:
  "three_interfaces [id_outside sample_balancer, id_inside sample_balancer, id_sync sample_balancer] =
     Inr (id_outside sample_balancer, id_inside sample_balancer, id_sync sample_balancer)"
  by (simp add: three_interfaces_def sample_balancer_def)

lemma token_run: "exec (answering imds_answer) fetch_imds_token () = (Inr ''tok'', ())"
  by (simp add: fetch_imds_token_def answering_def imds_answer_def decode_defs exec_attempt)

lemmas eth1_runs = imds_runs [unfolded mac_path_def, simplified]

lemma net_run: "exec (answering imds_answer) from_imds () = (Inr sample_net, ())"
  using imds_texts(1)
  by (simp add: from_imds_def exec_attempt exec_bind token_run eth1_runs imds_texts imds_cidr imds_numbers sample_net_def)

lemma resolve_run:
  "exec (answering imds_answer) resolve_instance_data () = (Inr sample_balancer, ())"
  by (simp add: resolve_instance_data_def fetch_imds_tag_def exec_attempt token_run eth1_runs interfaces_run
      three_run net_run parse_role_def parse_slot_count_def imds_texts imds_numbers)
    (simp add: sample_balancer_def)

lemma pulse_run:
  "fst (exec (answering imds_answer) (pulse_main ts sample_pulse) ()) = Inr ()"
proof -
  have m: "\<not> (pa_enable_track_forward sample_pulse \<and> pa_track_probe_host sample_pulse = None)"
    by (simp add: sample_pulse_def)
  have w: "exec (answering imds_answer) (write_file p c m) () = (Inr (), ())" for p c m
    by (simp add: write_file_def create_parent_def put_file_def exec_attempt exec_bind answering_def imds_answer_def
        decode_defs split: option.splits)
  show ?thesis
    using m by (simp only: pulse_main_def) (simp add: exec_attempt resolve_run w pulse_files_def)
qed

section \<open>A session of the FTP server\<close>

definition any_password :: "string \<Rightarrow> credentials \<Rightarrow> err + principal" where
  "any_password u c = Inr \<lparr>p_username = u, p_source_ip = None\<rparr>"

definition sample_login :: "aero_user rio" where
  "sample_login = login any_password ''ct'' \<lparr>c_password = None, c_source_ip = V4 167772161\<rparr>"

lemma login_run:
  "fst (exec (answering (\<lambda>_. Hash [(''serial'', ''7'')])) sample_login ()) =
     Inr \<lparr>au_username = ''ct'', au_client_ip = V4 167772161, au_system_meta = hash_map [(''serial'', ''7'')],
       au_quarantined = False\<rparr>"
  by (simp add: sample_login_def login_def authenticate_def any_password_def provide_user_detail_def Let_def
      exec_attempt answering_def decode_defs)

definition sample_user :: aero_user where
  "sample_user = \<lparr>au_username = ''ct'', au_client_ip = V4 167772161,
     au_system_meta = hash_map [(''serial'', ''7'')], au_quarantined = False\<rparr>"

text \<open>A client that sends the given chunks, and a store that takes everything.\<close>

fun chunk_srv :: "string list \<Rightarrow> sto_cmd \<Rightarrow> sto_reply \<times> string list" where
  "chunk_srv [] (ReadInput n) = (StoBytes [], [])"
| "chunk_srv (b # bs) (ReadInput n) = (StoBytes b, bs)"
| "chunk_srv bs _ = (StoOk, bs)"

lemma chunk_srv_other [simp]:
  "chunk_srv bs (OpenWriter p m) = (StoOk, bs)" "chunk_srv bs (WriteAll b) = (StoOk, bs)"
  "chunk_srv bs Shutdown = (StoOk, bs)"
  by (cases bs; simp)+

abbreviation sample_put :: "(string + u64) option sto" where
  "sample_put \<equiv> put_object (Suc (Suc (Suc 0))) sample_user ''/f''"

lemma put_run:
  "trace chunk_srv sample_put [''ab'', ''c''] =
     [(OpenWriter ''/f'' (au_system_meta sample_user), StoOk), (ReadInput 8192, StoBytes ''ab''),
      (WriteAll ''ab'', StoOk), (ReadInput 8192, StoBytes ''c''), (WriteAll ''c'', StoOk),
      (ReadInput 8192, StoBytes []), (Shutdown, StoOk)]"
  "fst (exec chunk_srv sample_put [''ab'', ''c'']) = Some (Inr 3)"
  by (simp_all add: put_object_def copy_read_write_loop_def trace_bind exec_bind put_result_def Let_def)

section \<open>The frame of the FTP server\<close>

definition term_answer :: "frame_cmd \<Rightarrow> frame_reply" where
  "term_answer c = (if c = NextSignal then Got SigTerm else Ok)"

lemma term_run:
  "signals (trace (answering term_answer) (ftp_run (Suc 0)) ()) = [SigTerm]"
  "fst (exec (answering term_answer) (ftp_run (Suc 0)) ()) = Some (Inr ())"
  by (simp_all add: main_task_def listen_for_signals_def trace_bind exec_bind trace_attempt exec_attempt
      answering_def term_answer_def ok_def signal_of_def Let_def)

definition filter_srv :: "'f http_cmd \<Rightarrow> http_reply" where
  "filter_srv c = (case c of CollectBody \<Rightarrow> HBytes ''debug'' | _ \<Rightarrow> HOk)"

abbreviation sample_post :: "string handler" where
  "sample_post \<equiv> router Inr Inr MPost ''/config''"

lemma post_run:
  "trace (answering filter_srv) sample_post () =
     [(CollectBody, HBytes ''debug''), (ModifyFilter ''debug'', HOk)]"
  by (simp add: router_def endpoint_from_str_def handle_config_def answering_def filter_srv_def MAX_BODY_def
      Let_def)

end
