(* ===== verification/Slot_Main.thy ===== *)
theory Slot_Main
  imports Slot_Lua Slot_Heartbeat
begin

text \<open>
  The \<open>main\<close> functions of \<open>aeroslot/src/main.rs\<close> and \<open>lua.rs\<close>: build the client, connect, carry out
  the command.  The constructors of the client library are a parameter (\<open>open_client\<close>: the error of
  an invalid URL or certificate); the argument parser is not modelled, and what
  \<open>status\<close> prints is in the theory Tables.
\<close>

record slot_args =
  sa_redis_url :: string
  sa_tls :: bool
  sa_tls_insecure :: bool
  sa_tls_ca_cert :: "string option"

datatype slot_command =
    SlotInit u32 u32
  | SlotClaim string u64
  | SlotRenew u32 string u64
  | SlotHeartbeat heartbeat
  | SlotRelease u32 string
  | SlotStatus

datatype lua_command =
    LuaInit u32 u32
  | LuaClaim string u64
  | LuaRenew u32 string u64
  | LuaRelease u32 string
  | LuaStatus

definition client_message :: "redis_client \<Rightarrow> string" where
  "client_message c =
     (case c of ClientOpen u \<Rightarrow> ''Invalid Redis URL'' | BuildWithTls u p \<Rightarrow> ''Failed to build Redis TLS client'')"

definition slot_connect :: "(redis_client \<Rightarrow> unit result) \<Rightarrow> slot_args \<Rightarrow> unit rio" where
  "slot_connect open_client a =
     attempt (build_redis_client (sa_redis_url a) (sa_tls a) (sa_tls_insecure a) (sa_tls_ca_cert a))
       (\<lambda>client.
     attempt (Ret (with_ctx (client_message client) (open_client client))) (\<lambda>_.
     ctx ''Failed to connect to Redis'' (call RedisConnect (as_unit RedisFault))))"

definition shown_status :: "status rio \<Rightarrow> unit rio" where
  "shown_status p = attempt p (\<lambda>_. Ret (Inr ()))"

fun lua_dispatch :: "lua_command \<Rightarrow> unit rio" where
  "lua_dispatch (LuaInit mn mx) = lua_cmd_init mn mx"
| "lua_dispatch (LuaClaim i ttl) = lua_cmd_claim i ttl"
| "lua_dispatch (LuaRenew s i ttl) = lua_cmd_renew s i ttl"
| "lua_dispatch (LuaRelease s i) = lua_cmd_release s i"
| "lua_dispatch LuaStatus = shown_status lua_cmd_status"

definition lua_main :: "(redis_client \<Rightarrow> unit result) \<Rightarrow> slot_args \<Rightarrow> lua_command \<Rightarrow> unit rio" where
  "lua_main open_client a c = attempt (slot_connect open_client a) (\<lambda>_. lua_dispatch c)"

fun slot_dispatch :: "nat \<Rightarrow> slot_command \<Rightarrow> unit result option io" where
  "slot_dispatch ticks (SlotInit mn mx) = ended (cmd_init mn mx)"
| "slot_dispatch ticks (SlotClaim i ttl) = ended (cmd_claim i ttl)"
| "slot_dispatch ticks (SlotRenew s i ttl) = ended (cmd_renew s i ttl)"
| "slot_dispatch ticks (SlotHeartbeat h) = cmd_heartbeat ticks h"
| "slot_dispatch ticks (SlotRelease s i) = ended (cmd_release s i)"
| "slot_dispatch ticks SlotStatus = ended (shown_status cmd_status)"

definition slot_main ::
    "nat \<Rightarrow> (redis_client \<Rightarrow> unit result) \<Rightarrow> slot_args \<Rightarrow> slot_command \<Rightarrow> unit result option io" where
  "slot_main ticks open_client a c =
     fuelled (ended (slot_connect open_client a)) (\<lambda>_. slot_dispatch ticks c)"

section \<open>Connecting\<close>

lemma slot_connect_emits:
  assumes "P RedisConnect" "\<And>f. P (ReadFile f)"
  shows "emits P (slot_connect open_client a)"
  using assms
  by (auto simp: slot_connect_def build_redis_client_def Let_def intro!: emits_attemptI split: option.splits)

lemma runs_connect_cases:
  "runs (slot_connect open_client a) t x \<Longrightarrow> (c, r) \<in> set t \<Longrightarrow> c = RedisConnect \<or> (\<exists>f. c = ReadFile f)"
  using emits_runs [OF _ slot_connect_emits [of "\<lambda>c. c = RedisConnect \<or> (\<exists>f. c = ReadFile f)"]] by blast

lemma runs_lua_mainE:
  assumes "runs (lua_main open_client a c) t x"
  obtains (not_connected) e where "runs (slot_connect open_client a) t (Inl e)" "x = Inl e"
  | (connected) t1 t2 where "t = t1 @ t2" "runs (slot_connect open_client a) t1 (Inr ())"
      "runs (lua_dispatch c) t2 x"
  using assms unfolding lua_main_def by (cases rule: runs_attemptE) auto

end
