(* ===== verification/Slot_Concurrent.thy ===== *)
theory Slot_Concurrent
  imports Slot_Main Concurrency
begin

text \<open>
  Any number of \<open>aeroslot-lua\<close> processes at once, their commands interleaved in any way.  Since each
  process changes the pool by one script, the run is a sequence of steps of the abstract pool, in
  the order in which Redis ran the scripts (\<open>lua_serializes\<close>); so concurrent claims are given
  different slots.  The native tool does not have this property (\<open>Slot_Runs.two_claims_run\<close>).
\<close>

section \<open>Scripts and pool operations\<close>

text \<open>The operation that a script carries out, and the reply that reports its result.\<close>

fun script_op :: "script \<Rightarrow> pool_op \<Rightarrow> bool" where
  "script_op (InitScript lo hi) a = (a = Init lo hi)"
| "script_op (ClaimScript now i ttl) a = (a = Claim now ttl i)"
| "script_op (RenewScript s i now ttl) a = (\<exists>n. s = show_word n \<and> a = Renew now ttl i n)"
| "script_op (ReleaseScript s i now) a = (\<exists>n. s = show_word n \<and> a = Release now i n)"

lemma script_op_ex [simp]:
  "Ex (script_op (InitScript lo hi))" "Ex (script_op (ClaimScript now i ttl))"
  "Ex (script_op (RenewScript (show_word (n :: u32)) i now ttl))"
  "Ex (script_op (ReleaseScript (show_word n) i now))"
  by (rule exI [of _ "Init lo hi"] exI [of _ "Claim now ttl i"] exI [of _ "Renew now ttl i n"]
      exI [of _ "Release now i n"], simp)+

fun reply_of :: "pool_res \<Rightarrow> reply" where
  "reply_of (Added n) = Count n"
| "reply_of (Slot b) = Bulk b"
| "reply_of (Accepted b) = Count (if b then 1 else 0)"

lemma script_refines:
  assumes "atomically (script_prog sc) v r v'" "script_op sc a"
  shows "\<exists>res. r = reply_of res \<and> spec_op lua_expiry a (pool_of v) res (pool_of v')"
proof (cases sc)
  case (InitScript lo hi)
  with assms obtain x where "atomically (lua_init lo hi) v x v'" "r = script_reply Count x" "a = Init lo hi"
    by (auto simp: atomically_bind)
  moreover obtain n where "x = Inr n" "spec_op lua_expiry (Init lo hi) (pool_of v) (Added n) (pool_of v')"
    using lua_init_refines calculation(1) by blast
  ultimately show ?thesis by (auto simp: script_reply_def intro!: exI [of _ "Added n"])
next
  case (ClaimScript now i ttl)
  with assms obtain x where "atomically (lua_claim (unat now) i (unat ttl)) v x v'"
      "r = script_reply Bulk x" "a = Claim now ttl i"
    by (auto simp: atomically_bind)
  moreover obtain b where "x = Inr b" "spec_op lua_expiry (Claim now ttl i) (pool_of v) (Slot b) (pool_of v')"
    using lua_claim_refines calculation(1) by blast
  ultimately show ?thesis by (auto simp: script_reply_def intro!: exI [of _ "Slot b"])
next
  case (RenewScript s i now ttl)
  with assms obtain x n where "atomically (lua_renew (show_word n) i (unat now) (unat ttl)) v x v'"
      "r = script_reply Count x" "a = Renew now ttl i n"
    by (auto simp: atomically_bind)
  moreover obtain b where "x = Inr (if b then 1 else 0)"
      "spec_op lua_expiry (Renew now ttl i n) (pool_of v) (Accepted b) (pool_of v')"
    using lua_renew_refines calculation(1) by blast
  ultimately show ?thesis by (auto simp: script_reply_def intro!: exI [of _ "Accepted b"])
next
  case (ReleaseScript s i now)
  with assms obtain x n where "atomically (lua_release (show_word n) i (unat now)) v x v'"
      "r = script_reply Count x" "a = Release now i n"
    by (auto simp: atomically_bind)
  moreover obtain b where "x = Inr (if b then 1 else 0)"
      "spec_op lua_expiry (Release now i n) (pool_of v) (Accepted b) (pool_of v')"
    using lua_release_refines calculation(1) by blast
  ultimately show ?thesis by (auto simp: script_reply_def intro!: exI [of _ "Accepted b"])
qed

text \<open>
  \<open>accounts l t\<close>: the operations \<open>t\<close>, each with the process that asked for it, are the scripts of the
  steps \<open>l\<close> in their order, with the results that were answered.  A script whose invocation failed
  may or may not be among them.
\<close>

inductive accounts :: "(nat \<times> cmd \<times> reply) list \<Rightarrow> (nat \<times> pool_op \<times> pool_res) list \<Rightarrow> bool" where
  acc_Nil: "accounts [] []"
| acc_other: "\<forall>sc. c \<noteq> EvalScript sc \<Longrightarrow> accounts l t \<Longrightarrow> accounts ((j, c, r) # l) t"
| acc_done: "script_op sc a \<Longrightarrow> accounts l t \<Longrightarrow>
    accounts ((j, EvalScript sc, reply_of res) # l) ((j, a, res) # t)"
| acc_not_done: "accounts l t \<Longrightarrow> accounts ((j, EvalScript sc, Failed f) # l) t"
| acc_lost: "script_op sc a \<Longrightarrow> accounts l t \<Longrightarrow>
    accounts ((j, EvalScript sc, Failed f) # l) ((j, a, res) # t)"

lemma reply_of_not_failed [simp]: "reply_of res \<noteq> Failed f" "Failed f \<noteq> reply_of res"
  by (cases res; simp)+

text \<open>The commands of the processes: they change the pool by scripts only.\<close>

fun by_script :: "cmd \<Rightarrow> bool" where
  "by_script (Redis (PUBLISH ch m)) = True"
| "by_script (Redis rc) = (\<not> mutates_redis rc)"
| "by_script (EvalScript sc) = (\<exists>a. script_op sc a)"
| "by_script _ = True"

lemma by_script_keeps: "redis_ok rc v r v' \<Longrightarrow> by_script (Redis rc) \<Longrightarrow> v' = v"
  by (induction rule: redis_ok.induct) auto

lemma reads_by_script: "\<not> mutates c \<Longrightarrow> by_script c"
proof (cases c)
  case (Redis rc)
  then show "\<not> mutates c \<Longrightarrow> by_script c" by (cases rc) auto
qed auto

lemma lua_dispatch_by_script: "emits by_script (lua_dispatch c)"
proof (cases c)
  case LuaStatus
  have "emits by_script pool_status"
    by (rule emits_mono [OF pool_status_reads]) (rule reads_by_script)
  then show ?thesis
    using LuaStatus by (simp add: shown_status_def lua_cmd_status_def emits_attemptI)
qed (auto simp: lua_cmd_init_def lua_cmd_claim_def lua_cmd_renew_def lua_cmd_release_def
    lua_publish_asg_change_def intro!: emits_attemptI emits_bindI split: option.splits)

lemma lua_main_by_script: "emits by_script (lua_main open_client a c)"
  unfolding lua_main_def
  by (intro emits_attemptI slot_connect_emits lua_dispatch_by_script) simp_all

section \<open>Serialization\<close>

context redis_scripting
begin

lemma served_accounts:
  assumes "served srv w l w'" "\<And>j c r. (j, c, r) \<in> set l \<Longrightarrow> by_script c"
  shows "\<exists>t. op_run (spec_op lua_expiry) (pool_of (view w)) (map snd t) (pool_of (view w')) \<and> accounts l t"
  using assms
proof (induction l arbitrary: w)
  case Nil
  then show ?case by (auto intro!: exI [of _ "[]"] acc_Nil)
next
  case (Cons x l)
  obtain j c r where x: "x = (j, c, r)" by (cases x)
  define w1 where "w1 = snd (srv w c)"
  have step: "srv w c = (r, w1)" and rest: "served srv w1 l w'"
    using Cons.prems(1) by (auto simp: x w1_def prod_eq_iff)
  have ok: "by_script c" using Cons.prems(2) x by auto
  obtain t where t: "op_run (spec_op lua_expiry) (pool_of (view w1)) (map snd t) (pool_of (view w'))"
      "accounts l t"
    using Cons.IH [OF rest] Cons.prems(2) by fastforce
  show ?case
  proof (cases "\<exists>sc. c = EvalScript sc")
    case False
    have "view w1 = view w"
    proof (cases "\<exists>rc. c = Redis rc")
      case True
      then show ?thesis using any_answer ok step by_script_keeps by metis
    next
      case no: False
      then show ?thesis using not_redis [OF step] False by blast
    qed
    then show ?thesis using t False by (auto simp: x intro!: exI [of _ t] acc_other)
  next
    case True
    then obtain sc a where sc: "c = EvalScript sc" "script_op sc a" using ok by auto
    have carried: "\<exists>res. r' = reply_of res \<and> op_run (spec_op lua_expiry) (pool_of (view w))
        (map snd ((j, a, res) # t)) (pool_of (view w'))"
      if "atomically (script_prog sc) (view w) r' (view w1)" for r'
      using script_refines [OF that sc(2)] t(1) by auto
    consider (ok) "\<forall>f. r \<noteq> Failed f" | (kept) f where "r = Failed f" "view w1 = view w"
      | (lost) f r' where "r = Failed f" "atomically (script_prog sc) (view w) r' (view w1)"
      using script_failed step sc(1) by blast
    then show ?thesis
    proof cases
      case ok
      then show ?thesis using carried script_done step sc t(2) unfolding x by (blast intro: acc_done)
    next
      case kept
      then show ?thesis using t sc unfolding x by (auto intro: acc_not_done)
    next
      case lost
      then show ?thesis using carried sc t(2) unfolding x by (blast intro: acc_lost)
    qed
  qed
qed

lemma lua_serializes:
  assumes "interleave srv sch (map (lua_main open_client a) cs, w) = (qs, w')"
  shows "\<exists>t. op_run (spec_op lua_expiry) (pool_of (view w)) (map snd t) (pool_of (view w')) \<and>
    accounts (steps srv sch (map (lua_main open_client a) cs, w)) t"
proof (rule served_accounts)
  show "served srv w (steps srv sch (map (lua_main open_client a) cs, w)) w'"
    using interleave_served [of srv "(map (lua_main open_client a) cs, w)" sch] assms by simp
next
  fix j c r
  assume "(j, c, r) \<in> set (steps srv sch (map (lua_main open_client a) cs, w))"
  then show "by_script c" by (rule steps_emits [rotated]) (simp add: lua_main_by_script)
qed

end

section \<open>What one process does\<close>

text \<open>The scripts that a command invokes.\<close>

fun asks :: "lua_command \<Rightarrow> script \<Rightarrow> bool" where
  "asks (LuaInit lo hi) sc = (sc = InitScript lo hi)"
| "asks (LuaClaim i ttl) sc = (\<exists>now. sc = ClaimScript now i ttl)"
| "asks (LuaRenew s i ttl) sc = (\<exists>now. sc = RenewScript (show_word s) i now ttl)"
| "asks (LuaRelease s i) sc = (\<exists>now. sc = ReleaseScript (show_word s) i now)"
| "asks LuaStatus sc = False"

text \<open>
  The shape of a run, and of the beginning of one: no script and no output, or one script, for the
  time that was read before it, and no output but the slot that it gave.
\<close>

fun plain_cmd :: "cmd \<Rightarrow> bool" where
  "plain_cmd (EvalScript sc) = False"
| "plain_cmd (Print s) = False"
| "plain_cmd _ = True"

definition plain :: "(cmd \<times> reply) list \<Rightarrow> bool" where
  "plain h \<longleftrightarrow> (\<forall>x \<in> set h. plain_cmd (fst x))"

definition after_script :: "script \<Rightarrow> reply \<Rightarrow> (cmd \<times> reply) list \<Rightarrow> bool" where
  "after_script sc r h \<longleftrightarrow> (\<forall>x \<in> set h. (\<forall>sc'. fst x \<noteq> EvalScript sc') \<and>
     (\<forall>s. fst x = Print s \<longrightarrow> r = Bulk (Some s) \<and> (\<exists>now i ttl. sc = ClaimScript now i ttl)))"

definition timely :: "script \<Rightarrow> (cmd \<times> reply) list \<Rightarrow> bool" where
  "timely sc h \<longleftrightarrow> (\<forall>now i ttl. sc = ClaimScript now i ttl \<longrightarrow> (\<exists>r. (NowMs, r) \<in> set h \<and> as_millis r = now))"

definition one_script :: "lua_command \<Rightarrow> (cmd \<times> reply) list \<Rightarrow> bool" where
  "one_script c h \<longleftrightarrow> plain h \<or> (\<exists>h1 sc r h2. h = h1 @ (EvalScript sc, r) # h2 \<and> plain h1 \<and>
     asks c sc \<and> timely sc h1 \<and> after_script sc r h2)"

lemma plain_simps [simp]:
  "plain []" "plain (x # h) \<longleftrightarrow> plain_cmd (fst x) \<and> plain h" "plain (h @ h') \<longleftrightarrow> plain h \<and> plain h'"
  "after_script sc r []" "after_script sc r (h @ h') \<longleftrightarrow> after_script sc r h \<and> after_script sc r h'"
  by (auto simp: plain_def after_script_def)

lemma one_script_prefix:
  assumes "one_script c (h @ t)"
  shows "one_script c h"
proof (cases "plain (h @ t)")
  case True
  then show ?thesis by (simp add: one_script_def)
next
  case False
  then obtain h1 sc r h2 where *: "h @ t = h1 @ (EvalScript sc, r) # h2" "plain h1" "asks c sc"
      "timely sc h1" "after_script sc r h2"
    using assms by (auto simp: one_script_def)
  from *(1) consider (early) u where "h1 = h @ u" | (late) u where "h = h1 @ (EvalScript sc, r) # u" "h2 = u @ t"
  proof -
    obtain u where u: "h = h1 @ u \<and> u @ t = (EvalScript sc, r) # h2 \<or> h1 = h @ u"
      using *(1) by (auto simp: append_eq_append_conv2)
    then show thesis using early late by (cases u) auto
  qed
  then show ?thesis
  proof cases
    case early
    then show ?thesis using *(2) by (simp add: one_script_def)
  next
    case late
    then show ?thesis using *(2-5) unfolding one_script_def by auto
  qed
qed

lemma one_script_plain: "plain h \<Longrightarrow> one_script c t \<Longrightarrow> one_script c (h @ t)"
proof -
  assume h: "plain h" and t: "one_script c t"
  show ?thesis
  proof (cases "plain t")
    case True
    then show ?thesis using h by (simp add: one_script_def)
  next
    case False
    then obtain h1 sc r h2 where "t = h1 @ (EvalScript sc, r) # h2" "plain h1" "asks c sc" "timely sc h1"
        "after_script sc r h2"
      using t by (auto simp: one_script_def)
    then have "h @ t = (h @ h1) @ (EvalScript sc, r) # h2 \<and> plain (h @ h1) \<and> asks c sc \<and>
        timely sc (h @ h1) \<and> after_script sc r h2"
      using h by (auto simp: timely_def)
    then show ?thesis unfolding one_script_def by blast
  qed
qed

lemma runs_publish:
  "runs (lua_publish_asg_change s a) t x \<Longrightarrow> \<exists>r. t = [(Redis (PUBLISH ASG_CHANGE_CHANNEL (asg_change s a None)), r)]"
  by (auto simp: lua_publish_asg_change_def redis_unit_def runs_ctx runs_call)

lemma runs_now_ms: "runs now_ms t x \<longleftrightarrow> (\<exists>r. t = [(NowMs, r)] \<and> x = as_millis r)"
  by (auto simp: now_ms_def runs_Op_iff)

lemma runs_print: "runs (print_line s) t x \<longleftrightarrow> (\<exists>r. t = [(Print s, r)])"
  by (auto simp: print_line_def runs_Op_iff)

lemma one_scriptI:
  "h = h1 @ (EvalScript sc, r) # h2 \<Longrightarrow> plain h1 \<Longrightarrow> asks c sc \<Longrightarrow> timely sc h1 \<Longrightarrow> after_script sc r h2 \<Longrightarrow>
   one_script c h"
  unfolding one_script_def by blast

lemma claim_one_script:
  assumes "runs (lua_cmd_claim i ttl) t x"
  shows "one_script (LuaClaim i ttl) t"
proof -
  obtain r0 r1 t2 where t: "t = [(NowMs, r0)] @ (EvalScript (ClaimScript (as_millis r0) i ttl), r1) # t2"
    and t2: "t2 = [] \<or> (\<exists>s r2 r3. r1 = Bulk (Some s) \<and> t2 = [(Print s, r2),
      (Redis (PUBLISH ASG_CHANGE_CHANNEL (asg_change s ''claim'' None)), r3)])"
    using assms
    by (auto simp: lua_cmd_claim_def runs_bind_iff runs_now_ms runs_attempt_iff runs_ctx runs_call
        runs_print decode_Inr dest!: runs_publish sym [of "Inr _"] split: option.splits)
  show ?thesis
    by (rule one_scriptI [OF t]) (use t2 in \<open>auto simp: timely_def after_script_def\<close>)
qed

lemma renew_one_script:
  assumes "runs (lua_cmd_renew s i ttl) t x"
  shows "one_script (LuaRenew s i ttl) t"
proof -
  obtain r0 r1 where t: "t = [(NowMs, r0)] @ (EvalScript (RenewScript (show_word s) i (as_millis r0) ttl), r1) # []"
    using assms
    by (auto simp: lua_cmd_renew_def runs_bind_iff runs_now_ms runs_attempt_iff runs_ctx runs_call
        split: if_splits)
  show ?thesis by (rule one_scriptI [OF t]) (auto simp: timely_def)
qed

lemma init_one_script: "runs (lua_cmd_init lo hi) t x \<Longrightarrow> one_script (LuaInit lo hi) t"
  by (cases "lo > hi")
    (auto simp: lua_cmd_init_def runs_attempt_iff runs_ctx runs_call timely_def one_script_def
      intro!: exI [of _ "[]"])

lemma release_one_script:
  assumes "runs (lua_cmd_release s i) t x"
  shows "one_script (LuaRelease s i) t"
proof -
  obtain r0 r1 t2 where t: "t = [(NowMs, r0)] @ (EvalScript (ReleaseScript (show_word s) i (as_millis r0)), r1) # t2"
    and t2: "t2 = [] \<or> (\<exists>r3. t2 = [(Redis (PUBLISH ASG_CHANGE_CHANNEL
      (asg_change (show_word s) ''release'' None)), r3)])"
    using assms
    by (auto simp: lua_cmd_release_def runs_bind_iff runs_now_ms runs_attempt_iff runs_ctx runs_call
        dest!: runs_publish split: if_splits)
  show ?thesis
    by (rule one_scriptI [OF t]) (use t2 in \<open>auto simp: timely_def after_script_def\<close>)
qed

lemma status_plain: "emits plain_cmd (shown_status lua_cmd_status)"
  unfolding shown_status_def lua_cmd_status_def pool_status_def
  by (auto intro!: emits_attemptI emits_bindI emits_for_each)

lemma emits_plain: "emits plain_cmd p \<Longrightarrow> runs p t x \<Longrightarrow> plain t"
  using emits_runs [of p t x plain_cmd] by (force simp: plain_def)

lemma dispatch_one_script: "runs (lua_dispatch c) t x \<Longrightarrow> one_script c t"
  by (cases c) (auto intro: claim_one_script renew_one_script init_one_script release_one_script
      simp: one_script_def [of LuaStatus] dest: emits_plain [OF status_plain])

lemma main_one_script:
  assumes "runs (lua_main open_client a c) t x"
  shows "one_script c t"
proof -
  have plain: "plain u" if "runs (slot_connect open_client a) u y" for u y
    by (rule emits_plain [OF slot_connect_emits that]) simp_all
  from assms show ?thesis
    by (cases rule: runs_lua_mainE)
      (auto simp: plain intro: one_script_plain dispatch_one_script, auto simp: one_script_def plain)
qed

text \<open>In an interleaved run.\<close>

lemma steps_one_script:
  assumes "j < length cs"
  shows "one_script (cs ! j) (own j (steps srv sch (map (lua_main open_client a) cs, w)))"
proof -
  let ?s = "(map (lua_main open_client a) cs, w)"
  obtain t x where "runs (fst ?s ! j) (own j (steps srv sch ?s) @ t) x"
    using begun_runs [OF interleave_begun [where s = ?s and j = j and srv = srv and sch = sch]] assms by auto
  then have "one_script (cs ! j) (own j (steps srv sch ?s) @ t)"
    using assms by (simp add: main_one_script)
  then show ?thesis by (rule one_script_prefix)
qed

lemma script_in_step:
  assumes "(j, EvalScript sc, r) \<in> set (steps srv sch (map (lua_main open_client a) cs, w))"
  shows "j < length cs \<and> asks (cs ! j) sc \<and>
    timely sc (own j (steps srv sch (map (lua_main open_client a) cs, w)))"
proof -
  let ?l = "steps srv sch (map (lua_main open_client a) cs, w)"
  have j: "j < length cs" using steps_index [OF assms] by simp
  have "(EvalScript sc, r) \<in> set (own j ?l)" using assms by (simp add: in_own)
  with steps_one_script [OF j, of srv sch open_client a w] show ?thesis
    using j unfolding one_script_def plain_def after_script_def timely_def by fastforce
qed

lemma print_in_step:
  assumes "(j, Print s, r) \<in> set (steps srv sch (map (lua_main open_client a) cs, w))"
  shows "\<exists>now i ttl. (j, EvalScript (ClaimScript now i ttl), Bulk (Some s)) \<in>
    set (steps srv sch (map (lua_main open_client a) cs, w))"
proof -
  let ?l = "steps srv sch (map (lua_main open_client a) cs, w)"
  have j: "j < length cs" using steps_index [OF assms] by simp
  have "(Print s, r) \<in> set (own j ?l)" using assms by (simp add: in_own)
  with steps_one_script [OF j, of srv sch open_client a w]
  have "\<exists>now i ttl. (EvalScript (ClaimScript now i ttl), Bulk (Some s)) \<in> set (own j ?l)"
    unfolding one_script_def plain_def after_script_def by fastforce
  then show ?thesis by (simp add: in_own)
qed

section \<open>Concurrent claims\<close>

lemma accounts_in:
  "accounts l t \<Longrightarrow> (j, a, res) \<in> set t \<Longrightarrow> \<exists>sc r. (j, EvalScript sc, r) \<in> set l \<and> script_op sc a"
  by (induction rule: accounts.induct) auto

lemma reply_of_inj: "reply_of res = Bulk b \<longleftrightarrow> res = Slot b"
  by (cases res) auto

lemma accounts_claim:
  "accounts l t \<Longrightarrow> (j, EvalScript (ClaimScript now i ttl), Bulk b) \<in> set l \<Longrightarrow>
   (j, Claim now ttl i, Slot b) \<in> set t"
  by (induction rule: accounts.induct) (auto simp: reply_of_inj eq_commute [of "Bulk b"])

lemma op_run_append:
  "op_run does w (t @ t') w' \<longleftrightarrow> (\<exists>w1. op_run does w t w1 \<and> op_run does w1 t' w')"
  by (induction t arbitrary: w) (auto; blast)+

interpretation contract: slot_pool "\<lambda>p. p" expiry "spec_op expiry" for expiry
  by unfold_locales

lemma claims_differ:
  assumes "op_run (spec_op e) p (t1 @ (Claim now ttl i, Slot (Some s)) # t2 @ (Claim now' ttl' i', Slot (Some s')) # t3) p'"
    and "pool_ok p" "\<forall>a \<in> fst ` set t2. \<not> may_end s i (e now ttl) a" "unat now' < e now ttl"
  shows "s' \<noteq> s"
proof -
  obtain p1 p2 p3 p4 where "op_run (spec_op e) p t1 p1" "spec_op e (Claim now ttl i) p1 (Slot (Some s)) p2"
      "op_run (spec_op e) p2 t2 p3" "spec_op e (Claim now' ttl' i') p3 (Slot (Some s')) p4"
    using assms(1) by (auto simp: op_run_append)
  moreover have "lease_end e s i (e now ttl) (map fst t2) = Some (e now ttl)"
    by (rule lease_end_kept) (use assms(3) in simp)
  ultimately show ?thesis
    using contract.exclusive contract.keeps_ok assms(2,4) by blast
qed

text \<open>Commands that never end a lease; and the clock readings of a run.\<close>

fun keeps_leases :: "lua_command \<Rightarrow> bool" where
  "keeps_leases (LuaRenew s i ttl) = False"
| "keeps_leases (LuaRelease s i) = False"
| "keeps_leases _ = True"

definition clocks :: "(nat \<times> cmd \<times> reply) list \<Rightarrow> nat set" where
  "clocks l = {unat (as_millis r) | j r. (j, NowMs, r) \<in> set l}"

lemma two_in_list:
  assumes "x \<in> set t" "y \<in> set t" "x \<noteq> y"
  obtains t1 t2 t3 where "t = t1 @ x # t2 @ y # t3" | t1 t2 t3 where "t = t1 @ y # t2 @ x # t3"
proof -
  obtain u v where t: "t = u @ x # v" using assms(1) by (auto simp: in_set_conv_decomp)
  with assms(2,3) consider "y \<in> set u" | "y \<in> set v" by auto
  then show thesis
  proof cases
    case 1
    then obtain u1 u2 where "u = u1 @ y # u2" by (auto simp: in_set_conv_decomp)
    then show thesis using that(2) t by simp
  next
    case 2
    then obtain v1 v2 where "v = v1 @ y # v2" by (auto simp: in_set_conv_decomp)
    then show thesis using that(1) t by simp
  qed
qed

context redis_scripting
begin

lemma claims_distinct:
  fixes open_client a cs w sch
  defines "l \<equiv> steps srv sch (map (lua_main open_client a) cs, w)"
  assumes ok: "pool_ok (pool_of (view w))" and keep: "\<forall>c \<in> set cs. keeps_leases c"
    and time: "\<forall>i ttl. LuaClaim i ttl \<in> set cs \<longrightarrow> (\<forall>m \<in> clocks l. \<forall>m' \<in> clocks l. m' < m + unat ttl)"
    and j: "(j, Print s, r) \<in> set l" and k: "(k, Print s, r') \<in> set l"
  shows "j = k"
proof (rule ccontr)
  assume "j \<noteq> k"
  obtain qs w' where "interleave srv sch (map (lua_main open_client a) cs, w) = (qs, w')" by fastforce
  then obtain t where run: "op_run (spec_op lua_expiry) (pool_of (view w)) (map snd t) (pool_of (view w'))"
    and acc: "accounts l t"
    using lua_serializes unfolding l_def by blast
  have op: "\<not> may_end s0 i0 (lua_expiry now0 ttl0) b \<and> (\<forall>now ttl i. b = Claim now ttl i \<longrightarrow> unat now < lua_expiry now0 ttl0)"
    if mem: "(m, b, res) \<in> set t" and clk: "unat now0 \<in> clocks l" "LuaClaim i0 ttl0 \<in> set cs" for m b res s0 i0 now0 ttl0
  proof -
    obtain sc r where sc: "(m, EvalScript sc, r) \<in> set l" "script_op sc b" using accounts_in [OF acc mem] by blast
    have m: "m < length cs" "asks (cs ! m) sc" "timely sc (own m l)"
      using script_in_step [OF sc(1) [unfolded l_def]] by (simp_all add: l_def)
    have "keeps_leases (cs ! m)" using keep m(1) by simp
    moreover have "unat now \<in> clocks l" if "sc = ClaimScript now i ttl" for now i ttl
      using m(3) that by (auto simp: timely_def clocks_def in_own)
    moreover have "m' < lua_expiry now0 ttl0" if "m' \<in> clocks l" for m'
      using time clk that by (auto simp: lua_expiry_def)
    ultimately show ?thesis using m(2) sc(2) by (cases "cs ! m") (force simp: not_le)+
  qed
  have claim: "\<exists>now i ttl. (m, Claim now ttl i, Slot (Some s)) \<in> set t \<and> unat now \<in> clocks l \<and> LuaClaim i ttl \<in> set cs"
    if print: "(m, Print s, rr) \<in> set l" for m rr
  proof -
    obtain now i ttl where sc: "(m, EvalScript (ClaimScript now i ttl), Bulk (Some s)) \<in> set l"
      using print_in_step [OF print [unfolded l_def]] unfolding l_def by blast
    have m: "m < length cs" "asks (cs ! m) (ClaimScript now i ttl)" "timely (ClaimScript now i ttl) (own m l)"
      using script_in_step [OF sc [unfolded l_def]] by (simp_all add: l_def)
    have "LuaClaim i ttl \<in> set cs" using m(1,2) by (cases "cs ! m") (auto simp: in_set_conv_nth)
    moreover have "unat now \<in> clocks l" using m(3) by (auto simp: timely_def clocks_def in_own)
    ultimately show ?thesis using accounts_claim [OF acc sc] by blast
  qed
  have False if "t = t1 @ (m, Claim now ttl i, Slot (Some s)) # t2 @ (m', Claim now' ttl' i', Slot (Some s)) # t3"
      "unat now \<in> clocks l" "LuaClaim i ttl \<in> set cs"
    for m m' now now' ttl ttl' i i' t1 t2 t3
  proof -
    have "\<forall>b \<in> fst ` set (map snd t2). \<not> may_end s i (lua_expiry now ttl) b"
      using op [OF _ that(2,3)] unfolding that(1) by fastforce
    moreover have "unat now' < lua_expiry now ttl" using op [OF _ that(2,3)] unfolding that(1) by fastforce
    ultimately show False
      using claims_differ [of lua_expiry "pool_of (view w)" "map snd t1" now ttl i s "map snd t2" now' ttl' i' s
          "map snd t3"] run ok that(1) by simp
  qed
  then show False
    using claim [OF j] claim [OF k] \<open>j \<noteq> k\<close> by (metis two_in_list Pair_inject)
qed

end

end
