(* ===== verification/Slot_Native_Concurrent.thy ===== *)
theory Slot_Native_Concurrent
  imports Slot_Concurrent Guarded
begin

text \<open>
  Any number of native \<open>aeroslot\<close> processes (\<open>aeroslot/src/main.rs\<close>) at once.  Their sweeps race
  (\<open>Slot_Runs.two_claims_run\<close>), and so do \<open>init\<close> and \<open>claim\<close> (\<open>Sample_Slots.init_doubles_slot\<close>); but as
  long as no lease runs out and no slot is added meanwhile, each claim takes a slot that no other
  claim takes: it is the pop from the free list, one atomic command, that decides.
\<close>

section \<open>What a process may do after what it has seen\<close>

text \<open>The clock readings of a process, and the members that its sweep has to take back.\<close>

definition readings :: "(cmd \<times> reply) list \<Rightarrow> u64 set" where
  "readings h = {as_millis r | r. (NowMs, r) \<in> set h}"

definition found_expired :: "(cmd \<times> reply) list \<Rightarrow> bool" where
  "found_expired h \<longleftrightarrow> (\<exists>n x xs. (Redis (ZRANGEBYSCORE KEY_LEASES n), Members (x # xs)) \<in> set h)"

definition popped :: "(cmd \<times> reply) list \<Rightarrow> string \<Rightarrow> bool" where
  "popped h s \<longleftrightarrow> (\<exists>f xs. (Redis (ZPOPMIN KEY_AVAILABLE), Scored ((s, f) # xs)) \<in> set h)"

text \<open>\<open>T\<close> holds the lifetimes that the command line gives.\<close>

fun native_ok :: "u64 set \<Rightarrow> (cmd \<times> reply) list \<Rightarrow> cmd \<Rightarrow> bool" where
  "native_ok T h (Redis (ZRANGEBYSCORE k n)) \<longleftrightarrow> k = KEY_LEASES \<and> n \<in> unat ` readings h"
| "native_ok T h (Redis (ZADD k e s)) \<longleftrightarrow>
     k = KEY_LEASES \<and> (\<exists>now \<in> readings h. \<exists>ttl \<in> T. e = native_expiry now ttl) \<or>
     k = KEY_AVAILABLE \<and> found_expired h"
| "native_ok T h (Redis (ZADD_NX k e s)) = False"
| "native_ok T h (EvalScript sc) = False"
| "native_ok T h (Print s) = popped h s"
| "native_ok T h _ = True"

lemma seen_simps [simp]:
  "readings (h @ h') = readings h \<union> readings h'" "readings [] = {}"
  "readings (x # h) = (if fst x = NowMs then {as_millis (snd x)} else {}) \<union> readings h"
  "found_expired (h @ h') \<longleftrightarrow> found_expired h \<or> found_expired h'"
  "popped (h @ h') s \<longleftrightarrow> popped h s \<or> popped h' s"
  by (cases x; auto simp: readings_def found_expired_def popped_def)+

fun ttl_of :: "slot_command \<Rightarrow> u64 set" where
  "ttl_of (SlotClaim i ttl) = {ttl}"
| "ttl_of (SlotRenew s i ttl) = {ttl}"
| "ttl_of (SlotHeartbeat h) = {hb_ttl_ms h}"
| "ttl_of _ = {}"

text \<open>The commands that put no slot into the free list (a sweep of a claim apart).\<close>

fun adds_no_slot :: "slot_command \<Rightarrow> bool" where
  "adds_no_slot (SlotInit lo hi) = False"
| "adds_no_slot (SlotRelease s i) = False"
| "adds_no_slot _ = True"

lemma native_ok_mono: "native_ok T h c \<Longrightarrow> T \<subseteq> T' \<Longrightarrow> native_ok T' h c"
  by (induction T h c rule: native_ok.induct) auto

lemma sweep_slot_safe:
  "found_expired h \<Longrightarrow> guarded (native_ok T) (sweep_slot now s) (\<lambda>h x. found_expired h) h"
  by (auto simp: sweep_slot_def redis_unit_def split: sum.splits)

lemma sweep_guarded:
  assumes "xs \<noteq> [] \<longrightarrow> found_expired h"
  shows "safe (native_ok T) (for_try (\<lambda>slot _. sweep_slot now slot) xs u) h"
proof (cases "xs = []")
  case False
  then have "guarded (native_ok T) (for_try (\<lambda>slot _. sweep_slot now slot) xs u) (\<lambda>h x. found_expired h) h"
    using assms by (intro guarded_for_try sweep_slot_safe) auto
  then show ?thesis by (rule guarded_post) simp
qed simp

lemma claim_slot_guarded:
  assumes "now \<in> readings h" "ttl \<in> T"
  shows "guarded (native_ok T) (claim_slot now i ttl) (\<lambda>h x. \<forall>s. x = Inr (Some s) \<longrightarrow> popped h s) h"
proof -
  define pop where "pop = attempt (ctx ''ZPOPMIN failed'' (call (Redis (ZPOPMIN KEY_AVAILABLE)) as_scored)) (\<lambda>result.
     case result of
       [] \<Rightarrow> Ret (Inr None)
     | (s, _) # _ \<Rightarrow>
         attempt (ctx ''ZADD failed'' (redis_unit (ZADD KEY_LEASES (unat (now + ttl)) s))) (\<lambda>_.
         attempt (ctx ''SET failed'' (redis_unit (SET (key_owner s) i))) (\<lambda>_.
         Ret (Inr (Some s)))))"
  have pop: "guarded (native_ok T) pop (\<lambda>h x. \<forall>s. x = Inr (Some s) \<longrightarrow> popped h s) h'" if "now \<in> readings h'" for h'
    using that assms(2)
    unfolding pop_def
    by (auto simp: redis_unit_def popped_def native_expiry_def decode_Inr split: sum.splits list.splits
        dest!: sym [of "Inr _"] sym [of "with_ctx _ _"])
  have sweep: "guarded (native_ok T) (for_try (\<lambda>slot _. sweep_slot now slot) xs ())
      (\<lambda>h x. case x of Inl e \<Rightarrow> True | Inr u \<Rightarrow> guarded (native_ok T) pop (\<lambda>h x. \<forall>s. x = Inr (Some s) \<longrightarrow> popped h s) h) h'"
    if "xs \<noteq> [] \<longrightarrow> found_expired h'" "now \<in> readings h'" for xs h'
    by (rule guarded_post [OF guarded_extends [OF sweep_guarded [OF that(1)]]])
      (use that(2) pop in \<open>auto simp del: guarded_attempt split: sum.splits\<close>)
  have found: "xs \<noteq> [] \<longrightarrow> found_expired (h @ [(Redis (ZRANGEBYSCORE KEY_LEASES (unat now)), r)])"
    if "as_members r = Inr xs" for r xs
    using that by (cases xs) (auto simp: decode_Inr found_expired_def)
  have rest: "guarded (native_ok T) (attempt (for_try (\<lambda>slot _. sweep_slot now slot) xs ()) (\<lambda>_. pop))
      (\<lambda>h x. \<forall>s. x = Inr (Some s) \<longrightarrow> popped h s) (h @ [(Redis (ZRANGEBYSCORE KEY_LEASES (unat now)), r)])"
    if "as_members r = Inr xs" for r xs
    unfolding guarded_attempt
    by (rule guarded_post [OF sweep [OF found [OF that]]]) (use assms(1) in \<open>auto split: sum.splits\<close>)
  show ?thesis
    unfolding claim_slot_def Let_def pop_def [symmetric] guarded_attempt [of _ "ctx _ _"] guarded_ctx guarded_call
    using assms(1)
    by (auto simp del: guarded_attempt intro!: rest split: sum.splits)
qed

lemma cmd_claim_safe:
  assumes "ttl \<in> T"
  shows "safe (native_ok T) (cmd_claim i ttl) h"
proof -
  have "safe (native_ok T) (attempt (claim_slot now i ttl) (\<lambda>slot. case slot of
       None \<Rightarrow> Ret (Inl Exit1)
     | Some s \<Rightarrow> bind (print_line s) (\<lambda>_. publish_asg_change s ''claim'' None))) h'"
    if "now \<in> readings h'" for now h'
    unfolding guarded_attempt
    by (rule guarded_post [OF claim_slot_guarded [OF that assms]])
      (auto simp: print_line_def publish_asg_change_def redis_unit_def split: sum.splits option.splits)
  then show ?thesis by (simp add: cmd_claim_def now_ms_def del: guarded_attempt)
qed

lemma cmd_renew_safe: "ttl \<in> T \<Longrightarrow> safe (native_ok T) (cmd_renew s i ttl) h"
  by (auto simp: cmd_renew_def now_ms_def redis_unit_def native_expiry_def Let_def split: sum.splits option.splits)

lemma renew_with_retry_safe:
  "hb_ttl_ms hb \<in> T \<Longrightarrow> safe (native_ok T) (renew_with_retry hb attempts) h"
proof (induction hb attempts arbitrary: h rule: renew_with_retry.induct)
  case (1 hb attempts)
  show ?case
    by (subst renew_with_retry.simps, rule safe_bind [OF cmd_renew_safe [OF "1.prems"]])
      (auto simp: "1" split: sum.splits)
qed

lemma heartbeat_loop_safe: "hb_ttl_ms hb \<in> T \<Longrightarrow> safe (native_ok T) (heartbeat_loop ticks hb) h"
proof (induction ticks arbitrary: h)
  case (Suc ticks)
  show ?case
    unfolding heartbeat_loop.simps
    by (rule safe_bind [OF renew_with_retry_safe [OF Suc.prems]]) (auto simp: Suc split: sum.splits)
qed simp

lemma cmd_heartbeat_safe: "hb_ttl_ms hb \<in> T \<Longrightarrow> safe (native_ok T) (cmd_heartbeat ticks hb) h"
  by (auto simp: cmd_heartbeat_def heartbeat_loop_safe split: sum.splits)

lemma shown_status_safe: "safe (native_ok T) (shown_status cmd_status) h"
proof -
  have "emits (\<lambda>c. \<forall>h. native_ok T h c) (shown_status cmd_status)"
    unfolding shown_status_def cmd_status_def pool_status_def
    by (auto intro!: emits_attemptI emits_bindI emits_for_each)
  then show ?thesis by (rule guarded_emits) blast
qed

lemma slot_dispatch_safe:
  assumes "adds_no_slot c"
  shows "safe (native_ok (ttl_of c)) (slot_dispatch ticks c) h"
  using assms
  by (cases c) (auto simp: ended_def cmd_heartbeat_safe intro: guarded_post [OF cmd_claim_safe]
      guarded_post [OF cmd_renew_safe] guarded_post [OF shown_status_safe])

lemma slot_main_safe:
  assumes "adds_no_slot c"
  shows "safe (native_ok (ttl_of c)) (slot_main ticks open_client a c) h"
proof -
  have "safe (native_ok (ttl_of c)) (slot_connect open_client a) h"
    by (rule guarded_emits [OF slot_connect_emits [where P = "\<lambda>c. c = RedisConnect \<or> (\<exists>f. c = ReadFile f)"]]) auto
  then show ?thesis
    unfolding slot_main_def fuelled_def ended_def bind_assoc
    by (rule safe_bind) (auto intro: slot_dispatch_safe [OF assms] split: sum.splits option.splits)
qed

section \<open>The free list and the leases during the run\<close>

text \<open>\<open>N\<close> holds the clock readings of the whole run, \<open>v0\<close> is the store at its beginning.\<close>

definition no_lease_ends :: "u64 set \<Rightarrow> u64 set \<Rightarrow> rview \<Rightarrow> bool" where
  "no_lease_ends N T v \<longleftrightarrow>
     (\<forall>s e. lease_at (pool_of v) s = Some e \<longrightarrow> (\<forall>now \<in> N. unat now < e)) \<and>
     (\<forall>now \<in> N. \<forall>now' \<in> N. \<forall>ttl \<in> T. unat now' < native_expiry now ttl)"

definition race_inv :: "u64 set \<Rightarrow> u64 set \<Rightarrow> rview \<Rightarrow> (nat \<times> cmd \<times> reply) list \<Rightarrow> rview \<Rightarrow> bool" where
  "race_inv N T v0 l v \<longleftrightarrow> no_lease_ends N T v \<and>
     (\<forall>s. zsets v KEY_AVAILABLE s \<noteq> None \<longrightarrow>
        zsets v0 KEY_AVAILABLE s \<noteq> None \<and> (\<forall>j. \<not> popped (own j l) s)) \<and>
     (\<forall>j s. popped (own j l) s \<longrightarrow>
        zsets v0 KEY_AVAILABLE s \<noteq> None \<and> (\<forall>k. popped (own k l) s \<longrightarrow> k = j)) \<and>
     (\<forall>j. \<not> found_expired (own j l))"

lemma seen_one:
  "popped [(c, r)] s \<longleftrightarrow> c = Redis (ZPOPMIN KEY_AVAILABLE) \<and> (\<exists>f xs. r = Scored ((s, f) # xs))"
  "found_expired [(c, r)] \<longleftrightarrow> (\<exists>n x xs. c = Redis (ZRANGEBYSCORE KEY_LEASES n) \<and> r = Members (x # xs))"
  "\<not> popped [] s" "\<not> found_expired []"
  by (auto simp: popped_def found_expired_def)

lemma readings_own: "readings (own j l) \<subseteq> readings (map snd l)"
  by (auto simp: readings_def in_own) force

lemma keys_differ [simp]: "KEY_LEASES \<noteq> KEY_AVAILABLE" "KEY_AVAILABLE \<noteq> KEY_LEASES"
  by (simp_all add: KEY_AVAILABLE_def KEY_LEASES_def)

lemma redis_step_lists:
  assumes "redis_ok rc v r v'" "native_ok T h (Redis rc)" "\<not> found_expired h"
  shows "zsets v' KEY_LEASES s = Some e \<Longrightarrow> zsets v KEY_LEASES s = Some e \<or>
      (\<exists>now \<in> readings h. \<exists>ttl \<in> T. e = native_expiry now ttl)"
    and "zsets v' KEY_AVAILABLE s \<noteq> None \<Longrightarrow> zsets v KEY_AVAILABLE s \<noteq> None"
  using assms by (induction rule: redis_ok.induct) (auto split: if_splits)

context redis_service
begin

lemma step_lists:
  assumes "srv w c = (r, w')" "native_ok T h c" "\<not> found_expired h"
  shows "zsets (view w') KEY_LEASES s = Some e \<Longrightarrow> zsets (view w) KEY_LEASES s = Some e \<or>
      (\<exists>now \<in> readings h. \<exists>ttl \<in> T. e = native_expiry now ttl)"
    and "zsets (view w') KEY_AVAILABLE s \<noteq> None \<Longrightarrow> zsets (view w) KEY_AVAILABLE s \<noteq> None"
proof -
  have "view w' = view w \<or> (\<exists>rc r'. c = Redis rc \<and> redis_ok rc (view w) r' (view w'))"
  proof (cases "\<exists>rc. c = Redis rc")
    case True
    then show ?thesis using assms(1) any_answer by blast
  next
    case False
    moreover have "\<forall>sc. c \<noteq> EvalScript sc" using assms(2) by auto
    ultimately show ?thesis using not_redis [OF assms(1)] by blast
  qed
  then show "zsets (view w') KEY_LEASES s = Some e \<Longrightarrow> zsets (view w) KEY_LEASES s = Some e \<or>
      (\<exists>now \<in> readings h. \<exists>ttl \<in> T. e = native_expiry now ttl)"
    and "zsets (view w') KEY_AVAILABLE s \<noteq> None \<Longrightarrow> zsets (view w) KEY_AVAILABLE s \<noteq> None"
    using redis_step_lists assms(2,3) by (metis (no_types, lifting))+
qed

lemma step_popped:
  "srv w c = (r, w') \<Longrightarrow> popped [(c, r)] s \<Longrightarrow>
   zsets (view w) KEY_AVAILABLE s \<noteq> None \<and> zsets (view w') KEY_AVAILABLE s = None"
  using carried_out by (fastforce simp: seen_one redis_ok_simps is_min_def)

lemma step_found:
  assumes "srv w c = (r, w')" "native_ok T h c" "found_expired [(c, r)]"
  shows "\<exists>s e. zsets (view w) KEY_LEASES s = Some e \<and> (\<exists>now \<in> readings h. e \<le> unat now)"
proof -
  obtain n x xs where c: "c = Redis (ZRANGEBYSCORE KEY_LEASES n)" "r = Members (x # xs)"
    using assms(3) by (auto simp: seen_one)
  then have "redis_ok (ZRANGEBYSCORE KEY_LEASES n) (view w) (Members (x # xs)) (view w')"
    using carried_out assms(1) by blast
  then have "\<exists>e. zsets (view w) KEY_LEASES x = Some e \<and> e \<le> n"
    by (auto simp: redis_ok_simps)
  then show ?thesis using assms(2) c(1) by auto
qed

lemma race_step:
  assumes inv: "race_inv N T v0 l (view w)" and ok: "native_ok T (own j l) c" and N: "readings (own j l) \<subseteq> N"
    and step: "srv w c = (r, w')"
  shows "race_inv N T v0 (l @ [(j, c, r)]) (view w')"
proof -
  have nf: "\<not> found_expired (own j l)" using inv by (simp add: race_inv_def)
  note lists = step_lists [OF step ok nf]
  have time: "no_lease_ends N T (view w')"
    unfolding no_lease_ends_def
  proof (intro conjI allI impI)
    fix s e
    assume "lease_at (pool_of (view w')) s = Some e"
    then show "\<forall>now \<in> N. unat now < e"
      using inv lists(1) [of s e] N unfolding race_inv_def no_lease_ends_def by auto
  qed (use inv in \<open>simp add: race_inv_def no_lease_ends_def\<close>)
  have nf': "\<not> found_expired [(c, r)]"
  proof
    assume "found_expired [(c, r)]"
    from step_found [OF step ok this] inv N show False
      unfolding race_inv_def no_lease_ends_def by (fastforce simp: not_le [symmetric])
  qed
  have pop: "popped (own k (l @ [(j, c, r)])) s \<longleftrightarrow> popped (own k l) s \<or> k = j \<and> popped [(c, r)] s" for k s
    by (auto simp: seen_one)
  have found: "\<not> found_expired (own k (l @ [(j, c, r)]))" for k
    using inv nf' by (auto simp: race_inv_def seen_one)
  show ?thesis
    using inv time lists(2) step_popped [OF step] found
    unfolding race_inv_def pop by (metis (no_types, lifting))
qed

lemma race_run:
  assumes "served srv w (l1 @ l2) w'" "no_lease_ends N T (view w)" "readings (map snd (l1 @ l2)) \<subseteq> N"
    and ok: "\<And>u j c r u'. l1 @ l2 = u @ (j, c, r) # u' \<Longrightarrow> native_ok T (own j u) c"
  shows "\<exists>w1. served srv w l1 w1 \<and> race_inv N T (view w) l1 (view w1)"
  using assms(1,3) ok
proof (induction l1 arbitrary: l2 rule: rev_induct)
  case Nil
  then show ?case using assms(2) by (simp add: race_inv_def seen_one)
next
  case (snoc x l1)
  obtain j c r where x: "x = (j, c, r)" by (cases x)
  obtain w1 where w1: "served srv w l1 w1" "race_inv N T (view w) l1 (view w1)"
    using snoc.IH [of "x # l2"] snoc.prems by auto
  obtain w2 w3 where w2: "served srv w (l1 @ [(j, c, r)]) w2"
    using served_split [of srv w "l1 @ [x]" l2 w'] snoc.prems(1) x by auto
  then obtain w1' where "served srv w l1 w1'" "srv w1' c = (r, w2)" by (auto simp: served_snoc)
  moreover have "w1' = w1" using w1(1) calculation(1)
    by (induction l1 arbitrary: w) auto
  ultimately have step: "srv w1 c = (r, w2)" by simp
  have "readings (own j l1) \<subseteq> N" using snoc.prems(2) readings_own [of j l1] by auto
  moreover have "native_ok T (own j l1) c" using snoc.prems(3) [of l1 j c r l2] x by simp
  ultimately show ?case using race_step [OF w1(2) _ _ step] w2 x by blast
qed

text \<open>Processes that claim, renew, keep alive or show: no two claims print the same slot.\<close>

lemma native_claims_apart:
  fixes ticks open_client a cs w sch
  defines "l \<equiv> steps srv sch (map (slot_main ticks open_client a) cs, w)"
  assumes cs: "\<forall>c \<in> set cs. adds_no_slot c"
    and time: "no_lease_ends (readings (map snd l)) (\<Union> (ttl_of ` set cs)) (view w)"
    and j: "(j, Print s, r) \<in> set l"
  shows "free_at (pool_of (view w)) s \<noteq> None \<and> (\<forall>k r'. (k, Print s, r') \<in> set l \<longrightarrow> k = j)"
proof -
  let ?T = "\<Union> (ttl_of ` set cs)" and ?ps = "map (slot_main ticks open_client a) cs"
  have "safe (native_ok ?T) (?ps ! m) []" if m: "m < length ?ps" for m
  proof -
    have mem: "cs ! m \<in> set cs" using m by simp
    with cs have "safe (native_ok (ttl_of (cs ! m))) (slot_main ticks open_client a (cs ! m)) []"
      by (intro slot_main_safe) blast
    then have "safe (native_ok ?T) (slot_main ticks open_client a (cs ! m)) []"
      by (rule guarded_mono) (use mem in \<open>auto elim: native_ok_mono\<close>)
    then show ?thesis using m by simp
  qed
  then have ok: "native_ok ?T (own m u) c" if "l = u @ (m, c, rr) # u'" for m c rr u u'
    using that unfolding l_def by (rule steps_allowed)
  obtain w' where "served srv w l w'"
    using interleave_served [of srv "(?ps, w)" sch] unfolding l_def by auto
  then obtain w1 where inv: "race_inv (readings (map snd l)) ?T (view w) l (view w1)"
    using race_run [of w l "[]" w' "readings (map snd l)" ?T] time ok by auto
  have pop: "popped (own m l) s" if mem: "(m, Print s, rr) \<in> set l" for m rr
  proof -
    obtain u u' where "l = u @ (m, Print s, rr) # u'" using mem by (auto simp: in_set_conv_decomp)
    moreover from ok [OF this] have "popped (own m u) s" by simp
    ultimately show ?thesis by simp
  qed
  then show ?thesis using inv j unfolding race_inv_def by (metis pool_of_simps(1))
qed

end

end
