(* ===== verification/Sample_Slots.thy ===== *)
theory Sample_Slots
  imports Slot_Native_Concurrent Slot_Runs
begin

text \<open>
  Interleaved processes of the slot tools on small pools: two \<open>aeroslot-lua claim\<close> on a pool with one
  free slot and one expired lease, two \<open>aeroslot claim\<close> on a pool with two free slots, and two
  \<open>aeroslot claim\<close> with an \<open>aeroslot init\<close> between their commands.
\<close>

section \<open>Two claims by script\<close>

definition plain_args :: slot_args where
  "plain_args = \<lparr>sa_redis_url = ''redis://r'', sa_tls = False, sa_tls_insecure = False, sa_tls_ca_cert = None\<rparr>"

definition two_claimants :: "lua_command list" where
  "two_claimants = [LuaClaim ''i-a'' 1000, LuaClaim ''i-b'' 1000]"

abbreviation lua_processes :: "lua_command list \<Rightarrow> unit rio list" where
  "lua_processes cs \<equiv> map (lua_main (\<lambda>_. Inr ()) plain_args) cs"

definition both_claim :: "(nat \<times> cmd \<times> reply) list" where
  "both_claim = steps mem_script_srv [0, 1, 0, 1, 1, 0, 0, 1] (lua_processes two_claimants, two_slots)"

lemma connect_plain: "slot_connect (\<lambda>_. Inr ()) plain_args =
   ctx ''Failed to connect to Redis'' (call RedisConnect (as_unit RedisFault))"
  by (simp add: slot_connect_def build_redis_client_def plain_args_def starts_with_def attempt_def)

lemma both_claim_steps:
  "both_claim =
     [(0, RedisConnect, Done), (1, RedisConnect, Done), (0, NowMs, Millis 200), (1, NowMs, Millis 200),
      (1, EvalScript (ClaimScript 200 ''i-b'' 1000), Bulk (Some ''8'')),
      (0, EvalScript (ClaimScript 200 ''i-a'' 1000), Bulk (Some ''7'')),
      (0, Print ''7'', Failed TypeMismatch), (1, Print ''8'', Failed TypeMismatch)]"
  by (simp add: both_claim_def two_claimants_def lua_main_def connect_plain issued_def turn_def mem_lua_defs
      attempt_def ctx_def call_def print_line_def Let_def)

section \<open>Two native claims\<close>

text \<open>Slots 8 and 9 are free, slot 7 is leased until 100, and the clock shows 50.\<close>

definition two_free :: mem where
  "two_free = early\<lparr>mz := (mz early)(KEY_AVAILABLE := [(''8'', 5), (''9'', 6)])\<rparr>"

abbreviation native_processes :: "slot_command list \<Rightarrow> unit result option io list" where
  "native_processes cs \<equiv> map (slot_main 0 (\<lambda>_. Inr ()) plain_args) cs"

definition native_claimants :: "slot_command list" where
  "native_claimants = [SlotClaim ''i-a'' 1000, SlotClaim ''i-b'' 1000]"

definition both_pop :: "(nat \<times> cmd \<times> reply) list" where
  "both_pop = steps mem_srv [0, 1, 0, 1, 0, 1, 1, 0, 0, 1, 1, 0, 0, 1]
     (native_processes native_claimants, two_free)"

lemmas native_run_defs = fuelled_def ended_def issued_def turn_def connect_plain cmd_claim_def
  publish_asg_change_def print_line_def attempt_def ctx_def call_def early_def mem_cli_defs

lemma both_pop_steps:
  "both_pop =
     [(0, RedisConnect, Done), (1, RedisConnect, Done), (0, NowMs, Millis 50), (1, NowMs, Millis 50),
      (0, Redis (ZRANGEBYSCORE KEY_LEASES 50), Members []),
      (1, Redis (ZRANGEBYSCORE KEY_LEASES 50), Members []),
      (1, Redis (ZPOPMIN KEY_AVAILABLE), Scored [(''8'', 5)]),
      (0, Redis (ZPOPMIN KEY_AVAILABLE), Scored [(''9'', 6)]),
      (0, Redis (ZADD KEY_LEASES 1050 ''9''), Count 1),
      (1, Redis (ZADD KEY_LEASES 1050 ''8''), Count 1),
      (1, Redis (SET (key_owner ''8'') ''i-b''), Done),
      (0, Redis (SET (key_owner ''9'') ''i-a''), Done),
      (0, Print ''9'', Failed TypeMismatch), (1, Print ''8'', Failed TypeMismatch)]"
  by (simp add: both_pop_def native_claimants_def slot_main_def two_free_def two_slots_def native_run_defs)

lemma two_free_lasts: "no_lease_ends {50} {1000} (mem_view two_free)"
  by (simp add: no_lease_ends_def native_expiry_def two_free_def early_def two_slots_def late_def
      mem_empty_def mem_view_def KEY_AVAILABLE_def KEY_LEASES_def)

section \<open>An init between the commands of a claim\<close>

text \<open>
  The first claim has popped slot 8 and not yet leased it; \<open>init\<close> finds it neither leased nor free
  and adds it again; so the second claim is given the same slot.
\<close>

definition init_race :: "(nat \<times> cmd \<times> reply) list" where
  "init_race = steps mem_srv ([0, 0, 0] @ [1, 1] @ [0, 0, 0] @ [2, 2, 2, 2, 2, 2])
     ([cmd_claim ''i-a'' 1000, cmd_init 8 8, cmd_claim ''i-b'' 1000], early)"

lemma slot_names_8: "slot_names 8 8 = [''8'']"
  by code_simp

lemma init_race_steps:
  "init_race =
     [(0, NowMs, Millis 50), (0, Redis (ZRANGEBYSCORE KEY_LEASES 50), Members []),
      (0, Redis (ZPOPMIN KEY_AVAILABLE), Scored [(''8'', 5)]),
      (1, Redis (ZSCORE KEY_LEASES ''8''), Score None),
      (1, Redis (ZADD_NX KEY_AVAILABLE 0 ''8''), Count 1),
      (0, Redis (ZADD KEY_LEASES 1050 ''8''), Count 1),
      (0, Redis (SET (key_owner ''8'') ''i-a''), Done), (0, Print ''8'', Failed TypeMismatch),
      (2, NowMs, Millis 50), (2, Redis (ZRANGEBYSCORE KEY_LEASES 50), Members []),
      (2, Redis (ZPOPMIN KEY_AVAILABLE), Scored [(''8'', 0)]),
      (2, Redis (ZADD KEY_LEASES 1050 ''8''), Count 1),
      (2, Redis (SET (key_owner ''8'') ''i-b''), Done), (2, Print ''8'', Failed TypeMismatch)]"
  by (simp add: init_race_def cmd_init_def init_slot_def slot_names_8 two_slots_def native_run_defs)

lemma init_doubles_slot:
  "(0, Print ''8'', Failed TypeMismatch) \<in> set init_race \<and> (2, Print ''8'', Failed TypeMismatch) \<in> set init_race"
  by (simp add: init_race_steps)

end
