(* ===== verification/Metrics_Server.thy ===== *)
theory Metrics_Server
  imports Metrics
begin

text \<open>
  \<open>aeroscale/src/metrics/server.rs\<close>: the HTTP server that shows the metrics store.  The web
  framework routes requests for \<open>/metrics\<close> to the handler; binding the port and serving are commands.
  Both failures are panics: in the release profile (\<open>panic = "abort"\<close>) they end the whole daemon,
  although the server runs in a task of its own.
\<close>

definition metrics_handler :: "(real \<Rightarrow> string) \<Rightarrow> metrics_state \<Rightarrow> (string \<times> string) list \<times> string" where
  "metrics_handler fmt st =
     ([(''Content-Type'', ''text/plain; version=0.0.4; charset=utf-8'')], exposition fmt st)"

datatype serve_cmd = BindTcp string u16 | ServeForever

datatype serve_reply = ServeFault string | ServeOk

definition serve :: "u16 \<Rightarrow> (serve_cmd, serve_reply, unit result) prog" where
  "serve port =
     Op (BindTcp ''0.0.0.0'' port) (\<lambda>r.
     case r of
       ServeFault e \<Rightarrow> Ret (Inl (Panicked (''Failed to bind metrics port '' @ show_word port @ '': '' @ e)))
     | ServeOk \<Rightarrow> Op ServeForever (\<lambda>s. Ret (case s of
         ServeFault e \<Rightarrow> Inl (Panicked (''Metrics server crashed: '' @ e)) | ServeOk \<Rightarrow> Inr ())))"

text \<open>Nothing is served before the port is bound; whatever fails is a panic.\<close>

lemma serve_runs:
  assumes "runs (serve port) t x"
  obtains (no_port) e where "t = [(BindTcp ''0.0.0.0'' port, ServeFault e)]" "\<exists>m. x = Inl (Panicked m)"
  | (served) r where "t = [(BindTcp ''0.0.0.0'' port, ServeOk), (ServeForever, r)]"
      "if r = ServeOk then x = Inr () else \<exists>m. x = Inl (Panicked m)"
proof -
  obtain r t' where t: "t = (BindTcp ''0.0.0.0'' port, r) # t'"
    using assms by (auto simp: serve_def runs_Op_iff)
  show ?thesis
  proof (cases r)
    case (ServeFault e)
    then show ?thesis using assms t no_port by (auto simp: serve_def runs_Op_iff)
  next
    case ServeOk
    then obtain s where "t' = [(ServeForever, s)]" "if s = ServeOk then x = Inr () else \<exists>m. x = Inl (Panicked m)"
      using assms t by (auto simp: serve_def runs_Op_iff split: serve_reply.split)
    then show ?thesis using t ServeOk served by simp
  qed
qed

text \<open>What the scaler has measured last is in the answer to the next request.\<close>

lemma handler_shows_bandwidth:
  "set (bandwidth_block st) \<subseteq> set (exposition_lines fmt st) \<and>
   snd (metrics_handler fmt st) = concat (map (\<lambda>l. l @ [newline]) (exposition_lines fmt st))"
  by (auto simp: metrics_handler_def exposition_def exposition_lines_def)

end
