(* ===== verification/Aeroftp_Trace.thy ===== *)
theory Aeroftp_Trace
  imports Aeroftp_Session
begin

text \<open>
  The tracing spans of aeroftp: one for every data event of the FTP library
  (\<open>aeroftp/src/ftp/tracer.rs\<close>), and the one around an upload (\<open>storage.rs\<close>).  A span is its name and
  its fields; the tracing library, which records and exports spans, is outside.
\<close>

section \<open>Events\<close>

datatype data_event =
    EvPut string u64
  | EvGot string u64
  | EvDeleted string
  | EvRenamed string string       \<comment> \<open>from, to\<close>
  | EvMadeDir string
  | EvRemovedDir string

record event_meta =
  em_username :: string
  em_trace_id :: string
  em_sequence_number :: u64

datatype field_value = Str string | Num u64 | Bool bool

type_synonym span = "string \<times> (string \<times> field_value) list"

definition who :: "event_meta \<Rightarrow> (string \<times> field_value) list" where
  "who m = [(''ftp.username'', Str (em_username m)), (''ftp.session_id'', Str (em_trace_id m))]"

definition nth_event :: "event_meta \<Rightarrow> (string \<times> field_value) list" where
  "nth_event m = [(''ftp.sequence'', Num (em_sequence_number m))]"

fun receive_data_event :: "data_event \<Rightarrow> event_meta \<Rightarrow> span" where
  "receive_data_event (EvPut path bytes) m =
     (''ftp.stor'', [(''ftp.path'', Str path), (''ftp.bytes'', Num bytes)] @ who m @ nth_event m)"
| "receive_data_event (EvGot path bytes) m =
     (''ftp.retr'', [(''ftp.path'', Str path), (''ftp.bytes'', Num bytes)] @ who m @ nth_event m)"
| "receive_data_event (EvDeleted path) m = (''ftp.dele'', [(''ftp.path'', Str path)] @ who m @ nth_event m)"
| "receive_data_event (EvRenamed from_path to_path) m =
     (''ftp.rename'', [(''ftp.path'', Str to_path), (''ftp.path_from'', Str from_path)] @ who m @ nth_event m)"
| "receive_data_event (EvMadeDir path) m = (''ftp.mkd'', [(''ftp.path'', Str path)] @ who m)"
| "receive_data_event (EvRemovedDir path) m = (''ftp.rmd'', [(''ftp.path'', Str path)] @ who m)"

text \<open>The span of an upload; a field that the device does not have is shown as a question mark.\<close>

definition put_span :: "aero_user \<Rightarrow> string \<Rightarrow> span" where
  "put_span u ftp_path =
     (let meta = \<lambda>k. case au_system_meta u k of None \<Rightarrow> ''?'' | Some v \<Rightarrow> v
      in (''ftp.stor.s3_put'',
          [(''ftp.path'', Str ftp_path), (''ftp.client_ip'', Str (show_ip_addr (au_client_ip u))),
           (''ftp.username'', Str (au_username u)), (''ftp.quarantined'', Bool (au_quarantined u)),
           (''ftp.modality'', Str (meta ''modality'')), (''ftp.serial'', Str (meta ''serial''))]))"

section \<open>Searching the spans\<close>

text \<open>
  The object that an event is about, which is the key of a search: for a rename it is the new name.
  The name of the span tells the operations apart.
\<close>

fun event_path :: "data_event \<Rightarrow> string" where
  "event_path (EvPut p n) = p"
| "event_path (EvGot p n) = p"
| "event_path (EvDeleted p) = p"
| "event_path (EvRenamed p q) = q"
| "event_path (EvMadeDir p) = p"
| "event_path (EvRemovedDir p) = p"

lemma event_span_fields:
  "map_of (snd (receive_data_event e m)) ''ftp.path'' = Some (Str (event_path e))"
  "map_of (snd (receive_data_event e m)) ''ftp.username'' = Some (Str (em_username m))"
  "map_of (snd (receive_data_event e m)) ''ftp.session_id'' = Some (Str (em_trace_id m))"
  "distinct (map fst (snd (receive_data_event e m)))"
  by (cases e; simp add: who_def nth_event_def)+

text \<open>The span determines the event: nothing but the sequence number of directory events is lost.\<close>

lemma event_span_inj: "receive_data_event e m = receive_data_event e' m' \<Longrightarrow> e = e'"
  by (cases e; cases e') (auto simp: who_def nth_event_def)

text \<open>A quarantined device shows no modality and no serial number.\<close>

lemma put_span_unknown:
  "au_system_meta u = (\<lambda>_. None) \<Longrightarrow>
   map_of (snd (put_span u p)) ''ftp.modality'' = Some (Str ''?'') \<and>
   map_of (snd (put_span u p)) ''ftp.serial'' = Some (Str ''?'')"
  by (simp add: put_span_def)

end
