(* ===== verification/Aeroftp_Main.thy ===== *)
theory Aeroftp_Main
  imports Aeroftp_Server
begin

text \<open>
  \<open>main\<close> of aeroftp (\<open>aeroftp/src/main.rs\<close>): the set-up of tracing from the environment, the run, and
  the guard that flushes the spans when \<open>main\<close> is left.  The feature \<open>tokio_console\<close>, which is off by
  default, is not modelled.  A panic ends the process without dropping the guard, since the release
  profile of the workspace (\<open>Cargo.toml\<close>) sets \<open>panic = "abort"\<close>.
\<close>

section \<open>Tracing\<close>

definition ascii_lower :: "char \<Rightarrow> char" where
  "ascii_lower c = (let n = of_char c :: nat in if 65 \<le> n \<and> n \<le> 90 then char_of (n + 32) else c)"

definition eq_ignore_ascii_case :: "string \<Rightarrow> string \<Rightarrow> bool" where
  "eq_ignore_ascii_case a b \<longleftrightarrow> map ascii_lower a = map ascii_lower b"

definition otel_disabled :: "bool frame" where
  "otel_disabled =
     bind (env_var ''OTEL_SDK_DISABLED'') (\<lambda>x.
     Ret (case x of Inl e \<Rightarrow> False | Inr v \<Rightarrow> eq_ignore_ascii_case v ''true''))"

text \<open>\<open>OtelGuard\<close>: dropping it shuts the provider down, which flushes the spans.\<close>

definition drop_guard :: "bool \<Rightarrow> 'a \<Rightarrow> 'a frame" where
  "drop_guard has_guard x = (if has_guard then Op ShutdownTracer (\<lambda>_. Ret x) else Ret x)"

definition export_pipeline :: "bool result frame" where
  "export_pipeline =
     bind (env_var ''OTEL_EXPORTER_OTLP_ENDPOINT'') (\<lambda>ep.
     let otlp_endpoint = (case ep of Inl e \<Rightarrow> ''http://aeromon.aerosuite:4317'' | Inr s \<Rightarrow> s) in
     bind (env_var ''OTEL_SERVICE_NAME'') (\<lambda>nm.
     let service_name = (case nm of Inl e \<Rightarrow> ''aeroftp'' | Inr s \<Rightarrow> s) in
     attempt (call (BuildExporter otlp_endpoint) ok) (\<lambda>_.
     Op (BuildProvider service_name) (\<lambda>_.
     Op SetTracerProvider (\<lambda>_.
     Ret (Inr True))))))"

text \<open>The value says whether there is a guard.\<close>

definition init_tracing :: "bool result frame" where
  "init_tracing =
     Op FilterFromEnv (\<lambda>_.
     bind otel_disabled (\<lambda>off.
     attempt (if off then Ret (Inr False) else export_pipeline) (\<lambda>guard.
     Op (InitSubscriber guard) (\<lambda>r.
     case r of
       Fault e \<Rightarrow> Ret (Inl (Panicked (''failed to set global default subscriber: '' @ e)))
     | _ \<Rightarrow> Ret (Inr guard)))))"

definition ftp_main :: "nat \<Rightarrow> unit result option frame" where
  "ftp_main n =
     Op InstallCrypto (\<lambda>c.
     case c of
       Fault e \<Rightarrow> Ret (Some (Inl (Panicked ''Failed to install rustls crypto provider'')))
     | _ \<Rightarrow>
       fuelled (ended init_tracing) (\<lambda>guard.
       bind (ftp_run n) (\<lambda>x.
       case x of
         None \<Rightarrow> Ret None
       | Some r \<Rightarrow> drop_guard guard (Some r))))"

section \<open>Spans are flushed\<close>

definition tracing_cmd :: "frame_cmd \<Rightarrow> bool" where
  "tracing_cmd c \<longleftrightarrow> (\<exists>s. c = EnvVar s) \<or> c = FilterFromEnv \<or> (\<exists>s. c = BuildExporter s) \<or> (\<exists>s. c = BuildProvider s)
     \<or> c = SetTracerProvider \<or> (\<exists>b. c = InitSubscriber b) \<or> c = ShutdownTracer"

lemma emits_env_var [simp]: "emits P (env_var n) = P (EnvVar n)"
  by (simp add: env_var_def)

lemma init_tracing_cmds: "emits tracing_cmd init_tracing"
  unfolding init_tracing_def otel_disabled_def export_pipeline_def drop_guard_def Let_def
  by (auto intro!: emits_bindI emits_attemptI simp: tracing_cmd_def split: frame_reply.splits)

lemma export_pipeline_runs:
  "runs export_pipeline t x \<Longrightarrow>
   (\<forall>g. x = Inr g \<longrightarrow> g) \<and> (\<forall>e. x = Inl e \<longrightarrow> (\<forall>s r. (BuildProvider s, r) \<notin> set t)) \<and>
   (\<forall>r. (ShutdownTracer, r) \<notin> set t) \<and> (\<forall>r. (EnvVar ''OTEL_SDK_DISABLED'', r) \<notin> set t)"
  unfolding export_pipeline_def Let_def env_var_def
  by (auto simp: runs_bind_iff runs_attempt_iff runs_call runs_Op_iff)

text \<open>
  A set-up that built a provider hands on its guard, unless installing the subscriber panics; no
  set-up shuts a provider down.
\<close>

lemma init_tracing_runs:
  assumes "runs init_tracing t x"
  shows "(\<forall>s r. (BuildProvider s, r) \<in> set t \<longrightarrow> x = Inr True \<or> (\<exists>m. x = Inl (Panicked m)))
    \<and> (\<forall>v. (EnvVar ''OTEL_SDK_DISABLED'', Value v) \<in> set t \<longrightarrow> eq_ignore_ascii_case v ''true'' \<longrightarrow>
        x \<noteq> Inr True \<and> (\<forall>s r. (BuildExporter s, r) \<notin> set t))
    \<and> (\<forall>r. (ShutdownTracer, r) \<notin> set t)"
proof -
  obtain r0 r1 t1 off where t: "t = (FilterFromEnv, r0) # (EnvVar ''OTEL_SDK_DISABLED'', r1) # t1"
    and off: "off = (case value_of r1 of Inl e \<Rightarrow> False | Inr v \<Rightarrow> eq_ignore_ascii_case v ''true'')"
    and rest: "runs (attempt (if off then Ret (Inr False) else export_pipeline) (\<lambda>guard.
       Op (InitSubscriber guard) (\<lambda>r. case r of
         Fault e \<Rightarrow> Ret (Inl (Panicked (''failed to set global default subscriber: '' @ e)))
       | _ \<Rightarrow> Ret (Inr guard)))) t1 x"
    using assms by (auto simp: init_tracing_def otel_disabled_def env_var_def runs_Op_iff runs_bind_iff runs_call)
  from rest show ?thesis
  proof (cases rule: runs_attemptE)
    case (err e)
    then show ?thesis
      using t off export_pipeline_runs [of t1 "Inl e"]
      by (cases off; cases r1) (auto simp: value_of_def split: frame_reply.splits)
  next
    case (ok t2 t3 g)
    then obtain r t4 where t3: "t3 = (InitSubscriber g, r) # t4"
      and fin: "runs (case r of
         Fault e \<Rightarrow> Ret (Inl (Panicked (''failed to set global default subscriber: '' @ e)))
       | _ \<Rightarrow> Ret (Inr g)) t4 x"
      by (auto simp: runs_Op_iff)
    have x: "t4 = [] \<and> (x = Inr g \<or> (\<exists>m. x = Inl (Panicked m)))" using fin by (cases r) auto
    show ?thesis
    proof (cases off)
      case True
      then have "t2 = []" "g = False" using ok(2) by simp_all
      then show ?thesis using t t3 ok(1) x by auto
    next
      case False
      then have run: "runs export_pipeline t2 (Inr g)" using ok(2) by simp
      then show ?thesis
        using export_pipeline_runs [OF run] t t3 ok(1) x False off by (auto simp: value_of_def)
    qed
  qed
qed

text \<open>The rounds never panic.\<close>

lemma ftp_run_no_panic: "returns (\<lambda>x. \<forall>m. x \<noteq> Some (Inl (Panicked m))) (ftp_run n)"
proof -
  have r: "returns (\<lambda>x. \<forall>m. x \<noteq> Inl (Panicked m)) main_task"
    unfolding main_task_def listen_for_signals_def
    by (auto simp: attempt_def ctx_def with_ctx_def call_def ok_def signal_of_def
        split: sum.splits frame_reply.splits)
  then show ?thesis
    by (induction n) (auto intro!: returns_bind [OF r] split: sum.splits)
qed

lemma ftp_run_cmds: "emits (\<lambda>c. \<forall>s. c \<noteq> BuildProvider s) (ftp_run n)"
proof -
  have "emits (\<lambda>c. \<forall>s. c \<noteq> BuildProvider s) main_task"
    unfolding main_task_def listen_for_signals_def
    by (auto intro!: emits_bindI emits_attemptI split: sum.splits)
  then show ?thesis
    by (induction n) (auto intro!: emits_bindI split: sum.splits)
qed

lemma tracing_quiet:
  assumes "\<forall>(c, r) \<in> set t. tracing_cmd c \<or> c = InstallCrypto"
  shows "signals t = [] \<and> one_generation up (t @ u) = one_generation up u"
  using assms by (induction t) (auto simp: tracing_cmd_def)

text \<open>
  A run of \<open>main\<close>: it fails in the set-up, with a provider only by a panic, or it is a run of the
  loop between set-up and flush.
\<close>

lemma ftp_main_cases:
  assumes "runs (ftp_main n) t x"
  obtains (failed) e where "x = Some (Inl e)" "\<forall>(c, r) \<in> set t. tracing_cmd c \<or> c = InstallCrypto"
      "\<And>s r. (BuildProvider s, r) \<in> set t \<Longrightarrow> \<exists>m. e = Panicked m" "\<forall>r. (ShutdownTracer, r) \<notin> set t"
  | (ran) t0 t1 t2 g where "t = t0 @ t1 @ t2" "runs (ftp_run n) t1 x"
      "\<forall>(c, r) \<in> set t0. tracing_cmd c \<or> c = InstallCrypto"
      "\<And>s r. (BuildProvider s, r) \<in> set t0 \<Longrightarrow> g"
      "t2 = [] \<and> (x = None \<or> \<not> g) \<or> (\<exists>r. t2 = [(ShutdownTracer, r)]) \<and> x \<noteq> None \<and> g"
proof -
  obtain r0 t' where t: "t = (InstallCrypto, r0) # t'"
    and rest: "runs (case r0 of
       Fault e \<Rightarrow> Ret (Some (Inl (Panicked ''Failed to install rustls crypto provider'')))
     | _ \<Rightarrow> fuelled (ended init_tracing) (\<lambda>guard. bind (ftp_run n) (\<lambda>x. case x of
         None \<Rightarrow> Ret None | Some r \<Rightarrow> drop_guard guard (Some r)))) t' x"
    using assms by (auto simp: ftp_main_def runs_Op_iff)
  show ?thesis
  proof (cases "\<exists>e. r0 = Fault e")
    case True
    then show ?thesis using t rest failed by auto
  next
    case False
    then have "runs (fuelled (ended init_tracing) (\<lambda>guard. bind (ftp_run n) (\<lambda>x. case x of
         None \<Rightarrow> Ret None | Some r \<Rightarrow> drop_guard guard (Some r)))) t' x"
      using rest by (cases r0) auto
    then show ?thesis
    proof (cases rule: runs_fuelledE)
      case (err e)
      then have run: "runs init_tracing t' (Inl e)" by (auto simp: runs_ended)
      then have "\<forall>(c, r) \<in> set t'. tracing_cmd c" using emits_runs [OF _ init_tracing_cmds] by blast
      then show ?thesis
        using t err(2) init_tracing_runs [OF run] by (intro failed [of e]) auto
    next
      case (ok s1 s2 g)
      then have run: "runs init_tracing s1 (Inr g)" by (auto simp: runs_ended)
      then have tr: "\<forall>(c, r) \<in> set s1. tracing_cmd c \<or> c = InstallCrypto"
        using emits_runs [OF _ init_tracing_cmds] by blast
      obtain t1 t2 y where s2: "s2 = t1 @ t2" "runs (ftp_run n) t1 y"
        and fin: "runs (case y of None \<Rightarrow> Ret None | Some r \<Rightarrow> drop_guard g (Some r)) t2 x"
        using ok(3) by (rule runs_bindE)
      have "y = x" and t2: "t2 = [] \<and> (x = None \<or> \<not> g) \<or> (\<exists>r. t2 = [(ShutdownTracer, r)]) \<and> x \<noteq> None \<and> g"
        using fin by (auto simp: drop_guard_def runs_Op_iff split: option.splits if_splits)
      have g: "g" if built: "(BuildProvider s, r) \<in> set ((InstallCrypto, r0) # s1)" for s r
        using init_tracing_runs [OF run] built by auto
      show ?thesis
        using ran [of "(InstallCrypto, r0) # s1" t1 t2 g] t ok(1) s2 \<open>y = x\<close> t2 g tr by auto
    qed (auto simp: runs_ended)
  qed
qed

text \<open>
  A run that returns, with success or with an error, flushes the spans of a provider that it set up
  as its last command; a panic ends the process without that.
\<close>

lemma ftp_main_flushes:
  assumes "runs (ftp_main n) t (Some x)" "\<forall>m. x \<noteq> Inl (Panicked m)" "(BuildProvider s, r) \<in> set t"
  shows "\<exists>t' r'. t = t' @ [(ShutdownTracer, r')]"
  using assms(1)
proof (cases rule: ftp_main_cases)
  case (ran t0 t1 t2 g)
  have "(BuildProvider s, r) \<notin> set t1" using emits_runs [OF ran(2) ftp_run_cmds] by blast
  moreover have "(BuildProvider s, r) \<notin> set t2" using ran(5) by auto
  ultimately have g using ran(1,4) assms(3) by auto
  then obtain r' where "t2 = [(ShutdownTracer, r')]" using ran(5) by auto
  then have "t = (t0 @ t1) @ [(ShutdownTracer, r')]" using ran(1) by simp
  then show ?thesis by blast
next
  case (failed e)
  then show ?thesis using failed(3) [OF assms(3)] assms(2) by simp
qed

text \<open>A panic comes before the servers are started, and nothing is flushed after it.\<close>

lemma ftp_main_panics:
  assumes "runs (ftp_main n) t (Some (Inl (Panicked m)))"
  shows "\<forall>(c, r) \<in> set t. c \<noteq> SpawnFtp \<and> c \<noteq> ShutdownTracer"
  using assms
proof (cases rule: ftp_main_cases)
  case (failed e)
  then show ?thesis by (fastforce simp: tracing_cmd_def)
next
  case (ran t0 t1 t2 g)
  then show ?thesis using returns_runs [OF ran(2) ftp_run_no_panic] by simp
qed

text \<open>The signals and the rounds of \<open>main\<close> are those of its loop.\<close>

lemma ftp_main_signals:
  assumes "runs (ftp_main n) t x"
  shows "one_generation False t \<and>
   (case x of
      None \<Rightarrow> signals t = replicate n SigHup
    | Some (Inl e) \<Rightarrow> set (signals t) \<subseteq> {SigHup}
    | Some (Inr u) \<Rightarrow> \<exists>k s. signals t = replicate k SigHup @ [s] \<and> s \<noteq> SigHup)"
  using assms
proof (cases rule: ftp_main_cases)
  case (failed e)
  then show ?thesis using tracing_quiet [of t False "[]"] by simp
next
  case (ran t0 t1 t2 g)
  have t2: "\<forall>(c, r) \<in> set t2. c = ShutdownTracer" using ran(5) by auto
  have "signals t2 = []" using ran(5) by auto
  moreover have "one_generation up (t1 @ t2) = one_generation up t1" for up
    using ran(5) by (induction t1 arbitrary: up) (auto split: prod.splits)
  ultimately have "signals t = signals t1" "one_generation False t = one_generation False t1"
    using tracing_quiet [OF ran(3)] ran(1) by auto
  then show ?thesis using ftp_run_signals [OF ran(2)] by (auto split: option.splits sum.splits)
qed

end
