(* ===== verification/Aeroftp_Tasks.thy ===== *)
theory Aeroftp_Tasks
  imports Main
begin

text \<open>
  The tasks of one round of aeroftp's main loop, run by the scheduler in any order
  (\<open>aeroftp/src/main.rs\<close>, \<open>http/server.rs\<close>, \<open>ftp/server.rs\<close>): the main task, the HTTP server, the
  start of the FTP server, and the FTP listener, which the start spawns on its own.  A state says how
  far each task is; a step is what one of them does next.  The shutdown channel carries no message:
  it is closed when the last of its senders, the main task's and the FTP task's, is dropped, and the
  servers wait for that.
\<close>

section \<open>States and steps\<close>

datatype main_phase = AwaitSignal | Joining | Over bool      \<comment> \<open>over: with a signal?\<close>
datatype http_phase = HttpStarting | Accepting | HttpDraining | HttpEnded
datatype ftp_phase = FtpStarting | FtpEnded
datatype listener_phase = NotSpawned | Listening | Grace | Gone

record round =
  r_main :: main_phase
  r_sender :: bool                \<comment> \<open>\<open>shutdown_sender\<close>\<close>
  r_http :: http_phase
  r_ftp :: ftp_phase              \<comment> \<open>while it starts, it holds \<open>ftp_shutdown_handle\<close>\<close>
  r_listener :: listener_phase

definition round_start :: round where
  "round_start = \<lparr>r_main = AwaitSignal, r_sender = True, r_http = HttpStarting, r_ftp = FtpStarting,
     r_listener = NotSpawned\<rparr>"

definition channel_open :: "round \<Rightarrow> bool" where
  "channel_open s \<longleftrightarrow> r_sender s \<or> r_ftp s = FtpStarting"

text \<open>
  When no signal can be awaited, the main task returns the error, and dropping the \<open>JoinSet\<close> aborts
  its two tasks.
\<close>

inductive task_step :: "round \<Rightarrow> round \<Rightarrow> bool" where
  signal: "r_main s = AwaitSignal \<Longrightarrow> task_step s (s\<lparr>r_main := Joining, r_sender := False\<rparr>)"
| signal_error: "r_main s = AwaitSignal \<Longrightarrow>
    task_step s (s\<lparr>r_main := Over False, r_sender := False, r_http := HttpEnded, r_ftp := FtpEnded\<rparr>)"
| joined: "r_main s = Joining \<Longrightarrow> r_http s = HttpEnded \<Longrightarrow> r_ftp s = FtpEnded \<Longrightarrow>
    task_step s (s\<lparr>r_main := Over True\<rparr>)"
| http_bound: "r_http s = HttpStarting \<Longrightarrow> task_step s (s\<lparr>r_http := Accepting\<rparr>)"
| http_failed: "r_http s = HttpStarting \<Longrightarrow> task_step s (s\<lparr>r_http := HttpEnded\<rparr>)"
| http_stop: "r_http s = Accepting \<Longrightarrow> \<not> channel_open s \<Longrightarrow> task_step s (s\<lparr>r_http := HttpDraining\<rparr>)"
| http_drained: "r_http s = HttpDraining \<Longrightarrow> task_step s (s\<lparr>r_http := HttpEnded\<rparr>)"
| ftp_failed: "r_ftp s = FtpStarting \<Longrightarrow> task_step s (s\<lparr>r_ftp := FtpEnded\<rparr>)"
| ftp_listening: "r_ftp s = FtpStarting \<Longrightarrow> task_step s (s\<lparr>r_ftp := FtpEnded, r_listener := Listening\<rparr>)"
| listen_failed: "r_listener s = Listening \<Longrightarrow> task_step s (s\<lparr>r_listener := Gone\<rparr>)"
| listener_stop: "r_listener s = Listening \<Longrightarrow> \<not> channel_open s \<Longrightarrow> task_step s (s\<lparr>r_listener := Grace\<rparr>)"
| listener_gone: "r_listener s = Grace \<Longrightarrow> task_step s (s\<lparr>r_listener := Gone\<rparr>)"

text \<open>The states of a round, with the number of steps to them.\<close>

inductive reached :: "nat \<Rightarrow> round \<Rightarrow> bool" where
  reached_start: "reached 0 round_start"
| reached_step: "reached n s \<Longrightarrow> task_step s s' \<Longrightarrow> reached (Suc n) s'"

inductive_cases task_stepE: "task_step s s'"

code_pred task_step .

section \<open>The invariant of a round\<close>

definition round_inv :: "round \<Rightarrow> bool" where
  "round_inv s \<longleftrightarrow>
     (r_main s = AwaitSignal \<longrightarrow> r_sender s) \<and>
     (r_main s \<noteq> AwaitSignal \<longrightarrow> \<not> r_sender s) \<and>
     (r_http s = HttpDraining \<longrightarrow> \<not> channel_open s) \<and>
     (r_listener s = Grace \<longrightarrow> \<not> channel_open s) \<and>
     (r_ftp s = FtpStarting \<longrightarrow> r_listener s = NotSpawned) \<and>
     (\<forall>b. r_main s = Over b \<longrightarrow> r_http s = HttpEnded \<and> r_ftp s = FtpEnded)"

lemma step_inv: "task_step s s' \<Longrightarrow> round_inv s \<Longrightarrow> round_inv s'"
  by (induction rule: task_step.induct) (auto simp: round_inv_def channel_open_def)

lemma reached_inv: "reached n s \<Longrightarrow> round_inv s"
proof (induction rule: reached.induct)
  case reached_start
  then show ?case by (simp add: round_inv_def round_start_def channel_open_def)
next
  case (reached_step n s s')
  then show ?case using step_inv by blast
qed

section \<open>A round ends\<close>

fun main_left :: "main_phase \<Rightarrow> nat" where
  "main_left AwaitSignal = 2" | "main_left Joining = 1" | "main_left (Over b) = 0"

fun http_left :: "http_phase \<Rightarrow> nat" where
  "http_left HttpStarting = 3" | "http_left Accepting = 2" | "http_left HttpDraining = 1" | "http_left HttpEnded = 0"

fun listener_left :: "listener_phase \<Rightarrow> nat" where
  "listener_left NotSpawned = 2" | "listener_left Listening = 2" | "listener_left Grace = 1" | "listener_left Gone = 0"

definition steps_left :: "round \<Rightarrow> nat" where
  "steps_left s = main_left (r_main s) + http_left (r_http s) + (if r_ftp s = FtpStarting then 1 else 0)
     + listener_left (r_listener s)"

lemma step_left: "task_step s s' \<Longrightarrow> round_inv s \<Longrightarrow> steps_left s' < steps_left s"
  by (induction rule: task_step.induct) (auto simp: steps_left_def round_inv_def)

lemma reached_bound: "reached n s \<Longrightarrow> n + steps_left s \<le> 8"
proof (induction rule: reached.induct)
  case reached_start
  then show ?case by (simp add: steps_left_def round_start_def)
next
  case (reached_step n s s')
  then show ?case using step_left [OF _ reached_inv] by fastforce
qed

text \<open>A task is stuck only when its round is over and its listener is gone or was never started.\<close>

lemma round_progress:
  assumes "round_inv s" "r_main s = Joining \<or> r_listener s = Grace \<or> (\<exists>b. r_main s = Over b) \<and> r_listener s = Listening"
  shows "\<exists>s'. task_step s s'"
proof (cases "r_listener s = Grace")
  case True
  then show ?thesis by (blast intro: task_step.intros)
next
  case False
  show ?thesis
  proof (cases "r_main s = Joining")
    case True
    with assms(1) have "r_ftp s = FtpEnded \<Longrightarrow> \<not> channel_open s" by (auto simp: round_inv_def channel_open_def)
    then show ?thesis
      using True by (cases "r_ftp s"; cases "r_http s") (auto intro: task_step.intros)
  next
    case no: False
    then obtain b where "r_main s = Over b" "r_listener s = Listening" using assms(2) False by auto
    then show ?thesis by (blast intro: task_step.intros)
  qed
qed

text \<open>
  The round is over before its listener is: nothing joins the listener, so that the next round, or
  the end of the program, comes while it serves.
\<close>

lemma listener_outlives_round:
  "\<exists>n s. reached n s \<and> r_main s = Over True \<and> r_listener s = Listening"
proof -
  note defs = round_start_def channel_open_def
  let ?s1 = "round_start\<lparr>r_ftp := FtpEnded, r_listener := Listening\<rparr>"
  let ?s2 = "?s1\<lparr>r_http := Accepting\<rparr>"
  let ?s3 = "?s2\<lparr>r_main := Joining, r_sender := False\<rparr>"
  let ?s4 = "?s3\<lparr>r_http := HttpDraining\<rparr>"
  let ?s5 = "?s4\<lparr>r_http := HttpEnded\<rparr>"
  let ?s6 = "?s5\<lparr>r_main := Over True\<rparr>"
  have 1: "reached 1 ?s1" using reached_step [OF reached_start ftp_listening] by (simp add: defs)
  have 2: "reached (Suc 1) ?s2" by (rule reached_step [OF 1 http_bound]) (simp add: defs)
  have 3: "reached (Suc (Suc 1)) ?s3" by (rule reached_step [OF 2 signal]) (simp add: defs)
  have 4: "reached (Suc (Suc (Suc 1))) ?s4" by (rule reached_step [OF 3 http_stop]) (simp_all add: defs)
  have 5: "reached (Suc (Suc (Suc (Suc 1)))) ?s5" by (rule reached_step [OF 4 http_drained]) simp
  have "reached (Suc (Suc (Suc (Suc (Suc 1))))) ?s6" by (rule reached_step [OF 5 joined]) (simp_all add: defs)
  then show ?thesis by (rule_tac exI, rule_tac exI [of _ ?s6]) simp
qed

text \<open>
  What a round guarantees: the servers are told to stop only after the wait for a signal has ended
  and the FTP server's start with it, a round ends with both its tasks, and it takes at most eight
  steps.
\<close>

lemma round_safe:
  assumes "reached n s"
  shows "n \<le> 8 \<and>
    (r_http s = HttpDraining \<or> r_listener s = Grace \<longrightarrow> r_main s \<noteq> AwaitSignal \<and> r_ftp s = FtpEnded) \<and>
    (\<forall>b. r_main s = Over b \<longrightarrow> r_http s = HttpEnded \<and> r_ftp s = FtpEnded) \<and>
    (r_main s = Joining \<longrightarrow> (\<exists>s'. task_step s s'))"
  using reached_inv [OF assms] reached_bound [OF assms] round_progress [of s]
  by (cases "r_ftp s") (auto simp: round_inv_def channel_open_def)

lemma signal_reached: "reached 1 (round_start\<lparr>r_main := Joining, r_sender := False\<rparr>)"
  using reached_step [OF reached_start signal] by (simp add: round_start_def)

end
