(* ===== verification/Daemon_Role.thy ===== *)
theory Daemon_Role
  imports Daemon Guarded
begin

text \<open>
  The tasks of one node of \<open>aeroscale/src/bin/aeroscale.rs\<close>, the refresh loop and the listener, side by
  side.  The loop changes the cluster (the account, the slots, the copies of the weights in Redis)
  only while the node's last look at its addresses showed the virtual one; the listener does not ask
  for the role.
\<close>

section \<open>The tasks\<close>

definition daemon_tasks ::
    "nat \<Rightarrow> aws_credentials rio \<Rightarrow> daemon_args \<Rightarrow> ipv4 option \<Rightarrow> slot_network \<Rightarrow> daemon_state \<Rightarrow> payload list list \<Rightarrow>
     unit io list" where
  "daemon_tasks n fetch_creds a vip net st streams =
     [bind (daemon_loop n fetch_creds a vip net st) (\<lambda>_. Ret ()),
      listener_run (cleanup_env_of a) net streams]"

definition changes_cluster :: "cmd \<Rightarrow> bool" where
  "changes_cluster c \<longleftrightarrow> \<not> only_files c"

text \<open>The last output of \<open>ip addr show\<close> that was read shows the address.\<close>

definition holds_vip :: "ipv4 \<Rightarrow> (cmd \<times> reply) list \<Rightarrow> bool" where
  "holds_vip vip h \<longleftrightarrow> (\<exists>h1 out h2. h = h1 @ (IpAddrShow, Text out) # h2 \<and>
     contains out (show_ip vip) \<and> IpAddrShow \<notin> fst ` set h2)"

definition by_master :: "ipv4 \<Rightarrow> (cmd \<times> reply) list \<Rightarrow> cmd \<Rightarrow> bool" where
  "by_master vip h c \<longleftrightarrow> changes_cluster c \<longrightarrow> holds_vip vip h"

lemma holds_vip_kept: "holds_vip vip h \<Longrightarrow> c \<noteq> IpAddrShow \<Longrightarrow> holds_vip vip (h @ [(c, r)])"
  unfolding holds_vip_def
proof (elim exE conjE)
  fix h1 out h2
  assume "c \<noteq> IpAddrShow" "h = h1 @ (IpAddrShow, Text out) # h2" "contains out (show_ip vip)"
    "IpAddrShow \<notin> fst ` set h2"
  then show "\<exists>h1 out h2. h @ [(c, r)] = h1 @ (IpAddrShow, Text out) # h2 \<and>
     contains out (show_ip vip) \<and> IpAddrShow \<notin> fst ` set h2"
    by (intro exI [of _ h1] exI [of _ out] exI [of _ "h2 @ [(c, r)]"]) auto
qed

lemma holds_vip_seen: "contains out (show_ip vip) \<Longrightarrow> holds_vip vip (h @ [(IpAddrShow, Text out)])"
  unfolding holds_vip_def by (intro exI [of _ h] exI [of _ out] exI [of _ "[]"]) simp

lemma unchanging [simp]:
  "\<not> changes_cluster NowMs" "\<not> changes_cluster IpAddrShow" "\<not> changes_cluster (SleepOrTerm n)"
  "\<not> changes_cluster RedisConnect" "\<not> changes_cluster (Subscribe ch)" "\<not> changes_cluster (Sleep n)"
  "\<not> changes_cluster Notify" "\<not> changes_cluster (WriteFile p v)"
  by (simp_all add: changes_cluster_def only_files_def)

section \<open>What a cycle does between two looks at the addresses\<close>

abbreviation no_look :: "cmd \<Rightarrow> bool" where
  "no_look c \<equiv> c \<noteq> IpAddrShow"

lemma no_look_collect: "emits no_look (collect wd r n net cache)"
proof -
  have "emits no_look (weights_read_all wd)"
    unfolding weights_read_all_def by (auto intro!: emits_attemptI emits_for_dir split: option.splits)
  moreover have "emits no_look (leases_read_all cache)"
    unfolding leases_read_all_def read_lease_def
    by (auto intro!: emits_bindI emits_for_each split: sum.splits prod.splits simp: Let_def)
  moreover have "emits no_look (asg_read_all r n)" by (rule emits_asg_read_all) simp
  moreover have "emits no_look ipvs_read_all"
    unfolding ipvs_read_all_def by (auto intro!: emits_bindI)
  ultimately show ?thesis
    unfolding collect_def Let_def by (auto intro!: emits_bindI split: sum.splits prod.splits)
qed

lemma no_look_cleanup: "emits no_look (cleanup_run env master grace s seen)"
proof -
  have "emits no_look (handle_lease env ids s l)" for ids l
    unfolding handle_lease_def Let_def
    by (auto intro!: emits_attemptI emits_bindI emits_release_slot split: option.splits backend_state.splits)
  then have "emits no_look (section_21 env s)"
    unfolding section_21_def Let_def by (auto intro!: emits_for_each emits_bindI)
  moreover have "emits no_look (orphan_step env owners grace i st)" for owners i st
    by (auto simp: orphan_step_def Let_def split: prod.splits option.splits intro!: emits_bindI)
  then have "emits no_look (section_22 env grace s seen)"
    unfolding section_22_def Let_def by (intro emits_bindI emits_for_each) (auto split: prod.splits)
  moreover have "emits no_look (section_23 env s)"
    unfolding section_23_def unleased_step_def
    by (auto intro!: emits_for_each emits_bindI split: backend_state.splits)
  ultimately show ?thesis unfolding cleanup_run_def by (auto intro!: emits_bindI)
qed

lemma no_look_persist: "emits no_look (persist wd)"
  unfolding persist_def persist_entry_def read_weights_dir_def
  by (auto intro!: emits_attemptI emits_bindI emits_for_dir split: option.splits sum.splits)

lemma no_look_scaler: "emits no_look (scaler_run s cfg nm r wd dry st)"
proof -
  have up: "emits no_look (evaluate_scale_up s cfg avg n nm r dry st)" for avg n st
    unfolding evaluate_scale_up_def scale_up_act_def read_iface_snapshot_def Let_def
    by (auto intro!: emits_bindI emits_attemptI split: option.splits sum.splits)
  have down: "emits no_look (evaluate_drain s active cfg wd dry st)" for active st
    unfolding evaluate_drain_def drain_act_def Let_def
    by (auto intro!: emits_bindI split: option.splits sum.splits)
  have "emits no_look (participates b)" for b
    by (rule emits_mono [OF emits_participates]) simp
  then show ?thesis
    unfolding scaler_run_def Let_def by (auto intro!: emits_bindI emits_filter_io up down)
qed

lemma no_look_cycle: "emits no_look (cycle_as a net True st)"
  unfolding cycle_as_def act_on_def Let_def
  by (auto intro!: emits_bindI no_look_collect no_look_cleanup no_look_persist no_look_scaler
      split: prod.splits sum.splits)

section \<open>The loop\<close>

lemma guarded_keeps:
  assumes "emits P p" "I h" "\<And>h c r. I h \<Longrightarrow> P c \<Longrightarrow> I (h @ [(c, r)])" "\<And>h c. I h \<Longrightarrow> P c \<Longrightarrow> G h c"
  shows "guarded G p (\<lambda>h _. I h) h"
  using assms(1,2) by (induction p arbitrary: h) (auto intro: assms(3,4))

lemma cycle_as_by_master:
  assumes "m \<longrightarrow> holds_vip vip h"
  shows "safe (by_master vip) (cycle_as a net m st) h"
proof (cases m)
  case True
  have "guarded (by_master vip) (cycle_as a net True st) (\<lambda>h _. holds_vip vip h) h"
    by (rule guarded_keeps [OF no_look_cycle]) (use assms True in \<open>auto simp: by_master_def holds_vip_kept\<close>)
  then show ?thesis using True by (auto intro: guarded_post)
next
  case False
  then show ?thesis
    using guarded_emits [OF backup_only_files] by (auto simp: by_master_def changes_cluster_def)
qed

lemma role_by_master: "guarded (by_master vip) (role (Some vip)) (\<lambda>h m. m \<longrightarrow> holds_vip vip h) h"
  by (auto simp: role_def is_master_def by_master_def decode_Inr intro: holds_vip_seen split: sum.splits)

lemma cycle_by_master:
  assumes "emits only_files fetch_creds"
  shows "safe (by_master vip) (cycle fetch_creds a (Some vip) net st) h"
proof -
  have "emits only_files (refresh_creds fetch_creds creds)" for creds
    using assms unfolding refresh_creds_def by (auto intro!: emits_bindI)
  then have "safe (by_master vip) (refresh_creds fetch_creds creds) h" for creds h
    by (rule guarded_emits) (simp add: by_master_def changes_cluster_def)
  then show ?thesis
    unfolding cycle_def
    by (rule safe_bind) (auto intro!: guarded_post [OF role_by_master] cycle_as_by_master)
qed

lemma daemon_loop_by_master:
  "emits only_files fetch_creds \<Longrightarrow> safe (by_master vip) (daemon_loop n fetch_creds a (Some vip) net st) h"
proof (induction n arbitrary: st h)
  case (Suc n)
  show ?case
    unfolding daemon_loop.simps
    by (rule safe_bind [OF cycle_by_master [OF Suc.prems]])
      (auto simp: by_master_def intro: Suc)
qed simp

section \<open>The listener\<close>

text \<open>A release notice that the listener received names the instance that it ends.\<close>

definition noticed :: "payload list list \<Rightarrow> string \<Rightarrow> bool" where
  "noticed streams i \<longleftrightarrow> (\<exists>s \<in> set streams. \<exists>j m. Inr (Some j) \<in> set s \<and> msg_from_json j = Some m \<and>
     m_action m = ''release'' \<and> m_instance_id m = Some i)"

definition listener_command :: "cleanup_env \<Rightarrow> payload list list \<Rightarrow> cmd \<Rightarrow> bool" where
  "listener_command env streams c \<longleftrightarrow> changes_cluster c \<longrightarrow> \<not> ce_dry_run env \<and>
     (\<exists>i. noticed streams i \<and> c = AwsQuery (asg_host (ce_region env)) ''autoscaling'' (ce_region env)
       (terminate_params i (ce_decrement env)))"

lemma handle_message_listener:
  assumes "s \<in> set streams" "Inr (Some j) \<in> set s" "msg_from_json j = Some m"
  shows "emits (listener_command env streams) (handle_message env net m)"
proof (rule emits_mono [OF handle_message_commands])
  fix c assume "message_command env net m c"
  then show "listener_command env streams c"
    using assms by (auto simp: message_command_def listener_command_def noticed_def)
qed

lemma listener_run_commands: "set streams \<subseteq> set all \<Longrightarrow> emits (listener_command env all) (listener_run env net streams)"
proof (induction streams)
  case (Cons s streams)
  have "emits (listener_command env all) (on_message env net p)" if "p \<in> set s" for p
    using that Cons.prems
    by (auto simp: on_message_def intro!: handle_message_listener split: sum.splits option.splits)
  then have "emits (listener_command env all) (subscribe_once env net s)"
    unfolding subscribe_once_def
    by (auto intro!: emits_attemptI emits_bindI emits_for_each, auto simp: listener_command_def)
  then show ?case
    using Cons by (auto intro!: emits_bindI, auto simp: listener_command_def)
qed simp

section \<open>Both together\<close>

lemma tasks_allowed:
  assumes "emits only_files fetch_creds"
    and "steps srv sch (daemon_tasks n fetch_creds a (Some vip) net st streams, w) = u @ (k, c, r) # v"
  shows "(k = 0 \<and> by_master vip (own 0 u) c) \<or> (k = 1 \<and> listener_command (cleanup_env_of a) streams c)"
proof -
  let ?ps = "daemon_tasks n fetch_creds a (Some vip) net st streams"
  let ?G = "\<lambda>j. if j = 0 then by_master vip else (\<lambda>_. listener_command (cleanup_env_of a) streams)"
  have safe: "safe (?G j) (?ps ! j) []" if "j < length ?ps" for j
  proof (cases "j = 0")
    case True
    then show ?thesis
      using daemon_loop_by_master [OF assms(1)] by (simp add: daemon_tasks_def)
  next
    case False
    then have "j = 1" using that by (simp add: daemon_tasks_def)
    then show ?thesis
      using guarded_emits [OF listener_run_commands [of streams streams]] by (simp add: daemon_tasks_def)
  qed
  have k: "k < length ?ps" using steps_index [of "(k, c, r)" srv sch "(?ps, w)"] assms(2) by simp
  have "?G k (own k u) c" by (rule step_allowed [OF safe assms(2)])
  then show ?thesis using k by (auto simp: daemon_tasks_def less_Suc_eq)
qed

end
