(* ===== verification/Cycle_Evidence.thy ===== *)
theory Cycle_Evidence
  imports Daemon
begin

text \<open>
  From the answers of the services to the actions of the daemon: what a snapshot says was read in
  the same cycle (or, for an owner that cannot be read, remembered from an earlier one), and a slot
  is released only on such evidence.  This joins the readers of \<open>aeroscale/src/snapshot/\<close>, the
  cleanup and the cycle of \<open>aeroscale/src/bin/aeroscale.rs\<close>.
\<close>

section \<open>Evidence in a run\<close>

type_synonym log = "(cmd \<times> reply) list"

text \<open>Redis named \<open>i\<close> as the owner of the slot.\<close>

definition told :: "log \<Rightarrow> u32 \<Rightarrow> string \<Rightarrow> bool" where
  "told t slot i \<longleftrightarrow> (\<exists>m. member_slot m = slot \<and> (Redis (GET (key_owner m)), Bulk (Some i)) \<in> set t)"

text \<open>Redis listed a lease of the slot.\<close>

definition listed :: "log \<Rightarrow> u32 \<Rightarrow> bool" where
  "listed t slot \<longleftrightarrow> (\<exists>raw x. (Redis (ZRANGE KEY_LEASES), Scored raw) \<in> set t \<and> x \<in> set raw \<and> member_slot (fst x) = slot)"

definition describe_cmd :: "string \<Rightarrow> string \<Rightarrow> cmd" where
  "describe_cmd region asg_name = AwsQuery (asg_host region) ''autoscaling'' region
     [(''Action'', ''DescribeAutoScalingGroups''), (''Version'', ''2011-01-01''),
      (''AutoScalingGroupNames.member.1'', asg_name)]"

text \<open>The instances in service according to an answer of AWS.\<close>

definition in_service_of :: "string \<Rightarrow> string set" where
  "in_service_of xml = ri_instance_id `
     {x \<in> (\<Union>g \<in> set (parse_asg_describe xml). set (g_instances g)). ri_lifecycle_state x = ''InService''}"

definition owner_known :: "owner_cache \<Rightarrow> log \<Rightarrow> u32 \<Rightarrow> string \<Rightarrow> bool" where
  "owner_known cache t slot i \<longleftrightarrow> told t slot i \<or> cache slot = Some i"

definition lease_known :: "owner_cache \<Rightarrow> log \<Rightarrow> slot_lease \<Rightarrow> bool" where
  "lease_known cache t l \<longleftrightarrow> listed t (sl_slot l) \<and>
     (sl_owner l = OWNER_MISSING \<or> sl_owner l = OWNER_UNKNOWN \<or> owner_known cache t (sl_slot l) (sl_owner l))"

lemma told_mono: "told t slot i \<Longrightarrow> set t \<subseteq> set u \<Longrightarrow> told u slot i"
  by (auto simp: told_def)

lemma lease_known_mono: "lease_known cache t l \<Longrightarrow> set t \<subseteq> set u \<Longrightarrow> lease_known cache u l"
  unfolding lease_known_def listed_def owner_known_def using told_mono by blast

section \<open>The leases of a snapshot\<close>

text \<open>What the loop over the leases knows after it has read \<open>t\<close>.\<close>

definition owner_ok :: "owner_cache \<Rightarrow> log \<Rightarrow> slot_lease \<Rightarrow> bool" where
  "owner_ok cache t l \<longleftrightarrow>
     sl_owner l = OWNER_MISSING \<or> sl_owner l = OWNER_UNKNOWN \<or> owner_known cache t (sl_slot l) (sl_owner l)"

lemma read_lease_runs:
  assumes "runs (read_lease x (ls, c)) t (ls', c')"
  shows "\<exists>l. ls' = ls @ [l] \<and> sl_slot l = member_slot (fst x) \<and> owner_ok c t l \<and>
    (\<forall>slot i. c' slot = Some i \<longrightarrow> owner_known c t slot i)"
proof -
  obtain m e where x: "x = (m, e)" by (cases x)
  then obtain r where t: "t = [(Redis (GET (key_owner m)), r)]"
    and res: "(ls', c') = (case resolve_owner (member_slot m) (as_bulk r) c of (owner, c'') \<Rightarrow>
       (ls @ [\<lparr>sl_slot = member_slot m, sl_owner = owner, sl_expires_ms = score_u64 e\<rparr>], c''))"
    using assms by (auto simp: read_lease_def runs_bind_iff runs_call member_slot_def Let_def split_beta)
  show ?thesis
  proof (cases "as_bulk r")
    case (Inl err)
    then show ?thesis
      using res x by (auto simp: resolve_owner_def owner_ok_def owner_known_def split: option.splits)
  next
    case (Inr v)
    show ?thesis
    proof (cases v)
      case None
      then show ?thesis using Inr res x
        by (auto simp: resolve_owner_def owner_ok_def owner_known_def split: if_splits)
    next
      case (Some i)
      then have "r = Bulk (Some i)" using Inr by (auto simp: decode_defs split: reply.splits)
      then have "told t (member_slot m) i" using t by (auto simp: told_def)
      then show ?thesis using Inr Some res x
        by (auto simp: resolve_owner_def owner_ok_def owner_known_def split: if_splits)
    qed
  qed
qed

lemma read_leases_known:
  "runs (for_each read_lease raw (ls, c)) t (ls', c') \<Longrightarrow>
   (\<forall>l \<in> set ls'. l \<in> set ls \<or> (\<exists>x \<in> set raw. sl_slot l = member_slot (fst x)) \<and> owner_ok c t l) \<and>
   (\<forall>slot i. c' slot = Some i \<longrightarrow> owner_known c t slot i)"
proof (induction raw arbitrary: ls c t)
  case Nil
  then show ?case by (simp add: owner_known_def)
next
  case (Cons x raw)
  obtain t1 t2 ls1 c1 where t: "t = t1 @ t2" and r1: "runs (read_lease x (ls, c)) t1 (ls1, c1)"
    and r2: "runs (for_each read_lease raw (ls1, c1)) t2 (ls', c')"
    using Cons.prems by (auto elim!: runs_bindE)
  obtain l where l: "ls1 = ls @ [l]" "sl_slot l = member_slot (fst x)" "owner_ok c t1 l"
    and c1: "\<forall>slot i. c1 slot = Some i \<longrightarrow> owner_known c t1 slot i"
    using read_lease_runs [OF r1] by blast
  have known: "owner_known c t slot i" if "owner_known c1 t2 slot i" for slot i
    using that c1 t told_mono [of t1 slot i t] told_mono [of t2 slot i t]
    unfolding owner_known_def by auto
  then have ok: "owner_ok c t k" if "owner_ok c1 t2 k" for k
    using that unfolding owner_ok_def by blast
  have "owner_ok c t l"
    using l(3) t told_mono [of t1 _ _ t] unfolding owner_ok_def owner_known_def by auto
  then show ?case
    using Cons.IH [OF r2] l(1,2) ok known by auto
qed

lemma leases_known:
  assumes "runs (leases_read_all cache) t (Inr ls, cache')" "l \<in> set ls"
  shows "lease_known cache t l"
proof -
  obtain x t1 t2 where t: "t = t1 @ t2"
    and r1: "runs (ctx ''ZRANGE slots:leases WITHSCORES failed'' (call (Redis (ZRANGE KEY_LEASES)) as_scored)) t1 x"
    and r2: "runs (case x of Inl e \<Rightarrow> Ret (Inl e, cache)
      | Inr raw \<Rightarrow> bind now_ms (\<lambda>now. bind (for_each read_lease raw ([], cache)) (\<lambda>(leases, cache').
          Ret (Inr (sort_key sl_slot leases), cache')))) t2 (Inr ls, cache')"
    using assms(1) unfolding leases_read_all_def by (rule runs_bindE)
  then obtain raw where x: "x = Inr raw" by (cases x) auto
  then have "t1 = [(Redis (ZRANGE KEY_LEASES), Scored raw)]"
    using r1 by (auto simp: runs_ctx runs_call decode_Inr dest!: sym [of "Inr _"])
  moreover obtain u v ls0 c where v: "t2 = u @ v" "runs (for_each read_lease raw ([], cache)) v (ls0, c)"
      "ls = sort_key sl_slot ls0"
    using r2 x by (auto elim!: runs_bindE)
  moreover have "(\<exists>x \<in> set raw. sl_slot l = member_slot (fst x)) \<and> owner_ok cache v l"
    using read_leases_known [OF v(2)] v(3) assms(2) by auto
  ultimately show ?thesis
    using t told_mono [of v _ _ t] unfolding lease_known_def listed_def owner_ok_def owner_known_def by force
qed

section \<open>The snapshot\<close>

lemma asg_view_in_service:
  "instance_id ` {i \<in> set (snd (asg_view (parse_asg_describe xml))). is_in_service i} = in_service_of xml"
proof -
  have "instance_id ` {i \<in> to_instance ` U. is_in_service i} =
      ri_instance_id ` {x \<in> U. ri_lifecycle_state x = ''InService''}" for U
    by (force simp: is_in_service_def to_instance_def)
  then show ?thesis by (simp add: asg_view_set in_service_of_def)
qed

lemma asg_known:
  assumes "runs (asg_read_all region asg_name) t (Inr v)"
  shows "\<exists>xml. (describe_cmd region asg_name, Text xml) \<in> set t \<and> v = asg_view (parse_asg_describe xml)"
  using assms
  by (auto simp: asg_read_all_def describe_def aws_call_def describe_cmd_def runs_attempt_iff runs_call decode_Inr
      dest!: sym [of "Inr _"])

text \<open>A snapshot with a group was read from an answer of AWS, its leases from Redis.\<close>

lemma collect_known:
  assumes "runs (collect wd region asg_name net cache) t (Inr s, cache')"
  shows "(\<forall>l \<in> set (leases s). lease_known cache t l) \<and>
    (asg_group s \<noteq> None \<longrightarrow> (\<exists>xml. (describe_cmd region asg_name, Text xml) \<in> set t \<and>
       set (in_service_ids s) = in_service_of xml))"
proof -
  obtain x t1 t2 where t: "t = t1 @ t2" and r2: "runs (case x of
       Inl e \<Rightarrow> Ret (Inl e, cache)
     | Inr weight_entries \<Rightarrow>
         bind (leases_read_all cache) (\<lambda>(y, cache'). case y of
           Inl e \<Rightarrow> Ret (Inl e, cache')
         | Inr lease_list \<Rightarrow>
             bind (asg_read_all region asg_name) (\<lambda>g.
             let (group, instances) = (case g of Inl e \<Rightarrow> (None, []) | Inr v \<Rightarrow> v) in
             bind ipvs_read_all (\<lambda>i.
             let ipvs_backends = (case i of Inl e \<Rightarrow> [] | Inr v \<Rightarrow> v) in
             bind instant_now (\<lambda>t.
             Ret (Inr \<lparr>backends = map (join_backend net lease_list ipvs_backends) weight_entries,
                       leases = lease_list, asg = instances, asg_group = group,
                       ipvs = ipvs_backends, taken_at = t\<rparr>, cache')))))) t2 (Inr s, cache')"
    using assms unfolding collect_def by (rule runs_bindE)
  then obtain ws where x: "x = Inr ws" by (cases x) auto
  obtain y c t3 t4 where t2: "t2 = t3 @ t4" and lr: "runs (leases_read_all cache) t3 (y, c)"
    and r4: "runs (case y of Inl e \<Rightarrow> Ret (Inl e, c)
         | Inr lease_list \<Rightarrow>
             bind (asg_read_all region asg_name) (\<lambda>g.
             let (group, instances) = (case g of Inl e \<Rightarrow> (None, []) | Inr v \<Rightarrow> v) in
             bind ipvs_read_all (\<lambda>i.
             let ipvs_backends = (case i of Inl e \<Rightarrow> [] | Inr v \<Rightarrow> v) in
             bind instant_now (\<lambda>t.
             Ret (Inr \<lparr>backends = map (join_backend net lease_list ipvs_backends) ws,
                       leases = lease_list, asg = instances, asg_group = group,
                       ipvs = ipvs_backends, taken_at = t\<rparr>, c))))) t4 (Inr s, cache')"
    using r2 unfolding x by (auto elim!: runs_bindE)
  then obtain ls where y: "y = Inr ls" by (cases y) auto
  obtain g t5 t6 where t4: "t4 = t5 @ t6" and gr: "runs (asg_read_all region asg_name) t5 g"
    and s: "leases s = ls" "(asg_group s, asg s) = (case g of Inl e \<Rightarrow> (None, []) | Inr v \<Rightarrow> v)"
    using r4 unfolding y by (auto elim!: runs_bindE simp: Let_def split: prod.splits)
  have "lease_known cache t l" if "l \<in> set ls" for l
  proof (rule lease_known_mono)
    show "lease_known cache t3 l" using leases_known lr y that by blast
  qed (auto simp: t t2)
  moreover have "\<exists>xml. (describe_cmd region asg_name, Text xml) \<in> set t \<and> set (in_service_ids s) = in_service_of xml"
    if grp: "asg_group s \<noteq> None"
  proof -
    obtain v where g: "g = Inr v" using s(2) grp by (cases g) auto
    then obtain xml where xml: "(describe_cmd region asg_name, Text xml) \<in> set t5" "v = asg_view (parse_asg_describe xml)"
      using asg_known gr by blast
    then have "asg s = snd (asg_view (parse_asg_describe xml))" using s(2) g by (metis snd_conv sum.case(2))
    then have "set (in_service_ids s) = in_service_of xml"
      using asg_view_in_service [of xml] by (simp add: in_service_ids_def)
    then show ?thesis using xml(1) t t2 t4 by auto
  qed
  ultimately show ?thesis using s(1) by blast
qed

section \<open>Releases in a cycle\<close>

definition zrem_lease :: "cmd \<Rightarrow> bool" where
  "zrem_lease c \<longleftrightarrow> (\<exists>k. c = Redis (ZREM KEY_LEASES k))"

lemma zrem_lease_simps [simp]:
  "\<not> zrem_lease (WriteFile p v)" "\<not> zrem_lease (AwsQuery h sv r ps)" "\<not> zrem_lease (Redis (SET k v))"
  "\<not> zrem_lease (ReadDir d)" "\<not> zrem_lease (ReadFile p)" "\<not> zrem_lease NowMs"
  by (auto simp: zrem_lease_def)

lemma only_files_no_zrem: "only_files c \<Longrightarrow> \<not> zrem_lease c"
  by (auto simp: only_files_def zrem_lease_def)

lemma scaler_no_zrem: "scaler_command s nm region wd dry c \<Longrightarrow> \<not> zrem_lease c"
  by (auto simp: scaler_command_def zrem_lease_def)

lemma persist_no_zrem: "emits (\<lambda>c. \<not> zrem_lease c) (persist wd)"
  unfolding persist_def persist_entry_def
  by (auto intro!: emits_attemptI emits_bindI emits_for_dir split: option.splits sum.splits)

text \<open>A command that the rest of a program never issues comes from its first part.\<close>

lemma runs_bind_in:
  assumes "runs (bind p f) t b" "\<And>a. emits (\<lambda>c. \<not> P c) (f a)" "(c, r) \<in> set t" "P c"
  shows "\<exists>t1 a. runs p t1 a \<and> (c, r) \<in> set t1"
proof -
  obtain t1 t2 a where t: "t = t1 @ t2" "runs p t1 a" "runs (f a) t2 b" using assms(1) by (rule runs_bindE)
  then have "(c, r) \<notin> set t2" using emits_runs assms(2,4) by fast
  then show ?thesis using t assms(3) by auto
qed

text \<open>The releases of a cycle are those of its cleanup.\<close>

lemma act_on_zrem:
  assumes "runs (act_on a m s st) t st'" "(c, r) \<in> set t" "zrem_lease c"
  shows "\<exists>t1 x. runs (cleanup_run (cleanup_env_of a) m (da_orphan_grace_secs a) s (d_orphans st)) t1 x \<and>
    (c, r) \<in> set t1"
proof -
  have "emits (\<lambda>c. \<not> zrem_lease c) (scaler_run s (scale_config_of a) (da_asg_name a) (da_region a)
      (da_weights_dir a) (da_dry_run a) q)" for q
    by (rule emits_mono [OF scaler_run_commands scaler_no_zrem])
  then show ?thesis
    using persist_no_zrem
    by (intro runs_bind_in [where P = zrem_lease, OF assms(1) [unfolded act_on_def]] assms(2,3))
      (auto simp: Let_def intro!: emits_bindI split: prod.splits)
qed

lemma justified_zrem:
  assumes "justified env g s seen (Redis (ZREM KEY_LEASES k))"
  obtains l where "l \<in> set (leases s)" "asg_plausible s" "sl_owner l \<notin> set (in_service_ids s)"
    "sl_owner l \<noteq> OWNER_MISSING" "sl_owner l \<noteq> OWNER_UNKNOWN" "k = show_word (sl_slot l)" "\<not> ce_dry_run env"
  using assms
proof (cases rule: justified.cases)
  case (releasing l)
  from releasing(6) have "k = show_word (sl_slot l)" by simp
  with releasing show ?thesis using that by simp
qed simp_all

text \<open>
  A slot that a cycle releases was listed as leased in that cycle, to an owner whom Redis named in
  that cycle or an earlier one, and who is not among the instances, at least one, that AWS reported
  in service in that cycle.
\<close>

lemma cycle_release_known:
  assumes "runs (cycle_as a net m st) t st'" "(Redis (ZREM KEY_LEASES k), r) \<in> set t"
  shows "m \<and> \<not> da_dry_run a \<and> (\<exists>slot i xml. k = show_word slot \<and> listed t slot \<and>
    owner_known (d_cache st) t slot i \<and>
    (describe_cmd (da_region a) (da_asg_name a), Text xml) \<in> set t \<and>
    in_service_of xml \<noteq> {} \<and> i \<notin> in_service_of xml)"
proof -
  let ?e = "cleanup_env_of a"
  obtain t1 t2 where t: "t = t1 @ t2"
    and r1: "runs (if m then Ret () else bind (sync_from_redis (da_weights_dir a)) (\<lambda>_. Ret ())) t1 ()"
    and r2: "runs (bind (collect (da_weights_dir a) (da_region a) (da_asg_name a) net (d_cache st)) (\<lambda>(x, cache).
       let st = st\<lparr>d_cache := cache\<rparr> in
       case x of Inl e \<Rightarrow> Ret st | Inr s \<Rightarrow> act_on a m s st)) t2 st'"
    using assms(1) unfolding cycle_as_def by (rule runs_bindE) simp
  obtain x cache t3 t4 where t2: "t2 = t3 @ t4"
    and col: "runs (collect (da_weights_dir a) (da_region a) (da_asg_name a) net (d_cache st)) t3 (x, cache)"
    and r4: "runs (case x of Inl e \<Rightarrow> Ret (st\<lparr>d_cache := cache\<rparr>)
        | Inr s \<Rightarrow> act_on a m s (st\<lparr>d_cache := cache\<rparr>)) t4 st'"
    using r2 by (auto elim!: runs_bindE simp: Let_def)
  have "emits (\<lambda>c. \<not> zrem_lease c) (if m then Ret () else bind (sync_from_redis (da_weights_dir a)) (\<lambda>_. Ret ()))"
    using emits_mono [OF sync_only_files only_files_no_zrem] by (auto intro!: emits_bindI)
  then have "(Redis (ZREM KEY_LEASES k), r) \<notin> set t1"
    using emits_runs [OF r1, where c = "Redis (ZREM KEY_LEASES k)" and r = r] by (auto simp: zrem_lease_def)
  moreover have "emits (\<lambda>c. \<not> zrem_lease c) (collect (da_weights_dir a) (da_region a) (da_asg_name a) net (d_cache st))"
    by (rule emits_mono [OF collect_only_files only_files_no_zrem])
  then have "(Redis (ZREM KEY_LEASES k), r) \<notin> set t3"
    using emits_runs [OF col, where c = "Redis (ZREM KEY_LEASES k)" and r = r]
    by (auto simp: zrem_lease_def)
  ultimately have in4: "(Redis (ZREM KEY_LEASES k), r) \<in> set t4" using assms(2) t t2 by auto
  then obtain s where x: "x = Inr s" and act: "runs (act_on a m s (st\<lparr>d_cache := cache\<rparr>)) t4 st'"
    using r4 by (cases x) auto
  obtain t5 y where cl: "runs (cleanup_run ?e m (da_orphan_grace_secs a) s (d_orphans st)) t5 y"
    and in5: "(Redis (ZREM KEY_LEASES k), r) \<in> set t5"
    using act_on_zrem [OF act in4] by (auto simp: zrem_lease_def)
  have m using cl in5 by (auto simp: cleanup_run_def split: if_splits)
  have "justified ?e (da_orphan_grace_secs a) s (d_orphans st) (Redis (ZREM KEY_LEASES k))"
    using emits_runs [OF cl cleanup_run_justified in5] .
  then obtain l where l: "l \<in> set (leases s)" "asg_plausible s" "sl_owner l \<notin> set (in_service_ids s)"
      "sl_owner l \<noteq> OWNER_MISSING" "sl_owner l \<noteq> OWNER_UNKNOWN" "k = show_word (sl_slot l)" "\<not> ce_dry_run ?e"
    by (rule justified_zrem)
  note known = collect_known [OF col [unfolded x]]
  have sub: "set t3 \<subseteq> set t" using t t2 by auto
  have "lease_known (d_cache st) t3 l" using known l(1) by blast
  then have lk: "lease_known (d_cache st) t l" using sub by (rule lease_known_mono)
  have ne: "in_service_ids s \<noteq> []" "asg_group s \<noteq> None" using l(1,2) by (auto simp: asg_plausible_def)
  then obtain xml where xml: "(describe_cmd (da_region a) (da_asg_name a), Text xml) \<in> set t3"
      "set (in_service_ids s) = in_service_of xml"
    using known by blast
  have "\<not> da_dry_run a" using l(7) by (simp add: cleanup_env_of_def)
  moreover have "in_service_of xml \<noteq> {}" "sl_owner l \<notin> in_service_of xml"
    using ne(1) l(3) by (simp_all flip: xml(2))
  moreover have "listed t (sl_slot l)" "owner_known (d_cache st) t (sl_slot l) (sl_owner l)"
    using lk l(4,5) by (simp_all add: lease_known_def)
  ultimately show ?thesis using \<open>m\<close> l(6) xml(1) sub by blast
qed

end
