(* ===== verification/Sample_Cycle.thy ===== *)
theory Sample_Cycle
  imports Cycle_Evidence Sample_Runs Slot_Runs
begin

text \<open>
  A cycle of the daemon that releases a slot: slot 7 is leased to an instance that AWS no longer
  shows, while another instance is in service.
\<close>

definition gone_xml :: string where
  "gone_xml = concat (map render_group [sample_group])"

lemma gone_xml_parses: "parse_asg_describe gone_xml = [sample_group]"
  using parse_asg_render [of "[sample_group]" "[]" "[]"] sample_group_clean by (simp add: gone_xml_def)

definition gone_answer :: "cmd \<Rightarrow> reply" where
  "gone_answer c =
     (case c of
        AwsQuery h sv r ps \<Rightarrow> Text gone_xml
      | NowMs \<Rightarrow> Millis 900
      | NowInstant \<Rightarrow> Nanos 0
      | ReadDir d \<Rightarrow> Entries []
      | Redis (ZRANGE k) \<Rightarrow> Scored [(''7'', 100)]
      | Redis (GET k) \<Rightarrow> Bulk (Some ''gone'')
      | ReadFile p \<Rightarrow> Failed IoError
      | _ \<Rightarrow> Done)"

definition wet_args :: daemon_args where
  "wet_args = sample_args\<lparr>da_dry_run := False\<rparr>"

abbreviation gone_cycle :: "daemon_state io" where
  "gone_cycle \<equiv> cycle_as wet_args sample_net True sample_daemon"

abbreviation gone_trace :: log where
  "gone_trace \<equiv> trace (answering gone_answer) gone_cycle ()"

lemma parse_7: "parse_u32 ''7'' = Some 7"
  using parse_u32_show [of 7] by (simp add: show_sample_slots)

definition gone_snapshot :: snapshot where
  "gone_snapshot = \<lparr>backends = [], leases = [\<lparr>sl_slot = 7, sl_owner = ''gone'', sl_expires_ms = 100\<rparr>],
     asg = [\<lparr>instance_id = ''i-a'', lifecycle_state = ''InService'', health_status = ''Healthy''\<rparr>],
     asg_group = Some \<lparr>gi_name = ''g'', desired_capacity = 2, min_size = 1, max_size = 4\<rparr>, ipvs = [],
     taken_at = 0\<rparr>"

lemmas gone_defs = answering_def gone_answer_def trace_attempt trace_bind exec_attempt exec_bind with_ctx_def
  decode_defs now_ms_def instant_now_def as_millis_def as_nanos_def Let_def

lemma gone_collect:
  "exec (answering gone_answer) (collect ''w'' ''eu'' ''g'' sample_net (\<lambda>_. None)) () =
     ((Inr gone_snapshot, [7 \<mapsto> ''gone'']), ())"
  by (simp add: collect_def weights_read_all_def leases_read_all_def asg_read_all_def describe_def aws_call_def
      ipvs_read_all_def gone_defs for_dir_def read_lease_def resolve_owner_def parse_7 or_else_def member_slot_def score_u64_def
      gone_xml_parses asg_view_def sample_group_def group_info_def to_instance_def gone_snapshot_def)

lemma gone_releases: "(Redis (ZREM KEY_LEASES ''7''), Done) \<in> set gone_trace"
proof -
  have "(Redis (ZREM KEY_LEASES ''7''), Done) \<in> set (trace (answering gone_answer)
      (handle_lease (cleanup_env_of wet_args) (in_service_ids gone_snapshot) gone_snapshot
        \<lparr>sl_slot = 7, sl_owner = ''gone'', sl_expires_ms = 100\<rparr>) ())"
    by (simp add: handle_lease_def in_service_ids_def gone_snapshot_def is_in_service_def OWNER_MISSING_def
        OWNER_UNKNOWN_def release_slot_def cleanup_env_of_def wet_args_def sample_args_def redis_unit_def
        show_sample_slots gone_defs)
  then have "(Redis (ZREM KEY_LEASES ''7''), Done) \<in> set (trace (answering gone_answer)
      (section_21 (cleanup_env_of wet_args) gone_snapshot) ())"
    by (simp add: section_21_def gone_snapshot_def in_service_ids_def is_in_service_def trace_bind Let_def)
  then have "(Redis (ZREM KEY_LEASES ''7''), Done) \<in> set (trace (answering gone_answer)
      (act_on wet_args True gone_snapshot st) ())" for st
    by (simp add: act_on_def cleanup_run_def trace_bind)
  then show ?thesis
    using gone_collect
    by (simp add: cycle_as_def trace_bind sample_daemon_def wet_args_def sample_args_def Let_def)
qed

definition gone_lease :: slot_lease where
  "gone_lease = \<lparr>sl_slot = 7, sl_owner = ''gone'', sl_expires_ms = 100\<rparr>"

lemma gone_snapshot_facts:
  "asg_plausible gone_snapshot" "gone_lease \<in> set (leases gone_snapshot)"
  "sl_owner gone_lease \<notin> set (in_service_ids gone_snapshot)" "\<not> ce_dry_run (cleanup_env_of wet_args)"
  "sl_owner gone_lease \<noteq> OWNER_MISSING" "sl_owner gone_lease \<noteq> OWNER_UNKNOWN"
  "show_word (sl_slot gone_lease) = ''7''"
  by (simp_all add: asg_plausible_def gone_snapshot_def in_service_ids_def is_in_service_def gone_lease_def
      OWNER_MISSING_def OWNER_UNKNOWN_def cleanup_env_of_def wet_args_def sample_args_def show_sample_slots)

end
