(* ===== verification/Sample_Node.thy ===== *)
theory Sample_Node
  imports Daemon_Role Sample_Cycle
begin

text \<open>
  The tasks of a backup node, interleaved: the loop has just seen that the node does not hold the
  virtual address when the listener receives a release notice, and ends the instance.
\<close>

definition backup_answer :: "cmd \<Rightarrow> reply" where
  "backup_answer c =
     (case c of NowMs \<Rightarrow> Millis 900 | IpAddrShow \<Rightarrow> Text ''inet 192.168.0.7/24'' | _ \<Rightarrow> Done)"

definition release_of_7 :: "payload list list" where
  "release_of_7 = [[Inr (Some (asg_change (show_word (7 :: u32)) ''release'' (Some ''i-7'')))]]"

abbreviation backup_tasks :: "unit io list" where
  "backup_tasks \<equiv> daemon_tasks 1 (Ret (Inl Exit1)) wet_args (Some 167772161) sample_net sample_daemon release_of_7"

definition backup_run :: "(nat \<times> cmd \<times> reply) list" where
  "backup_run = steps (answering backup_answer) [0, 0, 1, 1, 1, 1, 1] (backup_tasks, ())"

lemma sample_vip: "show_ip 167772161 = ''10.0.0.1''"
  by (simp add: show_ip_def octet_def show_nat.simps digit_char_def) code_simp

lemma backup_run_steps:
  "backup_run =
     [(0, NowMs, Millis 900), (0, IpAddrShow, Text ''inet 192.168.0.7/24''),
      (1, RedisConnect, Done), (1, Subscribe ASG_CHANGE_CHANNEL, Done),
      (1, WriteFile (weight_path ''w'' (ip_for_slot sample_net 7)) WEIGHT_DISABLED, Done),
      (1, AwsQuery (asg_host ''eu'') ''autoscaling'' ''eu'' (terminate_params ''i-7'' True), Done),
      (1, Notify, Done)]"
  by (simp add: backup_run_def daemon_tasks_def cycle_def refresh_creds_def role_def is_master_def now_ms_def
      call_def issued_def turn_def answering_def backup_answer_def release_of_7_def subscribe_once_def
      on_message_def msg_round_trip handle_message_def attempt_def ctx_def write_weight_def
      terminate_instance_def asg_terminate_instance_def aws_call_def cleanup_env_of_def wet_args_def
      sample_args_def sample_daemon_def sample_creds_def is_expiring_soon_def decode_defs Let_def)

text \<open>The instance is ended although the node's last look did not show the virtual address.\<close>

lemma backup_node_terminates:
  "\<not> holds_vip 167772161 (own 0 backup_run) \<and>
   (1, AwsQuery (asg_host ''eu'') ''autoscaling'' ''eu'' (terminate_params ''i-7'' True), Done) \<in> set backup_run"
proof -
  have "\<not> contains ''inet 192.168.0.7/24'' (show_ip 167772161)"
    unfolding sample_vip by code_simp
  then show ?thesis
    by (auto simp: holds_vip_def backup_run_steps Cons_eq_append_conv)
qed

end
