(* ===== verification/Unit_Tests.thy ===== *)
theory Unit_Tests
  imports Metrics Scaler
begin

text \<open>
  The unit tests of the repository (the \<open>mod tests\<close> blocks of \<open>slot_network.rs\<close>, \<open>ipvs.rs\<close>,
  \<open>scaler.rs\<close> and \<open>scrape.rs\<close>), each as a predicate that says that none of its assertions fails,
  and the proofs that the model passes them.  What the tests check of the program on an input, the
  definitions of this development compute on the same input.  A panicking \<open>unwrap\<close> makes a test
  \<open>False\<close>; the clock reading of a test is an argument.
\<close>

section \<open>Texts\<close>

definition text_of :: "string list \<Rightarrow> string" where
  "text_of ls = concat (map (\<lambda>l. l @ [newline]) ls)"

lemma lines_text_of:
  assumes "\<forall>l \<in> set ls. newline \<notin> set l \<and> (l = [] \<or> last l \<noteq> CHR 0x0D)"
  shows "lines (text_of ls) = ls"
proof -
  have cr: "strip_cr l = l" if "l = [] \<or> last l \<noteq> CHR 0x0D" for l
    using that by (cases l rule: rev_cases) (auto simp: strip_cr_def strip_suffix_def split: option.splits)
  have "splits (\<lambda>c. c = newline) (text_of ls) = ls @ [[]]"
    using assms
  proof (induction ls)
    case (Cons l ls)
    have "x \<noteq> newline" if "x \<in> set l" for x using Cons.prems that by auto
    then show ?case using Cons by (simp add: text_of_def splits_append)
  qed (simp add: text_of_def)
  moreover have "map strip_cr ls = ls" using assms cr by (intro map_idI) blast
  ultimately show ?thesis by (simp add: lines_def Let_def)
qed

section \<open>Slot addressing\<close>

definition ipv4_new :: "nat \<Rightarrow> nat \<Rightarrow> nat \<Rightarrow> nat \<Rightarrow> ipv4" where
  "ipv4_new a b c d = of_nat (((a * 256 + b) * 256 + c) * 256 + d)"

definition test_net :: slot_network where
  "test_net = slot_network_new (the (parse_ip ''172.16.32.0'')) 20 26"

definition test_slot_to_ip :: bool where
  "test_slot_to_ip \<longleftrightarrow>
     Some (ip_for_slot test_net 0) = parse_ip ''172.16.32.20'' \<and>
     Some (ip_for_slot test_net 11) = parse_ip ''172.16.32.31'' \<and>
     Some (ip_for_slot test_net 12) = parse_ip ''172.16.32.32'' \<and>
     Some (ip_for_slot test_net 19) = parse_ip ''172.16.32.39''"

definition test_ip_to_slot :: bool where
  "test_ip_to_slot \<longleftrightarrow>
     map_option (slot_for_ip test_net) (parse_ip ''172.16.32.20'') = Some (Some 0) \<and>
     map_option (slot_for_ip test_net) (parse_ip ''172.16.32.31'') = Some (Some 11) \<and>
     map_option (slot_for_ip test_net) (parse_ip ''172.16.32.32'') = Some (Some 12) \<and>
     map_option (slot_for_ip test_net) (parse_ip ''172.16.32.19'') = Some None \<and>
     map_option (slot_for_ip test_net) (parse_ip ''172.16.29.100'') = Some None"

definition test_roundtrip :: bool where
  "test_roundtrip \<longleftrightarrow>
     list_all (\<lambda>slot. slot_for_ip test_net (ip_for_slot test_net slot) = Some slot) (map word_of_nat [0..<20])"

lemma test_addresses:
  "parse_ip ''172.16.32.0'' = Some (ipv4_new 172 16 32 0)"
  "parse_ip ''172.16.32.20'' = Some (ipv4_new 172 16 32 20)"
  "parse_ip ''172.16.32.31'' = Some (ipv4_new 172 16 32 31)"
  "parse_ip ''172.16.32.32'' = Some (ipv4_new 172 16 32 32)"
  "parse_ip ''172.16.32.39'' = Some (ipv4_new 172 16 32 39)"
  "parse_ip ''172.16.32.19'' = Some (ipv4_new 172 16 32 19)"
  "parse_ip ''172.16.29.100'' = Some (ipv4_new 172 16 29 100)"
  by (simp_all add: parse_ip_def parse_octet_def all_digits_def digit_val_def ipv4_new_def)

lemma passes_slot_to_ip: test_slot_to_ip
  by (simp add: test_slot_to_ip_def test_net_def slot_network_new_def test_addresses ip_for_slot_def
      ipv4_new_def)

lemma passes_ip_to_slot: test_ip_to_slot
  by (simp add: test_ip_to_slot_def test_net_def slot_network_new_def test_addresses slot_for_ip_def
      checked_sub_def ipv4_new_def)

lemma passes_roundtrip: test_roundtrip
proof -
  have "slot_in_range test_net slot" if "unat slot < 20" for slot
    using that by (simp add: slot_in_range_def test_net_def slot_network_new_def test_addresses ipv4_new_def)
  then show ?thesis
    by (auto simp: test_roundtrip_def list_all_iff unat_of_nat take_bit_eq_mod intro!: slot_for_ip_for_slot)
qed

section \<open>The IPVS table\<close>

definition ipvs_lines :: "string list" where
  "ipvs_lines =
    [''IP Virtual Server version 1.2.1 (size=4096)'',
     ''Prot LocalAddress:Port Scheduler Flags'',
     ''  -> RemoteAddress:Port Forward Weight ActiveConn InActConn'',
     ''TCP  AC101D64:0015 wlc  persistent 30000 FFFFFFFF'',
     ''  -> AC102027:0015      Masq    0      0          0'',
     ''  -> AC102015:0015      Masq    1      3          1'',
     ''  -> AC102014:0015      Masq    1      5          2'']"

definition test_parse_hex_ips :: bool where
  "test_parse_hex_ips \<longleftrightarrow>
     parse_hex_ip ''AC102014'' = Some (ipv4_new 172 16 32 20) \<and>
     parse_hex_ip ''AC102015'' = Some (ipv4_new 172 16 32 21) \<and>
     parse_hex_ip ''AC102027'' = Some (ipv4_new 172 16 32 39) \<and>
     parse_hex_ip ''AC101D64'' = Some (ipv4_new 172 16 29 100) \<and>
     parse_hex_ip ''ZZZZZZZZ'' = None"

definition test_parse_real_servers :: bool where
  "test_parse_real_servers \<longleftrightarrow>
     (let backends = parse_ipvs (text_of ipvs_lines) in
      length backends = 3 \<and>
      iv_ip (backends ! 0) = ipv4_new 172 16 32 20 \<and>
      iv_active (backends ! 0) = 5 \<and> iv_inactive (backends ! 0) = 2 \<and>
      iv_ip (backends ! 1) = ipv4_new 172 16 32 21 \<and>
      iv_active (backends ! 1) = 3 \<and> iv_inactive (backends ! 1) = 1 \<and>
      iv_ip (backends ! 2) = ipv4_new 172 16 32 39 \<and>
      iv_active (backends ! 2) = 0)"

definition test_parse_empty :: bool where
  "test_parse_empty \<longleftrightarrow> parse_ipvs [] = []"

definition test_skips_virtual_service_lines :: bool where
  "test_skips_virtual_service_lines \<longleftrightarrow>
     (let backends = parse_ipvs (text_of ipvs_lines); vip = ipv4_new 172 16 29 100
      in \<not> list_ex (\<lambda>b. iv_ip b = vip) backends)"

lemma passes_parse_hex_ips: test_parse_hex_ips
  by (simp add: test_parse_hex_ips_def parse_hex_ip_def parse_radix_def digit_val_def ipv4_new_def)

lemma ipvs_sample:
  "parse_ipvs (text_of ipvs_lines) =
     [\<lparr>iv_ip = ipv4_new 172 16 32 20, iv_active = 5, iv_inactive = 2\<rparr>,
      \<lparr>iv_ip = ipv4_new 172 16 32 21, iv_active = 3, iv_inactive = 1\<rparr>,
      \<lparr>iv_ip = ipv4_new 172 16 32 39, iv_active = 0, iv_inactive = 0\<rparr>]"
proof -
  have "lines (text_of ipvs_lines) = ipvs_lines"
    by (rule lines_text_of) (simp add: ipvs_lines_def newline_def)
  moreover have "List.map_filter parse_ipvs_line ipvs_lines =
     [\<lparr>iv_ip = ipv4_new 172 16 32 39, iv_active = 0, iv_inactive = 0\<rparr>,
      \<lparr>iv_ip = ipv4_new 172 16 32 21, iv_active = 3, iv_inactive = 1\<rparr>,
      \<lparr>iv_ip = ipv4_new 172 16 32 20, iv_active = 5, iv_inactive = 2\<rparr>]"
    by (simp add: ipvs_lines_def map_filter_simps parse_ipvs_line_def trim_def trim_start_def trim_end_def
        is_ws_def starts_with_def split_whitespace_def parse_hex_ip_def parse_u32_def parse_radix_def
        digit_val_def or_else_def ipv4_new_def Let_def)
  ultimately show ?thesis by (simp add: parse_ipvs_def ipv4_new_def)
qed

lemma passes_parse_real_servers: test_parse_real_servers
  by (simp add: test_parse_real_servers_def ipvs_sample)

lemma passes_parse_empty: test_parse_empty
  by (simp add: test_parse_empty_def parse_ipvs_def lines_def map_filter_simps)

lemma passes_skips_virtual_service_lines: test_skips_virtual_service_lines
  by (simp add: test_skips_virtual_service_lines_def ipvs_sample ipv4_new_def)


section \<open>The counters of /proc/net/dev\<close>

definition proc_net_dev :: "string list" where
  "proc_net_dev =
    [''Inter-|   Receive                                                |  Transmit'',
     '' face |bytes    packets errs drop fifo frame compressed multicast|bytes    packets errs drop fifo colls carrier compressed'',
     ''    lo: 5889822   51972    0    0    0     0          0         0  5889822   51972    0    0    0     0       0          0'',
     ''  eth0: 490569799018 344109988    0  186    0     0          0         0 3104194205 44613177    0    0    0     0       0          0'',
     ''  eth1: 2390126013 44064985    0    0    0     0          0         0 495291134072 343572253    0    0    0     0       0          0'',
     ''  eth2:  129662    4090    0    0    0     0          0         0 4874086362 6131997    0    0    0     0       0          0'',
     ''vxlan0:    2024      35    0    0    0     0          0         0 4483060340 5993428    0    0    0     0       0          0'']"

definition test_parses_eth0_rx_bytes :: bool where
  "test_parses_eth0_rx_bytes \<longleftrightarrow> parse_iface_rx_bytes (text_of proc_net_dev) ''eth0'' = Some 490569799018"

definition test_parses_eth1_rx_bytes :: bool where
  "test_parses_eth1_rx_bytes \<longleftrightarrow> parse_iface_rx_bytes (text_of proc_net_dev) ''eth1'' = Some 2390126013"

definition test_parses_lo_rx_bytes :: bool where
  "test_parses_lo_rx_bytes \<longleftrightarrow> parse_iface_rx_bytes (text_of proc_net_dev) ''lo'' = Some 5889822"

definition test_parses_vxlan0_rx_bytes :: bool where
  "test_parses_vxlan0_rx_bytes \<longleftrightarrow> parse_iface_rx_bytes (text_of proc_net_dev) ''vxlan0'' = Some 2024"

definition test_returns_none_for_missing_iface :: bool where
  "test_returns_none_for_missing_iface \<longleftrightarrow> parse_iface_rx_bytes (text_of proc_net_dev) ''eth9'' = None"

lemma proc_net_dev_lines: "lines (text_of proc_net_dev) = proc_net_dev"
  by (rule lines_text_of) (simp add: proc_net_dev_def newline_def)

lemma proc_net_dev_parse:
  "parse_iface_rx_bytes (text_of proc_net_dev) iface = parse_iface_rx_bytes_in iface proc_net_dev"
  by (simp add: parse_iface_rx_bytes_def proc_net_dev_lines)

lemma passes_rx_bytes:
  test_parses_eth0_rx_bytes test_parses_eth1_rx_bytes test_parses_lo_rx_bytes
  test_parses_vxlan0_rx_bytes test_returns_none_for_missing_iface
  unfolding test_parses_eth0_rx_bytes_def test_parses_eth1_rx_bytes_def test_parses_lo_rx_bytes_def
    test_parses_vxlan0_rx_bytes_def test_returns_none_for_missing_iface_def
    proc_net_dev_parse
  by (simp_all add: proc_net_dev_def trim_start_def is_ws_def split_whitespace_def parse_u64_def parse_radix_def digit_val_def)

section \<open>The slope\<close>

text \<open>\<open>t0.checked_sub(Duration::from_secs(s)).unwrap()\<close>\<close>

definition secs_before :: "nat \<Rightarrow> nat \<Rightarrow> nat option" where
  "secs_before t0 s = (if s * 10 ^ 9 \<le> t0 then Some (t0 - s * 10 ^ 9) else None)"

fun push_all :: "nat \<Rightarrow> (nat \<Rightarrow> u32) \<Rightarrow> nat list \<Rightarrow> (nat \<times> u32) list option" where
  "push_all t0 f [] = Some []"
| "push_all t0 f (k # ks) =
     (case (secs_before t0 (k * 3), push_all t0 f ks) of
        (Some t, Some buf) \<Rightarrow> Some ((t, f k) # buf)
      | _ \<Rightarrow> None)"

definition test_slope_none_with_empty_buffer :: "nat \<Rightarrow> bool" where
  "test_slope_none_with_empty_buffer t0 \<longleftrightarrow> compute_smoothed_slope [] 500 t0 = None"

definition test_slope_single_sample_positive_ramp :: "nat \<Rightarrow> bool" where
  "test_slope_single_sample_positive_ramp t0 =
     (case secs_before t0 3 of
        None \<Rightarrow> False
      | Some past \<Rightarrow> (case compute_smoothed_slope [(past, 400)] 415 t0 of
          None \<Rightarrow> False
        | Some slope \<Rightarrow> \<bar>slope - 300\<bar> < 5))"

definition test_slope_six_lags_averaged :: "nat \<Rightarrow> bool" where
  "test_slope_six_lags_averaged t0 =
     (case push_all t0 (\<lambda>k. word_of_nat (600 - k * 10)) (rev [1..<7]) of
        None \<Rightarrow> False
      | Some buf \<Rightarrow> (case compute_smoothed_slope buf 600 t0 of
          None \<Rightarrow> False
        | Some slope \<Rightarrow> \<bar>slope - 200\<bar> < 2))"

definition test_slope_flat_load_is_zero :: "nat \<Rightarrow> bool" where
  "test_slope_flat_load_is_zero t0 =
     (case push_all t0 (\<lambda>k. 500) [1..<7] of
        None \<Rightarrow> False
      | Some buf \<Rightarrow> (case compute_smoothed_slope buf 500 t0 of
          None \<Rightarrow> False
        | Some slope \<Rightarrow> \<bar>slope\<bar> < 1 / 100))"

lemmas slope_test_defs = compute_smoothed_slope_def lag_slope_def as_secs_def secs_before_def
  map_filter_simps Let_def

lemma not_less_diff: "\<not> t < t - (d :: nat)"
  by simp

lemma six_lags: "[1..<7] = [1, 2, 3, 4, 5, 6 :: nat]" "[Suc 0..<7] = [1, 2, 3, 4, 5, 6 :: nat]" "[Suc 0..<Suc (Suc 0)] = [1 :: nat]"
  by (simp_all add: upt_rec)

text \<open>The tests pass once the clock is eighteen seconds past its origin.\<close>

lemma passes_slope_none: "test_slope_none_with_empty_buffer t0"
  by (simp add: test_slope_none_with_empty_buffer_def compute_smoothed_slope_def)

lemma passes_slope_single: "3 * 10 ^ 9 \<le> t0 \<Longrightarrow> test_slope_single_sample_positive_ramp t0"
  by (simp add: test_slope_single_sample_positive_ramp_def slope_test_defs six_lags not_less_diff)

lemma passes_slope_six: "18 * 10 ^ 9 \<le> t0 \<Longrightarrow> test_slope_six_lags_averaged t0"
  by (simp add: test_slope_six_lags_averaged_def slope_test_defs six_lags not_less_diff)

lemma passes_slope_flat: "18 * 10 ^ 9 \<le> t0 \<Longrightarrow> test_slope_flat_load_is_zero t0"
  by (simp add: test_slope_flat_load_is_zero_def slope_test_defs six_lags not_less_diff)

section \<open>The scrape\<close>

definition sample_metrics :: "string list" where
  "sample_metrics =
    [''# HELP ftp_sessions_total Total number of active FTP sessions.'',
     ''# TYPE ftp_sessions_total gauge'',
     ''ftp_sessions_total 5.0'',
     ''# HELP ftp_sessions_count Total FTP sessions served.'',
     ''# TYPE ftp_sessions_count counter'',
     ''ftp_sessions_count 42.0'',
     ''# HELP ftp_command_total Total number of commands received.'',
     ''# TYPE ftp_command_total counter'',
     ''ftp_command_total{command='' @ [CHR 0x22] @ ''quit'' @ [CHR 0x22] @ ''} 3.0'',
     ''ftp_command_total{command='' @ [CHR 0x22] @ ''list'' @ [CHR 0x22] @ ''} 18.0'']"

definition test_parses_gauge_and_counters :: "prom_parser \<Rightarrow> bool" where
  "test_parses_gauge_and_counters prom =
     (case parse_text prom (text_of sample_metrics) of
        Inl e \<Rightarrow> False
      | Inr (samples, docs) \<Rightarrow>
          length samples = 4 \<and>
          (case List.find (\<lambda>s. rs_metric s = ''ftp_sessions_total'') samples of
             None \<Rightarrow> False
           | Some active \<Rightarrow> rs_kind active = Gauge \<and> rs_value active = 5) \<and>
          (let commands = filter (\<lambda>s. rs_metric s = ''ftp_command_total'') samples in
           length commands = 2 \<and> rs_kind (commands ! 0) = Counter) \<and>
          docs ''ftp_sessions_total'' \<noteq> None)"

text \<open>It passes with a parser that reads these lines as the text format means them.\<close>

lemma passes_parses_gauge_and_counters:
  assumes "prom sample_metrics =
    Inr ([(''ftp_sessions_total'', PGauge 5, []), (''ftp_sessions_count'', PCounter 42, []),
          (''ftp_command_total'', PCounter 3, [(''command'', ''quit'')]),
          (''ftp_command_total'', PCounter 18, [(''command'', ''list'')])], docs)"
    and "docs ''ftp_sessions_total'' = Some d"
  shows "test_parses_gauge_and_counters prom"
proof -
  have "lines (text_of sample_metrics) = sample_metrics"
    by (rule lines_text_of) (simp add: sample_metrics_def newline_def)
  then show ?thesis using assms
    by (simp add: test_parses_gauge_and_counters_def parse_text_def map_filter_simps)
qed

end
