(* ===== verification/Spec2Isabelle.thy ===== *)
theory Spec2Isabelle
  imports Cleanup_Pool Slot_Runs Samples Asg_Roundtrip Daemon Findings Sample_Tools Sample_Slots Tables Metrics_Server Aeroftp_Trace Aeroftp_Main Aeroftp_Tasks Sample_Node Unit_Tests
begin

text \<open>
  A verification library for aerosuite: the programs that run an FTP service on an AWS Auto
  Scaling group behind an LVS load balancer.

  THE PROGRAM.  Backends are instances of one Auto Scaling group.  Each claims a numbered slot in
  Redis (aeroslot), which fixes its address, and renews the lease of the slot while it lives.  The
  load balancers (two nodes, a VRRP master and a backup) run aeroscale: every cycle it takes a
  snapshot (leases, weight files, IPVS table, ASG description), cleans up (releases slots of dead
  owners, switches weights, terminates drained instances), decides about scaling up and draining,
  and mirrors the weight files through Redis to the backup.  A notice on a Redis channel tells
  aeroscale of claims and releases at once.  aeroplug attaches network interfaces and assigns
  addresses (on a failover it takes them from the other node); aeropulse writes the keepalived
  configuration of a balancer at boot; aeroftp is the FTP server of a backend, which stores
  uploads in S3.  aerocore holds the AWS client and the slot addressing that all of them use.

  HOW IT IS MODELLED.  A function that talks to Redis, AWS, files or clocks is an interaction
  program (Effects): a tree of commands and continuations.  A theorem about it either quantifies
  over all replies (emits, returns, runs), or runs it against a service function (exec) which is
  only assumed to carry out Redis commands (the locales redis_service and redis_scripting in
  Redis_Pool and Slot_Lua; mem_srv and mem_script_srv are executable instances).  Errors are
  values of a sum type; the question mark operator is attempt, context is ctx, exit(1) is the
  error Exit1 and a panic the error Panicked: the release profile of the workspace sets
  panic = abort, so a panic ends the process at once and runs no destructor.  u8 to u64 are
  words and wrap as a release build does; an i64 is an int; an f64 is
  a real, without rounding, except that Redis scores are natural numbers (milliseconds; the doubles of
  Redis and Lua represent them exactly up to 2^53, which tools_agree assumes of the sums that it
  compares); a String is a char list,
  with the UTF-8 decoration of messages written in ASCII
  (the files that aeropulse writes are given by their UTF-8 bytes).  JSON that is sent is a JSON value.

  THE THEORIES AND WHAT THEY MODEL
    Prelude             strings, number parsing and printing as in the Rust standard library
    Effects             interaction programs, their runs, loops over lists, errors
    Xml, Aws            aerocore/src/aws/mod.rs: XML scanning; credentials, SigV4, queries
    Asg, Asg_Roundtrip  aerocore/src/asg/mod.rs and aeroscale/src/snapshot/asg.rs; the parser
                        is inverse to a renderer of the answer
    Slot_Network        aerocore/src/slot_network.rs (locale slot_addressing)
    Redis_Pool          aerocore/src/redis_pool/mod.rs, and the contract of a Redis service
    Slot_Spec           the abstract pool of slots, its laws, and the locale slot_pool: a tool
                        whose commands refine the abstract steps
    Slot_Cli            what the two slot tools share (aeroslot/src/main.rs, lua.rs)
    Slot_Lua            aeroslot/src/lua.rs: scripts as atomic steps; refines the pool
    Slot_Native         aeroslot/src/main.rs: one Redis command at a time; refines the pool when
                        run alone
    Slot_Heartbeat      the heartbeat of aeroslot/src/main.rs with its retries
    Slot_Runs           concrete interleavings of two native tools
    Concurrency         interleaved runs of several programs against one service
    Slot_Main           the main functions of both slot tools
    Slot_Concurrent     any number of aeroslot-lua processes at once: serialization, and
                        concurrent claims get different slots
    Guarded             what a program may do after what it has seen: weakest preconditions over
                        histories, alone and interleaved
    Slot_Native_Concurrent
                        any number of native aeroslot processes at once, while no lease ends
    Snapshot            aeroscale/src/snapshot/*.rs and vrrp.rs
    Cleanup, Cleanup_Timers, Cleanup_Pool
                        aeroscale/src/cleanup/mod.rs: every command of a pass is justified; the
                        orphan timers; the release of a slot seen from the pool
    Scaler, Scaler_Safety
                        aeroscale/src/scaler.rs: slope, bandwidth, hysteresis, scale-up, drain
    Scaler_Pace         many passes of the scaler: the cooldown between two actions of a kind
    Weight_Sync         aeroscale/src/weight_sync.rs
    Listener            aeroscale/src/listener.rs
    Metrics, Metrics_Server
                        aeroscale/src/metrics/*.rs
    Tables              what the tools print: the snapshot, the slot pool, the groups
    Daemon              aeroscale/src/bin/*.rs: arguments, start, cycle, loop
    Daemon_Role         the loop and the listener of one node side by side, and the node's role
    Cycle_Evidence      snapshot and cleanup joined: the answers on which a cycle releases a slot
    Files               paths and the writing of files, as several programs do it
    Aeroplug, Aeroplug_Safety
                        aeroplug/src/attach.rs, assign_ip.rs, main.rs: the actions; what a
                        takeover asks EC2 for and when; the polling loop ends
    Aeropulse           aeropulse/src/main.rs: arguments, interfaces, resolution
    Aeropulse_Render    the texts it writes, line by line
    Aeropulse_Main      its run, and what the texts say to a reader of their lines
    Aeroftp_Session     aeroftp/src/ftp/auth.rs, provider.rs, user.rs, storage.rs
    Aeroftp_Trace       aeroftp/src/ftp/tracer.rs: the spans of data events
    Aeroftp_Server, Aeroftp_Main
                        aeroftp/src/ftp/server.rs, main.rs, signal/watcher.rs: the start, the
                        restart loop, tracing set-up and flush
    Aeroftp_Tasks       the tasks of one round and their shutdown, as a step relation
    Aeroftp_Http        aeroftp/src/http/server.rs: accept loop, routing and handlers
    Unit_Tests          the unit tests in the sources as predicates, and that the model passes them
    Samples, Sample_Runs, Sample_Tools, Sample_Slots, Sample_Cycle, Sample_Node, Findings
                        concrete data and runs; departures of the code from its comments

  LOOPS AND FUEL.  Loops over lists are structural.  The retry loop of the heartbeat has its own
  termination proof (the attempts left).  The endless loops (daemon, heartbeat ticks, listener)
  take a number of iterations; their theorems hold for every number, so the bound restricts
  nothing.  The polling of a takeover, the copying of an upload, aeroftp's accept loop and its restart
  loop take fuel
  and return None when it runs out; polling_ends and upload_faithful say how much is enough
  (half the timeout plus two turns, one turn more than the input has chunks), and
  restarts_on_hup that the restart loop uses one unit for each SIGHUP; the accept loop uses one
  for each event (accept_loop_ends).

  NOT MODELLED.  Log output and progress messages; argument parsing; the
  optional tokio_console feature of aeroftp; the libraries themselves (Redis
  client, reqwest, hashes, JSON, Prometheus parser and registry, web framework, FTP protocol and
  object store, float formatting, dates, socket addresses), which are commands or parameters; the
  build, image and init scripts.
\<close>

section \<open>The slot pool\<close>

text \<open>
  C1: Every sequence of successful or refused init, claim, renew and release commands of the
  native tool (aeroslot), run one at a time against any service that carries out Redis commands,
  is a sequence of steps of the abstract pool with the same results.
\<close>

theorem native_implements_contract:
  assumes "redis_service srv view" "op_run (cli_does native_cli srv) w t w'"
  shows "op_run (spec_op native_expiry) (pool_of (view w)) t (pool_of (view w'))"
  using slot_pool.simulates [OF redis_service.native_pool [OF assms(1)] assms(2-)] .

theorem native_implements_contract_witness:
  "op_run (spec_op native_expiry) (pool_of (mem_view late)) [(Claim 200 1000 ''i-b'', Slot (Some ''7''))]
     (pool_of (mem_view (snd (exec mem_srv (cmd_claim ''i-b'' 1000) late))))"
  by (rule native_implements_contract [OF mem.redis_service_axioms])
    (simp add: late_claims del: cli_does.simps)

text \<open>
  C2: Every sequence of successful or refused commands of the Lua tool (aeroslot-lua), against any
  service that runs the scripts as one step each, is a sequence of steps of the abstract pool with
  the same results.
\<close>

theorem lua_implements_contract:
  assumes "redis_scripting srv view" "op_run (cli_does lua_cli srv) w t w'"
  shows "op_run (spec_op lua_expiry) (pool_of (view w)) t (pool_of (view w'))"
  using slot_pool.simulates [OF redis_scripting.lua_pool [OF assms(1)] assms(2-)] .

theorem lua_implements_contract_witness:
  "op_run (spec_op lua_expiry) (pool_of (mem_view two_slots))
     [(Claim 200 1000 ''i-a'', Slot (Some ''8'')), (Claim 200 1000 ''i-b'', Slot (Some ''7''))]
     (pool_of (mem_view (snd (exec mem_script_srv (lua_cmd_claim ''i-b'' 1000) after_first))))"
  by (rule lua_implements_contract [OF mem_scripts.redis_scripting_axioms])
    (use first_claim second_claim in \<open>auto simp del: cli_does.simps\<close>)

text \<open>
  C3: Leases of the Lua tool are exclusive: after a claim has given a slot to an instance, no
  claim before the end of that lease, as the owner has renewed it, is given the same slot,
  whatever operations come in between, unless the owner releases the slot or some claim came when
  the lease had run out.
\<close>

theorem lua_leases_exclusive:
  assumes "redis_scripting srv view" "pool_ok (pool_of (view w))"
    and "cli_does lua_cli srv (Claim now ttl i) w (Slot (Some s)) w1"
    and "op_run (cli_does lua_cli srv) w1 t w2"
    and "lease_end lua_expiry s i (lua_expiry now ttl) (map fst t) = Some e"
    and "cli_does lua_cli srv (Claim now' ttl' j) w2 (Slot (Some s')) w3"
    and "unat now' < e"
  shows "s' \<noteq> s"
  using slot_pool.exclusive [OF redis_scripting.lua_pool [OF assms(1)] assms(2-)] .

theorem lua_leases_exclusive_witness:
  "cli_does lua_cli mem_script_srv (Claim 200 1000 ''i-a'') two_slots (Slot (Some ''8'')) after_first \<and>
   cli_does lua_cli mem_script_srv (Renew 200 5000 ''i-a'' 8) after_first (Accepted True) after_renewal \<and>
   ''7'' \<noteq> ''8''"
  using lua_leases_exclusive [OF mem_scripts.redis_scripting_axioms two_slots_ok first_claim
      renewal_runs(2) _ claim_after_renewal, of 5200] first_claim first_renewal
  by (simp add: lua_expiry_def show_sample_slots del: cli_does.simps)

text \<open>
  C4: A lease of the native tool that its owner renews in time stays his through any sequence of
  commands run one at a time: it runs to the end that the last of his renewals gave it, whatever
  the other instances do.
\<close>

theorem native_leases_kept:
  assumes "redis_service srv view" "op_run (cli_does native_cli srv) w t w'"
    and "pool_ok (pool_of (view w))"
    and "lease_at (pool_of (view w)) s = Some e" "owner_at (pool_of (view w)) s = Some i"
    and "lease_end native_expiry s i e (map fst t) = Some e'"
  shows "lease_at (pool_of (view w')) s = Some e' \<and> owner_at (pool_of (view w')) s = Some i"
  using slot_pool.lease_followed [OF redis_service.native_pool [OF assms(1)] assms(2-)] .

theorem native_leases_kept_witness:
  "lease_at (pool_of (mem_view early_held)) ''8'' = Some 1050 \<and>
   lease_at (pool_of (mem_view (snd (exec mem_srv (cmd_renew 8 ''i-b'' 2000) early_held)))) ''8'' = Some 2050"
  using native_leases_kept [OF mem.redis_service_axioms renewal_runs(1) early_held_ok
      early_held_lease, of 2050] early_held_lease(1)
  by (simp add: native_expiry_def show_sample_slots del: cli_does.simps)

text \<open>
  C5: The native tool, run one command at a time, keeps the pool well formed (no slot both free
  and leased, owners exactly for the leased slots) and conserves the slots: none is lost, and only
  init adds any.
\<close>

theorem pool_invariant:
  assumes "redis_service srv view" "op_run (cli_does native_cli srv) w t w'"
    and "pool_ok (pool_of (view w))"
  shows "pool_ok (pool_of (view w')) \<and>
    slots_of (pool_of (view w')) = slots_of (pool_of (view w)) \<union> (\<Union>a\<in>fst ` set t. new_slots a)"
  using slot_pool.keeps_ok [OF redis_service.native_pool [OF assms(1)] assms(2-)]
    slot_pool.slots_conserved [OF redis_service.native_pool [OF assms(1)] assms(2-)] by simp

theorem pool_invariant_witness:
  "pool_ok (pool_of (mem_view (snd (exec mem_srv (cmd_claim ''i-b'' 1000) late))))"
  using pool_invariant [OF mem.redis_service_axioms, of late "[(Claim 200 1000 ''i-b'', Slot (Some ''7''))]"]
    late_claims late_ok by (auto simp del: cli_does.simps)

text \<open>
  C6: Run alone on the same pool, the native tool and the Lua tool do the same: same resulting
  pool, and for claim, renew and release the same result (init reports its count in a message
  only, which is not compared), as long as the expiry is at most 2^53 milliseconds, up to which
  the doubles of Redis and Lua are exact.
\<close>

theorem tools_agree:
  assumes "redis_service srv view" "redis_scripting srv' view'"
    and "cli_does native_cli srv a w r w1" "cli_does lua_cli srv' a v r' v1"
    and "pool_of (view w) = pool_of (view' v)"
    and "\<forall>now ttl i. a = Claim now ttl i \<longrightarrow> unat now + unat ttl \<le> 2 ^ 53"
    and "\<forall>now ttl i s. a = Renew now ttl i s \<longrightarrow> unat now + unat ttl \<le> 2 ^ 53"
  shows "pool_of (view w1) = pool_of (view' v1) \<and> ((\<forall>lo hi. a \<noteq> Init lo hi) \<longrightarrow> r = r')"
proof -
  have n: "spec_op native_expiry a (pool_of (view w)) r (pool_of (view w1))"
    by (rule slot_pool.refines [OF redis_service.native_pool [OF assms(1)] assms(3)])
  have l: "spec_op lua_expiry a (pool_of (view w)) r' (pool_of (view' v1))"
    using slot_pool.refines [OF redis_scripting.lua_pool [OF assms(2)] assms(4)] assms(5) by simp
  show ?thesis
    by (rule spec_op_unique [OF n l]) (use assms(6,7) in \<open>auto simp: expiry_same\<close>)
qed

theorem tools_agree_witness:
  "pool_of (mem_view (snd (exec mem_srv (cmd_claim ''i-b'' 1000) late))) =
   pool_of (mem_view (snd (exec mem_script_srv (lua_cmd_claim ''i-b'' 1000) late)))"
  using tools_agree [OF mem.redis_service_axioms mem_scripts.redis_scripting_axioms late_claims
      late_claims_lua]
  by simp

text \<open>
  C7: A claim never takes a slot whose lease has not run out, and takes the slot that has been
  free the longest, so that released slots cool off.
\<close>

theorem claim_picks_longest_free:
  assumes "redis_service srv view" "cli_does native_cli srv (Claim now ttl i) w (Slot (Some s)) w'"
    and "pool_ok (pool_of (view w))"
  shows "(\<forall>e. lease_at (pool_of (view w)) s = Some e \<longrightarrow> e \<le> unat now) \<and>
    (\<forall>t f. free_at (pool_of (view w)) t = Some f \<longrightarrow>
       (\<exists>f'. free_at (swept (unat now) (pool_of (view w))) s = Some f' \<and> (f' < f \<or> f' = f \<and> s \<le> t)))"
proof -
  have c: "spec_op native_expiry (Claim now ttl i) (pool_of (view w)) (Slot (Some s)) (pool_of (view w'))"
    by (rule slot_pool.refines [OF redis_service.native_pool [OF assms(1)] assms(2)])
  have "t \<notin> expired_slots (unat now) (pool_of (view w))" if "free_at (pool_of (view w)) t = Some f" for t f
    using pool_ok_free [OF assms(3) that] by (simp add: expired_slots_def)
  then show ?thesis
    using claim_not_live [OF c assms(3)] claim_longest_free [OF c] by blast
qed

theorem claim_picks_longest_free_witness:
  "\<exists>e. lease_at (pool_of (mem_view late)) ''7'' = Some e \<and> e \<le> 200"
  using claim_picks_longest_free [OF mem.redis_service_axioms late_claims late_ok] lua_renews_expired
  by simp

text \<open>
  C8: Any number of aeroslot-lua processes whose commands interleave in any way act on the pool
  like a sequence of abstract operations: the scripts in the order in which Redis runs them, with
  the results that are answered (a script whose invocation fails may be among them or not).
\<close>

theorem lua_processes_serialize:
  assumes "redis_scripting srv view"
    and "interleave srv sch (map (lua_main open_client a) cs, w) = (qs, w')"
  shows "\<exists>t. op_run (spec_op lua_expiry) (pool_of (view w)) (map snd t) (pool_of (view w')) \<and>
    accounts (steps srv sch (map (lua_main open_client a) cs, w)) t"
  using redis_scripting.lua_serializes [OF assms] .

theorem lua_processes_serialize_witness:
  "\<exists>t. op_run (spec_op lua_expiry) (pool_of (mem_view two_slots)) (map snd t)
     (pool_of (mem_view (snd (interleave mem_script_srv [0, 1, 0, 1, 1, 0, 0, 1]
       (lua_processes two_claimants, two_slots))))) \<and> accounts both_claim t"
  unfolding both_claim_def
  by (rule lua_processes_serialize [OF mem_scripts.redis_scripting_axioms prod.collapse [symmetric]])

text \<open>
  C9: Concurrent claims are given different slots: of any number of aeroslot-lua processes that
  claim, initialise or show the pool, interleaved in any way, no two print the same slot, as long
  as no lease runs out while they run.
\<close>

theorem concurrent_claims_distinct:
  assumes "redis_scripting srv view" "pool_ok (pool_of (view w))" "\<forall>c \<in> set cs. keeps_leases c"
    and "l = steps srv sch (map (lua_main open_client a) cs, w)"
    and "\<forall>i ttl. LuaClaim i ttl \<in> set cs \<longrightarrow> (\<forall>m \<in> clocks l. \<forall>m' \<in> clocks l. m' < m + unat ttl)"
    and "(j, Print s, r) \<in> set l" "(k, Print s, r') \<in> set l"
  shows "j = k"
  using redis_scripting.claims_distinct [OF assms(1-3)] assms(4-) by blast

theorem concurrent_claims_distinct_witness:
  "{j. \<exists>r. (j, Print ''8'', r) \<in> set both_claim} = {1}"
proof -
  have c: "clocks both_claim \<subseteq> {200}" by (auto simp: clocks_def both_claim_steps as_millis_def)
  have p: "(1, Print ''8'', Failed TypeMismatch) \<in> set both_claim" by (simp add: both_claim_steps)
  have "j = 1" if "(j, Print ''8'', r) \<in> set both_claim" for j r
    by (rule concurrent_claims_distinct [OF mem_scripts.redis_scripting_axioms two_slots_ok _
        both_claim_def _ that p])
      (use c in \<open>force simp: two_claimants_def\<close>)+
  then show ?thesis using p by blast
qed

text \<open>
  C10: The native tool needs no scripts for this as long as no lease ends and no slot is added: of
  any number of aeroslot processes that claim, renew, keep alive or show the pool, with their
  single Redis commands interleaved in any way, no two print the same slot, and every printed slot
  was free at the start. (With an expired lease, or with an init in between, it fails:
  Slot_Runs.two_claims_run, Sample_Slots.init_doubles_slot.)
\<close>

theorem native_claims_distinct:
  assumes "redis_service srv view" "\<forall>c \<in> set cs. adds_no_slot c"
    and "l = steps srv sch (map (slot_main ticks open_client a) cs, w)"
    and "no_lease_ends (readings (map snd l)) (\<Union> (ttl_of ` set cs)) (view w)"
    and "(j, Print s, r) \<in> set l" "(k, Print s, r') \<in> set l"
  shows "j = k \<and> free_at (pool_of (view w)) s \<noteq> None"
  using redis_service.native_claims_apart [OF assms(1,2)] assms(3-) by blast

theorem native_claims_distinct_witness:
  "{j. \<exists>r. (j, Print ''8'', r) \<in> set both_pop} = {1}"
proof -
  have n: "readings (map snd both_pop) = {50}" by (auto simp: both_pop_steps as_millis_def)
  have p: "(1, Print ''8'', Failed TypeMismatch) \<in> set both_pop" by (simp add: both_pop_steps)
  have "j = 1" if "(j, Print ''8'', r) \<in> set both_pop" for j r
    by (rule native_claims_distinct [OF mem.redis_service_axioms _ both_pop_def _ that p, THEN conjunct1])
      (use two_free_lasts n in \<open>simp_all add: native_claimants_def\<close>)
  then show ?thesis using p by blast
qed

text \<open>
  C11: The retry loop of the heartbeat ends in every run: it waits at most retry_attempts times,
  and it gives up on a transient Redis error only when the attempts are used up.
\<close>

theorem retries_bounded:
  assumes "runs (renew_with_retry h 0) t x"
  shows "sleeps t \<le> unat (hb_retry_attempts h) \<and>
    (\<forall>e. x = Inl e \<longrightarrow> (\<exists>n e'. e = give_up n e' \<and> unat n = sleeps t \<and>
      (is_redis_io_error e' \<longrightarrow> n = hb_retry_attempts h)))"
  using renew_with_retry_runs [OF assms] by simp

theorem retries_bounded_witness:
  "sleeps (trace mem_srv (renew_with_retry \<lparr>hb_slot = 7, hb_instance = ''old'', hb_ttl_ms = 1000,
     hb_interval = 5, hb_retry_attempts = 3, hb_retry_delay_ms = 10\<rparr> 0) late) \<le> 3"
  using retries_bounded [OF runs_trace [of "renew_with_retry \<lparr>hb_slot = 7, hb_instance = ''old'',
      hb_ttl_ms = 1000, hb_interval = 5, hb_retry_attempts = 3, hb_retry_delay_ms = 10\<rparr> 0" mem_srv late]]
  by simp

text \<open>
  C12: The heartbeat changes nothing but the lease of its own slot, and renews it only as the
  owner: whatever the services answer, on every tick and in every retry, a renewal comes directly
  after Redis has named the instance as the owner of the slot, and runs to the clock reading taken
  in between plus the lifetime.
\<close>

theorem heartbeat_renews_as_owner:
  assumes "runs (cmd_heartbeat ticks hb) t x" "t = u @ (c, r) # v" "mutates c"
  shows "\<exists>u' clk. u = u' @ [(Redis (GET (key_owner (show_word (hb_slot hb)))), Bulk (Some (hb_instance hb))),
        (NowMs, clk)] \<and>
      c = Redis (ZADD KEY_LEASES (unat (as_millis clk + hb_ttl_ms hb)) (show_word (hb_slot hb)))"
  using runs_allowed [OF assms(1) heartbeat_as_owner assms(2)] assms(3) by (simp add: renews_as_owner_def)

theorem heartbeat_renews_as_owner_witness:
  "\<exists>clk. (NowMs, clk) \<in> set (trace mem_srv (cmd_heartbeat 1 late_heartbeat) late) \<and>
     unat (as_millis clk + 1000) = 1200"
proof -
  let ?t = "trace mem_srv (cmd_heartbeat 1 late_heartbeat) late"
  have t: "?t = take 4 ?t @ (Redis (ZADD KEY_LEASES 1200 ''7''), Count 1) # drop 5 ?t"
    unfolding late_heartbeat_trace by simp
  obtain u clk where u: "take 4 ?t = u @ [(Redis (GET (key_owner (show_word (hb_slot late_heartbeat)))),
      Bulk (Some (hb_instance late_heartbeat))), (NowMs, clk)]"
    and c: "Redis (ZADD KEY_LEASES 1200 ''7'') = Redis (ZADD KEY_LEASES
      (unat (as_millis clk + hb_ttl_ms late_heartbeat)) (show_word (hb_slot late_heartbeat)))"
    using heartbeat_renews_as_owner [OF runs_trace t] by auto
  have "unat (as_millis clk + 1000) = 1200" using c by (simp add: late_heartbeat_def)
  moreover have "(NowMs, clk) \<in> set (take 4 ?t)" unfolding u by simp
  ultimately show ?thesis by (blast dest: in_set_takeD)
qed

section \<open>The autoscaler: cleanup\<close>

text \<open>
  C13: Every command of a cleanup pass that changes something is justified by the snapshot: slots
  are released only for owners that left a plausible ASG, weights are disabled only for such
  leases, for drained backends and for backends without a lease, weights are enabled only for
  leased backends in service, instances are terminated only when drained above the minimum size or
  without a lease, and nothing happens in a dry run.
\<close>

theorem cleanup_only_justified:
  "emits (justified env grace s seen) (cleanup_run env master grace s seen)"
  by (rule cleanup_run_justified)

text \<open>
  C14: A lease's instance is terminated only when its backend is draining with no active
  connection and the group is not known to be at its minimum, and only after the backend's weight
  file was successfully set to disabled.
\<close>

theorem terminates_only_drained:
  assumes "runs (handle_lease env ids s l) t x" "(AwsQuery h sv r ps, rp) \<in> set t"
  shows "\<exists>b wr rest. backend_of_slot s (sl_slot l) = Some b \<and> bs_state b = Draining \<and>
    active_conn b = 0 \<and> \<not> group_at_min s \<and> sl_owner l \<in> set ids \<and>
    ps = terminate_params (sl_owner l) (ce_decrement env) \<and>
    t = (WriteFile (weight_path (ce_weights_dir env) (bs_ip b)) WEIGHT_DISABLED, wr) # rest \<and>
    (\<forall>f. wr \<noteq> Failed f)"
  using handle_lease_terminates [OF assms] .

theorem terminates_only_drained_witness:
  "\<exists>b. backend_of_slot (sample_snapshot [sample_backend Draining 3 0]) 3 = Some b \<and>
     bs_state b = Draining \<and> active_conn b = 0"
  using terminates_only_drained [OF sample_runs [of drained_lease], of "asg_host ''eu''"
      "''autoscaling''" "''eu''" "terminate_params ''i-a'' True" "Failed IoError"]
  by (auto simp: drained_trace, auto simp: sample_lease_def)

text \<open>
  C15: A disabled backend is enabled again only when the owner of its lease is in service and the
  lease had not run out when the clock was read.
\<close>

theorem enables_only_live:
  assumes "runs (handle_lease env ids s l) t x" "(WriteFile p WEIGHT_ACTIVE, rp) \<in> set t"
  shows "\<exists>b clk. backend_of_slot s (sl_slot l) = Some b \<and> bs_state b = Disabled \<and>
    sl_owner l \<in> set ids \<and> p = weight_path (ce_weights_dir env) (bs_ip b) \<and>
    (NowMs, clk) \<in> set t \<and> as_millis clk < sl_expires_ms l"
  using handle_lease_enables [OF assms] .

theorem enables_only_live_witness:
  "(WriteFile (weight_path ''w'' 167772183) WEIGHT_ACTIVE, Done) \<in> set (sample_trace disabled_lease) \<and>
   as_millis (Millis 900) < sl_expires_ms sample_lease"
  using enables_only_live [OF sample_runs [of disabled_lease], of "weight_path ''w'' 167772183" Done]
  by (auto simp: disabled_trace)

text \<open>
  C16: Section 2.2 terminates an instance only if it is in service without a lease and its timer,
  started in an earlier pass, has run for at least the grace period, and it does so without
  decrementing the capacity (the instances of the group having distinct ids).
\<close>

theorem orphans_wait:
  assumes "runs (section_22 env grace s seen) t seen'" "(AwsQuery h sv r ps, rp) \<in> set t"
    and "distinct (map instance_id (asg s))"
  shows "\<exists>i first clk. i \<in> set (asg s) \<and> is_in_service i \<and>
    instance_id i \<notin> sl_owner ` set (leases s) \<and> seen (instance_id i) = Some first \<and>
    (NowInstant, clk) \<in> set t \<and> unat grace \<le> elapsed_secs first (as_nanos clk) \<and>
    ps = terminate_params (instance_id i) False"
  using section_22_terminates [OF assms] .

theorem orphans_wait_witness:
  "\<exists>i \<in> set (asg orphan_snapshot). instance_id i \<notin> sl_owner ` set (leases orphan_snapshot)"
  using orphans_wait [OF sample_runs [of orphan_pass], of "asg_host ''eu''"
      "''autoscaling''" "''eu''" "terminate_params ''i-b'' False" "Failed IoError"]
  by (auto simp: orphan_trace)

text \<open>
  C17: An instance in service without a lease whose timer has run for the grace period at every
  reading of the clock is terminated in that pass, outside a dry run and when the instances of the
  group have distinct ids.
\<close>

theorem orphans_go:
  assumes "runs (section_22 env grace s seen) t seen'" "distinct (map instance_id (asg s))"
    and "i \<in> set (asg s)" "is_in_service i" "instance_id i \<notin> sl_owner ` set (leases s)"
    and "seen (instance_id i) = Some first" "\<not> ce_dry_run env"
    and "\<forall>clk. (NowInstant, clk) \<in> set t \<longrightarrow> unat grace \<le> elapsed_secs first (as_nanos clk)"
  shows "\<exists>rp. (AwsQuery (asg_host (ce_region env)) ''autoscaling'' (ce_region env)
      (terminate_params (instance_id i) False), rp) \<in> set t"
  using section_22_due [OF assms] .

theorem orphans_go_witness:
  "\<exists>rp. (AwsQuery (asg_host ''eu'') ''autoscaling'' ''eu'' (terminate_params ''i-b'' False), rp)
     \<in> set (sample_trace orphan_pass)"
  using orphans_go [OF sample_runs [of orphan_pass], of "sample_instance ''i-b''" 0]
  unfolding orphan_trace by (simp add: sample_defs is_in_service_def elapsed_secs_def as_nanos_def)

text \<open>
  C18: When the ASG answer cannot be trusted (the query failed, or it shows no instance in service
  while leases exist), a cleanup pass changes nothing in Redis: no slot is released.
\<close>

theorem asg_outage_harmless:
  assumes "\<not> asg_plausible s"
  shows "emits (\<lambda>c. \<forall>rc. c = Redis rc \<longrightarrow> \<not> mutates c) (cleanup_run env master grace s seen)"
  using implausible_no_redis [OF assms] .

theorem asg_outage_harmless_witness:
  "emits (\<lambda>c. \<forall>rc. c = Redis rc \<longrightarrow> \<not> mutates c)
     (cleanup_run sample_env True 120 (sample_snapshot [sample_backend Active 3 0]\<lparr>asg_group := None\<rparr>) (\<lambda>_. None))"
  by (rule asg_outage_harmless) (simp add: asg_plausible_def)

text \<open>
  C19: Outside a dry run, a cleanup pass of the master that can trust the ASG goes for every slot
  whose owner is known and has left: it deletes the owner, and, as far as each command works, then
  removes the lease and puts the slot back into the free list; no lease before it in the list can
  keep it from that.
\<close>

theorem departed_owners_released:
  assumes "runs (cleanup_run env True grace s seen) t x" "asg_plausible s" "\<not> ce_dry_run env"
    and "l \<in> set (leases s)" "sl_owner l \<notin> set (in_service_ids s)"
    and "sl_owner l \<noteq> OWNER_MISSING" "sl_owner l \<noteq> OWNER_UNKNOWN"
  shows "released t (show_word (sl_slot l))"
  using departed_released [OF assms] .

theorem departed_owners_released_witness:
  "released (trace (answering gone_answer)
     (cleanup_run (cleanup_env_of wet_args) True 120 gone_snapshot (\<lambda>_. None)) ()) ''7''"
  using departed_owners_released [OF runs_trace gone_snapshot_facts(1,4,2,3,5,6)] gone_snapshot_facts(7) by simp

text \<open>
  C20: From end to end: a slot that a cycle of the daemon releases was listed as leased in that
  cycle, to an owner whom Redis named in that cycle or whom the daemon remembers, and who is not
  among the instances, at least one, that AWS reported in service in that cycle; only the master
  releases, and never in a dry run.
\<close>

theorem cycle_releases_departed:
  assumes "runs (cycle_as a net m st) t st'" "(Redis (ZREM KEY_LEASES k), r) \<in> set t"
  shows "m \<and> \<not> da_dry_run a \<and> (\<exists>slot i xml. k = show_word slot \<and> listed t slot \<and>
    owner_known (d_cache st) t slot i \<and>
    (describe_cmd (da_region a) (da_asg_name a), Text xml) \<in> set t \<and>
    in_service_of xml \<noteq> {} \<and> i \<notin> in_service_of xml)"
  using cycle_release_known [OF assms] .

theorem cycle_releases_departed_witness:
  "\<exists>slot i xml. ''7'' = show_word slot \<and> listed gone_trace slot \<and>
     owner_known (d_cache sample_daemon) gone_trace slot i \<and> i \<notin> in_service_of xml"
  using cycle_releases_departed [OF runs_trace gone_releases] by blast

section \<open>The autoscaler: scaling\<close>

text \<open>
  C21: The scaler asks for more capacity only by one instance, only below the maximum, only after
  the cooldown, only outside a dry run, and only when the hard ceiling is reached or when the load
  is at the floor and the hysteresis is full; and it does ask, in every run, when the group is
  below its maximum, the clock readings are past the cooldown, and the hard ceiling is reached or
  the slope of the samples fires with the hysteresis full.
\<close>

theorem scale_up_conditions:
  assumes "runs (evaluate_scale_up s cfg avg n nm region dry st) t st'"
  shows "((AwsQuery h sv r ps, rp) \<in> set t \<longrightarrow>
      (\<exists>g. asg_group s = Some g \<and> desired_capacity g < max_size g \<and> \<not> dry \<and>
        AwsQuery h sv r ps = AwsQuery (asg_host region) ''autoscaling'' region
          (set_desired_params nm (word_of_int (desired_capacity g + 1))) \<and>
        cooled (last_scale_up st) (scale_up_cooldown_secs cfg) t \<and>
        (hard_trigger cfg avg \<or>
         slope_low_floor cfg \<le> avg \<and> scale_up_hysteresis_cycles cfg \<le> scale_up_cycles st + 1))) \<and>
    (asg_group s = Some g \<and> desired_capacity g < max_size g \<and> \<not> dry \<and>
      ripe (last_scale_up st) (scale_up_cooldown_secs cfg) t \<and>
      (hard_trigger cfg avg \<or> scale_up_hysteresis_cycles cfg \<le> scale_up_cycles st + 1 \<and>
        (\<forall>clk. hd t = (NowInstant, clk) \<longrightarrow>
          slope_trigger cfg avg (compute_smoothed_slope (slope_samples st) avg (as_nanos clk)))) \<longrightarrow>
      (\<exists>rp. (AwsQuery (asg_host region) ''autoscaling'' region
        (set_desired_params nm (word_of_int (desired_capacity g + 1))), rp) \<in> set t))"
  by (intro conjI impI, erule evaluate_scale_up_runs [OF assms], elim conjE, rule evaluate_scale_up_asks)
    (use assms in simp_all)

theorem scale_up_conditions_witness:
  "cooled (last_scale_up scaler_default) (scale_up_cooldown_secs sample_config) (sample_trace busy_pass) \<and>
   (AwsQuery (asg_host ''eu'') ''autoscaling'' ''eu'' (set_desired_params ''g'' 4), Failed IoError)
     \<in> set (sample_trace busy_pass)"
  using scale_up_conditions [OF sample_runs [of busy_pass], THEN conjunct1, THEN mp, OF busy_trace] busy_trace
  by blast

text \<open>
  C22: The scaler drains a backend only above the minimum capacity, with at least two active
  backends, fewer than the allowed number draining, an average load below the threshold, a full
  hysteresis and after the cooldown; the backend it picks is idle, or nothing is draining and it
  carries the most sessions. And when all this holds outside a dry run, and the clock readings are
  past the cooldown, the chosen backend is drained in every run. (The threshold is compared with
  the plain average before the drain, not, as its documentation says, with what the busiest
  remaining backend would carry after it: Samples.drain_past_threshold.)
\<close>

theorem drain_conditions:
  assumes "runs (evaluate_drain s active cfg wd dry st) t st'"
  shows "((WriteFile path v, rp) \<in> set t \<longrightarrow>
      (\<exists>g b. asg_group s = Some g \<and> min_size g < desired_capacity g \<and> 2 \<le> length active \<and>
        draining_count s < max_concurrent_draining cfg \<and>
        total_sessions active div word_of_nat (length active) < drain_threshold cfg \<and>
        drain_hysteresis_cycles cfg \<le> drain_cycles st + 1 \<and>
        cooled (last_drain st) (drain_cooldown_secs cfg) t \<and> \<not> dry \<and>
        b \<in> set active \<and> path = weight_path wd (bs_ip b) \<and> v = WEIGHT_DRAINING \<and>
        (backend_sessions b = 0 \<or>
         draining_count s = 0 \<and> (\<forall>x \<in> set active. backend_sessions x \<le> backend_sessions b)))) \<and>
    (asg_group s = Some g \<and> min_size g < desired_capacity g \<and> 2 \<le> length active \<and> length active < 2 ^ 32 \<and>
      draining_count s < max_concurrent_draining cfg \<and>
      total_sessions active div word_of_nat (length active) < drain_threshold cfg \<and>
      drain_hysteresis_cycles cfg \<le> drain_cycles st + 1 \<and>
      ripe (last_drain st) (drain_cooldown_secs cfg) t \<and> \<not> dry \<and>
      drain_choice active (draining_count s) = Some b \<longrightarrow>
      (\<exists>rp. (WriteFile (weight_path wd (bs_ip b)) WEIGHT_DRAINING, rp) \<in> set t))"
  by (intro conjI impI, erule evaluate_drain_runs [OF assms], elim conjE, rule evaluate_drain_writes)
    (use assms in simp_all)

theorem drain_conditions_witness:
  "\<exists>b \<in> set two_backends. weight_path ''w'' 167772183 = weight_path ''w'' (bs_ip b)"
  using drain_conditions [OF sample_runs [of idle_pass], THEN conjunct1,
      of "weight_path ''w'' 167772183" WEIGHT_DRAINING Done]
  unfolding idle_trace by auto

text \<open>
  C23: Over the whole life of the daemon the scaler keeps at most seven slope samples, a bandwidth
  estimate that is not negative, and never records a drain candidate.
\<close>

theorem daemon_keeps_scaler_invariant:
  assumes "scaler_inv (d_scaler st)"
  shows "returns (\<lambda>st'. scaler_inv (d_scaler st')) (daemon_loop n fetch_creds a vip net st)"
  using daemon_loop_inv [of st n fetch_creds a vip net] assms unfolding daemon_inv_def .

theorem daemon_keeps_scaler_invariant_witness:
  "returns (\<lambda>st'. scaler_inv (d_scaler st'))
     (daemon_loop 5 (Ret (Inl Exit1)) sample_args None sample_net sample_daemon)"
  by (rule daemon_keeps_scaler_invariant) (simp add: sample_daemon_def scaler_inv_default)

text \<open>
  C24: The cooldowns are the minimum time between two actions: over the successive passes of one
  scaler, each on any snapshot and on the state that the pass before has left, after an accepted
  capacity request (or a written drain) the next request (or drain) comes only when the clock,
  read just before it, is at least the cooldown past the reading taken right after the accepted
  one; and a pass issues at most one of each kind.
\<close>

theorem scaler_keeps_pace:
  assumes "chain (scaler_pass cfg nm region wd) st (us @ [t] @ vs @ [t']) st'"
    and "(q, good, cd) \<in> {(is_query, granted, scale_up_cooldown_secs cfg),
      (is_weight_write, written, drain_cooldown_secs cfg)}"
    and "(c, r) \<in> set t" "q c" "good r" "(c', r') \<in> set t'" "q c'"
    and "\<forall>v \<in> set vs. \<forall>(c, r) \<in> set v. q c \<longrightarrow> \<not> good r"
  shows "\<exists>a clk b a' clk' b'. t = a @ (c, r) # (NowInstant, clk) # b \<and> none_of q a \<and> none_of q b \<and>
    t' = a' @ (c', r') # b' \<and> (NowInstant, clk') \<in> set a' \<and>
    unat cd \<le> elapsed_secs (as_nanos clk) (as_nanos clk')"
proof -
  obtain l l' where "chain (paced q good cd) l (us @ [t] @ vs @ [t']) l'"
    using assms(2) passes_paced [OF assms(1)] by blast
  from chain_spaced [OF this assms(3-5) assms(8) assms(6,7)] show ?thesis .
qed

theorem scaler_keeps_pace_witness:
  "\<exists>a clk b a' clk' b'.
     fst first_pass = a @ (WriteFile (weight_path ''w'' 167772183) WEIGHT_DRAINING, Done) # (NowInstant, clk) # b \<and>
     fst second_pass = a' @ (WriteFile (weight_path ''w'' 167772183) WEIGHT_DRAINING, Done) # b' \<and>
     (NowInstant, clk') \<in> set a' \<and> unat (drain_cooldown_secs sample_config) \<le> elapsed_secs (as_nanos clk) (as_nanos clk')"
proof -
  have m: "(WriteFile (weight_path ''w'' 167772183) WEIGHT_DRAINING, Done) \<in> set (fst first_pass)"
    by (simp add: first_pass_run)
  show ?thesis
    using scaler_keeps_pace [OF two_passes, of is_weight_write written "drain_cooldown_secs sample_config",
        OF _ m _ _ second_pass_drains]
    by (fastforce simp: written_def)
qed

section \<open>The autoscaler: daemon, weights and messages\<close>

text \<open>
  C25: In a dry run, a cycle of the master changes nothing but the copies of the weights in Redis:
  no weight file, no slot, no instance, no capacity.
\<close>

theorem dry_run_of_master:
  assumes "da_dry_run a"
  shows "emits dry_allowed (cycle_as a net True st)"
  using master_dry_run [OF assms] .

theorem dry_run_of_master_witness: "emits dry_allowed (cycle_as sample_args sample_net True sample_daemon)"
  by (rule dry_run_of_master) (simp add: sample_args_def)

text \<open>
  C26: On a node whose refresh loop and listener run side by side, interleaved in any way and
  against any service, a command that changes the cluster (the account, the slots or the copies in
  Redis) comes from the loop only while the last output of ip addr show that it read contains the
  virtual address, so a backup's loop changes nothing but local files; and otherwise it is the
  listener's, which ends an instance that a release notice names, whatever the role of the node.
\<close>

theorem acts_only_as_master:
  assumes "emits only_files fetch_creds"
    and "steps srv sch (daemon_tasks n fetch_creds a (Some vip) net st streams, w) = u @ (k, c, r) # v"
    and "changes_cluster c"
  shows "k = 0 \<and> (\<exists>u1 out u2. own 0 u = u1 @ (IpAddrShow, Text out) # u2 \<and>
        contains out (show_ip vip) \<and> IpAddrShow \<notin> fst ` set u2) \<or>
    k = 1 \<and> \<not> da_dry_run a \<and> (\<exists>i. noticed streams i \<and>
        c = AwsQuery (asg_host (da_region a)) ''autoscaling'' (da_region a)
          (terminate_params i (da_term_decrements_capacity a)))"
  using tasks_allowed [OF assms(1,2)] assms(3)
  by (auto simp: by_master_def holds_vip_def listener_command_def cleanup_env_of_def)

theorem acts_only_as_master_witness:
  "\<exists>i. noticed release_of_7 i \<and> terminate_params ''i-7'' True = terminate_params i (da_term_decrements_capacity wet_args)"
proof -
  let ?c = "AwsQuery (asg_host ''eu'') ''autoscaling'' ''eu'' (terminate_params ''i-7'' True)"
  have s: "steps (answering backup_answer) [0, 0, 1, 1, 1, 1, 1] (backup_tasks, ()) =
      take 5 backup_run @ (1, ?c, Done) # drop 6 backup_run"
    unfolding backup_run_def [symmetric] by (simp add: backup_run_steps)
  have "changes_cluster ?c" by (simp add: changes_cluster_def only_files_def terminate_params_def aws_action_def starts_with_def)
  from acts_only_as_master [OF _ s this] show ?thesis by auto
qed

text \<open>
  C27: A start from leases that ends well has written every weight file of the directory, and by
  what Redis answered: active only when the answer lists a slot with the file's address whose
  lease had not run out at a reading of the clock, disabled only when every listed slot with that
  address had a lease that had run out at a reading of the clock (or the leases could not be
  read).
\<close>

theorem startup_writes_every_weight:
  assumes "runs (compute_from_leases wd net) t (Inr ())" "(ReadDir wd, Entries es) \<in> set t"
    and "Inr name \<in> set es" "weight_file_ip name = Some ip"
  shows "\<exists>leases v w. (Redis (ZRANGE KEY_LEASES), leases) \<in> set t \<and> (WriteFile (entry_path wd name) v, w) \<in> set t \<and>
    (v = WEIGHT_ACTIVE \<and> (\<exists>x \<in> set (listed_leases leases). live_for net ip t x) \<or>
     v = WEIGHT_DISABLED \<and> (\<forall>x \<in> set (listed_leases leases). over_for net ip t x))"
  using compute_from_leases_all [OF assms] .

theorem startup_writes_every_weight_witness:
  "\<exists>v w. (WriteFile (entry_path ''w'' sample_file) v, w)
     \<in> set (trace (answering startup_answer) (compute_from_leases ''w'' sample_net) ())"
  using startup_writes_every_weight [OF runs_trace [of "compute_from_leases ''w'' sample_net"
      "answering startup_answer" "()", unfolded startup_trace(2)], of "[Inr sample_file]" sample_file 167772183]
    sample_file_ip
  by (simp add: startup_trace(1))

text \<open>
  C28: The backup writes a weight file only with the value that the master stored for it in Redis,
  and only when the file's content differs from that value.
\<close>

theorem backup_copies_master:
  assumes "runs (sync_from_redis wd) t x" "(WriteFile p v, rp) \<in> set t"
  shows "\<exists>name ip_str val disk. weight_file_name name = Some ip_str \<and> p = entry_path wd name \<and>
    v = trim val \<and> (Redis (GET (weight_key ip_str)), Bulk (Some val)) \<in> set t \<and>
    (ReadFile p, disk) \<in> set t \<and> (\<forall>s. disk = Text s \<longrightarrow> trim s \<noteq> trim val)"
  using sync_runs [OF assms] .

theorem backup_copies_master_witness:
  "\<exists>name ip_str. weight_file_name name = Some ip_str \<and>
     entry_path ''w'' sample_file = entry_path ''w'' name"
  using backup_copies_master [OF runs_trace [of "sync_from_redis ''w''" "answering startup_answer" "()"],
      of "entry_path ''w'' sample_file" "''-1''" Done]
  unfolding backup_trace by (simp, blast)

text \<open>
  C29: The parts of the daemon agree on the weight files: the path that the cleanup writes for an
  address is the file that the snapshot and the synchronisation read for it, and the three weight
  values are read back as their states.
\<close>

theorem weight_files_agree:
  "weight_path wd ip = entry_path wd (''backend-'' @ show_ip ip @ ''.weight'') \<and>
   weight_file_ip (''backend-'' @ show_ip ip @ ''.weight'') = Some ip \<and>
   weight_file_name (''backend-'' @ show_ip ip @ ''.weight'') = Some (show_ip ip) \<and>
   map from_weight_str [WEIGHT_ACTIVE, WEIGHT_DRAINING, WEIGHT_DISABLED] = [Active, Draining, Disabled]"
proof -
  have "map from_weight_str [WEIGHT_ACTIVE, WEIGHT_DRAINING, WEIGHT_DISABLED] = [Active, Draining, Disabled]"
    by code_simp
  then show ?thesis using weight_path_entry weight_file_ip_of weight_file_name_of by blast
qed

text \<open>
  C30: The notice that the native tool publishes on a release is understood by the listener,
  outside a dry run, as that release: it disables the backend of that slot, then ends that
  instance, then wakes the main loop, and does nothing else.
\<close>

theorem release_notice:
  assumes "runs (on_message env net (Inr (Some (asg_change (show_word (slot :: u32)) ''release'' (Some i))))) t u"
    and "\<not> ce_dry_run env"
  shows "\<exists>r1 r2 r3. t =
    [(WriteFile (weight_path (ce_weights_dir env) (ip_for_slot net slot)) WEIGHT_DISABLED, r1),
     (AwsQuery (asg_host (ce_region env)) ''autoscaling'' (ce_region env)
        (terminate_params i (ce_decrement env)), r2),
     (Notify, r3)]"
proof -
  have "runs (handle_message env net \<lparr>m_slot = slot, m_action = ''release'', m_instance_id = Some i\<rparr>) t u"
    using assms(1) by (simp add: on_message_def msg_round_trip)
  from handle_release [OF this _ _ assms(2)] show ?thesis by auto
qed

theorem release_notice_witness:
  "length (trace (answering sample_answer)
     (on_message sample_env sample_net (Inr (Some (asg_change (show_word (3 :: u32)) ''release'' (Some ''i-a''))))) ()) = 3"
  using release_notice [OF runs_trace [of "on_message sample_env sample_net
      (Inr (Some (asg_change (show_word (3 :: u32)) ''release'' (Some ''i-a''))))" "answering sample_answer" "()"]]
  by (auto simp: sample_env_def)

section \<open>Snapshot, addresses, metrics and AWS\<close>

text \<open>
  C31: Parsing a DescribeAutoScalingGroups answer gives back exactly the groups and instances that
  were rendered into it, through the nested member elements.
\<close>

theorem describe_round_trip:
  assumes "list_all group_clean gs" "\<not> contains (pre @ post) (open_tag ''member'')"
    and "\<not> contains pre (open_tag ''member'')" "\<not> contains post (open_tag ''member'')"
  shows "parse_asg_describe (pre @ concat (map render_group gs) @ post) = gs"
  using parse_asg_render [OF assms] .

theorem describe_round_trip_witness:
  "parse_asg_describe (concat (map render_group [sample_group])) = [sample_group]"
  using describe_round_trip [of "[sample_group]" "[]" "[]"] sample_group_clean by simp

text \<open>
  C32: The parameters of a CloudWatch push have pairwise distinct names, whatever the backends and
  their samples: the numbering of the data points never repeats.
\<close>

theorem cloudwatch_keys_distinct: "distinct (map fst (fst (push_params fmt4 ts ns active)))"
  by (rule push_params_keys_distinct)

section \<open>The tools of the load balancer\<close>

text \<open>
  C33: A takeover asks EC2 to attach an interface only to this instance, at the device index of
  the command line, and only after an answer about the selected interface that said it is
  available.
\<close>

theorem takeover_attaches_available:
  assumes "runs (cmd_takeover fuel a sel iid) t x"
    and "(AwsQuery h s r (attach_params i e d), rp) \<in> set t"
  shows "i = iid \<and> d = ea_device_index a \<and> (\<exists>t1 t2.
    t = t1 @ (AwsQuery h s r (attach_params i e d), rp) # t2 \<and>
    seen_available (ea_region a) {describe_eni_params sel None, poll_params e} t1)"
  using takeover_attaches [OF assms] by blast

theorem takeover_attaches_available_witness:
  "\<exists>t1. seen_available ''eu'' {describe_eni_params (EniSlot 3) None, poll_params ''eni-1''} t1"
proof -
  let ?t = "trace (answering eni_answer) (cmd_takeover (Suc 0) sample_eni (EniSlot 3) ''i-a'') ()"
  have m: "(eni_query (attach_params ''i-a'' ''eni-1'' 1), Text ''<attachmentId>att-2</attachmentId>'') \<in> set ?t"
    by (simp add: takeover_trace)
  have r: "ea_region sample_eni = ''eu''" by (simp add: sample_eni_def)
  from takeover_attaches_available [OF runs_trace m] show ?thesis
    unfolding r by blast
qed

text \<open>
  C34: Waiting for an interface ends: if the clock advances by the two seconds of each pause, then
  with more turns of the loop than half the timeout the loop returns, with success or with an
  error.
\<close>

theorem polling_ends:
  assumes "runs (poll_until_available n region eni_id secs) t x"
    and "clock_readings t = now # later" "\<forall>r \<in> set later. now \<le> r" "spaced later"
    and "unat secs div 2 + 1 < n"
  shows "x \<noteq> None"
  using poll_ends [OF assms] .

theorem polling_ends_witness:
  "fst (exec (answering eni_answer) (poll_until_available 20 ''eu'' ''eni-1'' 30) ()) \<noteq> None"
proof -
  have t: "trace (answering eni_answer) (poll_until_available 20 ''eu'' ''eni-1'' 30) () =
      [(NowInstant, Nanos 0), (eni_query (poll_params ''eni-1''), Text (eni_xml ''available''))]"
    using poll_run(1) [of 19] by simp
  show ?thesis
    by (rule polling_ends [OF runs_trace, where now = 0 and later = "[]"]) (simp_all add: t as_nanos_def)
qed

text \<open>
  C35: Read line by line, backends.conf has for every slot, in order, one track_file block with
  the name of the weight file that aeroscale writes for the slot's address, one real server with
  that address on port 21, and a check that refers to its track_file block.
\<close>

theorem backends_conf_covers_slots:
  assumes "single_line ts" "single_line (id_instance_id d)" "single_line (id_vip_outside d)"
    and "single_line (pa_lvs_sched a)"
  shows "let conf = render_backends_conf ts a d;
      ips = map (ip_for_slot (id_slot_network d)) (slots_below (id_slot_count d)) in
    entries (''    file '' @ [dquote]) [dquote] conf = map (weight_path ''/etc/keepalived/weights'') ips \<and>
    entries ''track_file backend_'' '' {'' conf = map show_ip ips \<and>
    entries ''    real_server '' '' 21 {'' conf = map show_ip ips \<and>
    entries ''            track_file backend_'' [] conf = map show_ip ips"
  using backends_conf_entries [OF assms] by (simp only: Let_def slot_ips_def simp_thms)

theorem backends_conf_covers_slots_witness:
  "entries (''    file '' @ [dquote]) [dquote] (render_backends_conf ''t'' sample_pulse sample_balancer) =
     map (weight_path ''/etc/keepalived/weights'') [167772180, 167772181]"
proof -
  have "single_line ''t''" "single_line (id_instance_id sample_balancer)"
    "single_line (id_vip_outside sample_balancer)" "single_line (pa_lvs_sched sample_pulse)"
    by (simp_all add: sample_balancer_def sample_pulse_def)
  from backends_conf_covers_slots [OF this] show ?thesis
    using sample_slot_ips unfolding Let_def slot_ips_def by argo
qed

text \<open>
  C36: aeropulse changes nothing before the instance data is resolved; then it writes its six
  files with their modes in a fixed order (for each its directory, its content, its mode), goes on
  only while every command works, fails exactly when one of them fails, which is then its last
  command, and succeeds only when it has issued all of them and all have worked.
\<close>

theorem pulse_writes_all_or_prefix:
  assumes "runs (pulse_main ts a) t x"
  shows "(\<forall>(c, r) \<in> set t. \<not> mutates c) \<and> x \<noteq> Inr () \<or>
    (\<exists>d t1 t2. t = t1 @ t2 \<and> runs resolve_instance_data t1 (Inr d) \<and> (\<forall>(c, r) \<in> set t1. \<not> mutates c) \<and>
       map (\<lambda>(path, content, mode). (path, mode)) (pulse_files ts a d) =
         [(pa_out a, 416), (pa_backends_out a, 416), (pa_notify_master_out a, 488),
          (pa_notify_backup_out a, 488), (pa_chk_backends_out a, 488), (pa_chk_forward_out a, 488)] \<and>
       prefix (map fst t2) (concat (map writing (pulse_files ts a d))) \<and>
       (x = Inr () \<longrightarrow> map fst t2 = concat (map writing (pulse_files ts a d)) \<and> no_fault t2) \<and>
       (x \<noteq> Inr () \<longrightarrow> (\<exists>u c f. t2 = u @ [(c, Failed f)] \<and> no_fault u)))"
  using pulse_main_runs [OF assms] by (simp add: pulse_files_def)

theorem pulse_writes_all_or_prefix_witness:
  "\<exists>d t1 t2. trace (answering imds_answer) (pulse_main (\<lambda>_. ''t'') sample_pulse) () = t1 @ t2 \<and>
     map fst t2 = concat (map writing (pulse_files (\<lambda>_. ''t'') sample_pulse d)) \<and> no_fault t2"
  using pulse_writes_all_or_prefix [OF runs_trace [of "pulse_main (\<lambda>_. ''t'') sample_pulse"
      "answering imds_answer" "()"]] pulse_run by blast

section \<open>The FTP server\<close>

text \<open>
  C37: An upload that succeeds has opened the object with the metadata of the user, has written
  exactly the bytes that were read up to the end of the input, in order, every write (and every
  other command) having worked, has closed the object, and returns their number; and the loop
  returns whenever the input has fewer chunks than it has turns.
\<close>

theorem upload_faithful:
  assumes "runs (put_object fuel user path) t x"
  shows "(\<forall>n. x = Some (Inr n) \<longrightarrow> (\<exists>r t' s.
      t = (OpenWriter path (au_system_meta user), r) # t' @ [(ReadInput 8192, StoBytes []), (Shutdown, s)] \<and>
      faultless t \<and> bytes_out t = bytes_in t \<and> n = word_of_nat (length (bytes_in t)))) \<and>
    (chunks_read t < fuel \<longrightarrow> x \<noteq> None)"
  using put_object_ok put_object_ends assms by blast

theorem upload_faithful_witness:
  "faultless (trace chunk_srv sample_put [''ab'', ''c'']) \<and>
   bytes_out (trace chunk_srv sample_put [''ab'', ''c'']) = bytes_in (trace chunk_srv sample_put [''ab'', ''c''])"
  using upload_faithful [OF runs_trace [of sample_put chunk_srv "[''ab'', ''c'']"]] put_run(2) by blast

text \<open>
  C38: aeroftp starts a new round exactly after a SIGHUP, ends successfully on the first other
  signal, never starts the servers again before the tasks of the round before have been joined,
  and, when it returns with success or an error after a span exporter was set up, flushes the
  spans as its last act; a panic (which aborts the process) comes only before the servers are
  started, and nothing is flushed then.
\<close>

theorem restarts_on_hup:
  assumes "runs (ftp_main n) t x"
  shows "one_generation False t \<and>
    (x = None \<longrightarrow> signals t = replicate n SigHup) \<and>
    (\<forall>e. x = Some (Inl e) \<longrightarrow> set (signals t) \<subseteq> {SigHup}) \<and>
    (x = Some (Inr ()) \<longrightarrow> (\<exists>k s. signals t = replicate k SigHup @ [s] \<and> s \<noteq> SigHup)) \<and>
    (\<forall>y s r. x = Some y \<longrightarrow> (\<forall>m. y \<noteq> Inl (Panicked m)) \<longrightarrow> (BuildProvider s, r) \<in> set t \<longrightarrow>
       (\<exists>t' r'. t = t' @ [(ShutdownTracer, r')])) \<and>
    (\<forall>m. x = Some (Inl (Panicked m)) \<longrightarrow> (\<forall>(c, r) \<in> set t. c \<noteq> SpawnFtp \<and> c \<noteq> ShutdownTracer))"
proof -
  have "\<exists>t' r'. t = t' @ [(ShutdownTracer, r')]"
    if "x = Some y" "\<forall>m. y \<noteq> Inl (Panicked m)" "(BuildProvider s, r) \<in> set t" for y s r
    using ftp_main_flushes [of n t y s r] that assms by simp
  moreover have "\<forall>(c, r) \<in> set t. c \<noteq> SpawnFtp \<and> c \<noteq> ShutdownTracer" if "x = Some (Inl (Panicked m))" for m
    using ftp_main_panics [of n t m] that assms by simp
  ultimately show ?thesis using ftp_main_signals [OF assms] by (auto simp del: split_paired_All)
qed

theorem restarts_on_hup_witness:
  "one_generation False (trace (answering term_answer) (ftp_main (Suc 0)) ())"
  using restarts_on_hup [OF runs_trace [of "ftp_main (Suc 0)" "answering term_answer" "()"]] by simp

text \<open>
  C39: The shutdown of one round of aeroftp's tasks, in any order of their steps: the servers
  begin to stop only after the wait for a signal is over and the FTP start has ended, a round is
  over only when both its tasks are, waiting for them never gets stuck, and no round takes more
  than eight steps.
\<close>

theorem round_shutdown:
  assumes "reached n s"
  shows "n \<le> 8 \<and>
    (r_http s = HttpDraining \<or> r_listener s = Grace \<longrightarrow> r_main s \<noteq> AwaitSignal \<and> r_ftp s = FtpEnded) \<and>
    (\<forall>b. r_main s = Over b \<longrightarrow> r_http s = HttpEnded \<and> r_ftp s = FtpEnded) \<and>
    (r_main s = Joining \<longrightarrow> (\<exists>s'. task_step s s'))"
  using round_safe [OF assms] .

theorem round_shutdown_witness:
  "\<exists>s'. task_step (round_start\<lparr>r_main := Joining, r_sender := False\<rparr>) s'"
  using round_shutdown [OF signal_reached] by (simp add: round_start_def)

text \<open>
  C40: The log filter is changed only by a POST to /config whose body is at most 8 KB and parses,
  once per request, and the answer is 200 exactly when the change was accepted.
\<close>

theorem filter_only_by_config:
  assumes "runs (router from_json try_new meth path) t resp" "(ModifyFilter f, r) \<in> set t"
  shows "meth = MPost \<and> path = ''/config'' \<and>
    (\<exists>b lvl. t = [(CollectBody, HBytes b), (ModifyFilter f, r)] \<and> length b \<le> MAX_BODY \<and>
       from_json b = Inr lvl \<and> try_new lvl = Inr f) \<and>
    hr_status resp = (if \<exists>e. r = HFault e then 500 else 200)"
  using router_modifies [OF assms] .

theorem filter_only_by_config_witness:
  "hr_status (fst (exec (answering filter_srv) sample_post ())) = 200"
  using filter_only_by_config [OF runs_trace [of sample_post "answering filter_srv" "()"], of "''debug''" HOk]
  by (simp add: post_run)

end
